(* ===== verification/Prelude.thy ===== *)
theory Prelude
  imports Main "HOL-Library.Word" "HOL-Library.AList" "HOL-Library.Multiset"
    "HOL-Library.Sublist" "HOL-Library.Char_ord" "HOL-Library.List_Lexorder"
begin

text \<open>
  What the components share. Go strings are byte strings, here \<^typ>\<open>string\<close> (a list of
  \<^typ>\<open>char\<close>, one per byte); \<^verbatim>\<open>uint8\<close>, \<^verbatim>\<open>uint32\<close> and \<^verbatim>\<open>uint64\<close> are words of that width;
  Go's \<^verbatim>\<open>int\<close> (64 bits, two's complement) is \<^typ>\<open>int\<close> with \<open>wrap64\<close> where a value
  can leave the range. A Go map is an association list with distinct keys, and the
  unspecified order in which \<^verbatim>\<open>range\<close> visits it is an argument of the definitions that
  iterate. A computation that may panic or run forever has the type \<open>'a comp\<close>.
\<close>

named_theorems outcome_simps \<open>evaluation of panicking and diverging computations\<close>
named_theorems gomap_simps \<open>lookup, update and keys of Go maps\<close>

unbundle bit_operations_syntax

type_synonym byte = "8 word"
type_synonym u32 = "32 word"
type_synonym u64 = "64 word"

subsection \<open>Panics and divergence\<close>

text \<open>
  \<^verbatim>\<open>Some (Returns x)\<close> is a normal return, \<^verbatim>\<open>Some Panics\<close> a run-time panic (a slice
  expression out of range), \<^verbatim>\<open>None\<close> a loop that never ends.
\<close>

datatype 'a outcome = Returns 'a | Panics

type_synonym 'a comp = "'a outcome option"

fun go_bind :: "'a comp \<Rightarrow> ('a \<Rightarrow> 'b comp) \<Rightarrow> 'b comp" where
  "go_bind None f = None"
| "go_bind (Some Panics) f = Some Panics"
| "go_bind (Some (Returns x)) f = f x"

abbreviation ret :: "'a \<Rightarrow> 'a comp" where
  "ret x \<equiv> Some (Returns x)"

declare go_bind.simps [outcome_simps]

lemma go_bind_ret: "go_bind m f = ret y \<longleftrightarrow> (\<exists>x. m = ret x \<and> f x = ret y)"
  by (cases m; cases "the m"; force)

lemma go_bind_assoc: "go_bind (go_bind m f) g = go_bind m (\<lambda>x. go_bind (f x) g)"
  by (cases m; cases "the m"; force)

subsection \<open>Errors\<close>

text \<open>
  A Go \<^verbatim>\<open>error\<close>: what the API server answers (a missing object is told apart by
  \<^verbatim>\<open>errors.IsNotFound\<close>), a failed JSON conversion, a failed system call, and a wrapping by
  \<^verbatim>\<open>fmt.Errorf\<close> with \<^verbatim>\<open>%w\<close>. A nil error is \<open>None\<close>.
\<close>

datatype go_error = NotFound | ApiError string | JsonError string | OsError string | Wrapped string go_error

definition IsNotFound :: "go_error \<Rightarrow> bool" where
  "IsNotFound err \<longleftrightarrow> err = NotFound"

lemma IsNotFound_simps [simp]:
  "IsNotFound NotFound" "\<not> IsNotFound (ApiError m)" "\<not> IsNotFound (Wrapped m err)"
  by (simp_all add: IsNotFound_def)

subsection \<open>Machine integers\<close>

text \<open>The value a mathematical integer has after conversion to Go's 64-bit \<^verbatim>\<open>int\<close>.\<close>

definition wrap64 :: "int \<Rightarrow> int" where
  "wrap64 x = sint (word_of_int x :: u64)"

lemma wrap64_id: "- (2 ^ 63) \<le> x \<Longrightarrow> x < 2 ^ 63 \<Longrightarrow> wrap64 x = x"
  unfolding wrap64_def
  by (subst sint_sbintrunc') (simp add: signed_take_bit_int_eq_self)

lemma unat_of_nat_small: "n < 2 ^ 64 \<Longrightarrow> unat (of_nat n :: u64) = n"
  by (simp add: unat_of_nat)

lemma of_nat_eq_u64: "m < 2 ^ 64 \<Longrightarrow> n < 2 ^ 64 \<Longrightarrow> (of_nat m :: u64) = of_nat n \<longleftrightarrow> m = n"
  by (metis unat_of_nat_small)

lemma wrap64_int: "n < 2 ^ 63 \<Longrightarrow> wrap64 (int n) = int n"
  by (rule wrap64_id) simp_all

lemma sint_of_nat_small: "n < 2 ^ 63 \<Longrightarrow> sint (of_nat n :: u64) = int n"
  by (metis wrap64_def wrap64_id of_int_of_nat_eq of_nat_less_iff of_nat_numeral of_nat_power order_trans[of "- (2^63)" 0] of_nat_0_le_iff neg_le_0_iff_le zero_le_power zero_le_numeral)

lemma sint_of_nat_neg:
  assumes "2 ^ 63 \<le> v" "v < 2 ^ 64"
  shows "sint (of_nat v :: u64) = int v - 2 ^ 64"
proof -
  have "sint (of_nat v :: u64) = (int v + 2 ^ 63) mod 2 ^ 64 - 2 ^ 63"
    using int_word_sint[of "int v", where 'a = 64] by simp
  also have "(int v + 2 ^ 63) mod 2 ^ 64 = (int v + 2 ^ 63 - 2 ^ 64) mod 2 ^ 64"
    by (metis mod_add_self2 diff_add_cancel)
  also have "\<dots> = int v + 2 ^ 63 - 2 ^ 64"
    using assms by (intro mod_pos_pos_trivial) simp_all
  finally show ?thesis by simp
qed

lemma ucast_of_nat_u32: "ucast (of_nat port :: u64) = (of_nat port :: u32)"
  by (rule bit_word_eqI) (simp add: bit_simps)

subsection \<open>Strings\<close>

text \<open>\<^verbatim>\<open>strings.HasPrefix\<close>; the loop of slices \<^verbatim>\<open>ip[:len(p)] == p\<close> computes the same.\<close>

definition HasPrefix :: "string \<Rightarrow> string \<Rightarrow> bool" where
  "HasPrefix s p \<longleftrightarrow> take (length p) s = p"

lemma HasPrefix_prefix: "HasPrefix s p \<longleftrightarrow> prefix p s"
  unfolding HasPrefix_def prefix_def
  by (metis append_eq_conv_conj append_take_drop_id)

lemma HasPrefix_append [simp]: "HasPrefix (p @ s) p"
  by (simp add: HasPrefix_def)

text \<open>The verb \<^verbatim>\<open>%d\<close> of \<^verbatim>\<open>fmt.Sprintf\<close> on a non-negative integer.\<close>

definition digit_char :: "nat \<Rightarrow> char" where
  "digit_char d = char_of (48 + d)"

fun dec :: "nat \<Rightarrow> string" where
  "dec n = (if n < 10 then [digit_char n] else dec (n div 10) @ [digit_char (n mod 10)])"

declare dec.simps [simp del]

lemma dec_ne [simp]: "dec n \<noteq> []"
  by (subst dec.simps) simp

lemma of_char_digit: "d < 10 \<Longrightarrow> of_char (digit_char d) = 48 + d"
  by (simp add: digit_char_def)

lemma dec_digits: "c \<in> set (dec n) \<Longrightarrow> 48 \<le> (of_char c :: nat) \<and> of_char c \<le> (57 :: nat)"
proof (induction n rule: dec.induct)
  case (1 n)
  then show ?case
    using of_char_digit[of n] of_char_digit[of "n mod 10"]
    by (cases "n < 10") (auto simp: dec.simps[of n])
qed

lemma dec_not_in: "of_char c < (48::nat) \<or> 57 < (of_char c :: nat) \<Longrightarrow> c \<notin> set (dec n)"
  using dec_digits by fastforce

lemma dec_no_sep [simp]: "CHR ''.'' \<notin> set (dec n)" "CHR '':'' \<notin> set (dec n)" "CHR ''/'' \<notin> set (dec n)" "CHR ''%'' \<notin> set (dec n)"
  by (rule dec_not_in, simp)+

fun undec :: "string \<Rightarrow> nat \<Rightarrow> nat" where
  "undec [] v = v" | "undec (c # cs) v = undec cs (v * 10 + (of_char c - 48))"

lemma undec_append: "undec (a @ b) v = undec b (undec a v)"
  by (induction a arbitrary: v) auto

lemma undec_dec: "undec (dec n) 0 = n"
proof (induction n rule: dec.induct)
  case (1 n)
  then show ?case
    using of_char_digit[of n] of_char_digit[of "n mod 10"]
    by (cases "n < 10") (auto simp: dec.simps[of n] undec_append)
qed

lemma dec_inject [simp]: "dec m = dec n \<longleftrightarrow> m = n"
  by (metis undec_dec)

lemma append_sep_eq:
  assumes "c \<notin> set a" "c \<notin> set b"
  shows "a @ c # x = b @ c # y \<longleftrightarrow> a = b \<and> x = y"
  using assms
proof (induction a arbitrary: b)
  case Nil
  then show ?case by (cases b) auto
next
  case (Cons u a)
  then show ?case by (cases b) auto
qed

lemma prefix_sep:
  assumes "c \<notin> set a" "c \<notin> set b"
  shows "prefix (b @ c # y) (a @ c # x) \<longleftrightarrow> a = b \<and> prefix y x"
  unfolding prefix_def using append_sep_eq[OF assms] by auto

subsection \<open>Go maps\<close>

text \<open>The order in which \<^verbatim>\<open>range\<close> visits the keys of a map: any permutation of them.\<close>

definition map_order :: "('k list \<Rightarrow> 'k list) \<Rightarrow> bool" where
  "map_order ord \<longleftrightarrow> (\<forall>ks. mset (ord ks) = mset ks)"

lemma map_orderD:
  assumes "map_order ord"
  shows "set (ord ks) = set ks" "distinct (ord ks) = distinct ks" "length (ord ks) = length ks"
  using assms unfolding map_order_def
  by (metis mset_eq_setD, metis mset_eq_imp_distinct_iff, metis mset_eq_length)

lemma map_order_id [simp]: "map_order (\<lambda>ks. ks)" "map_order rev"
  by (simp_all add: map_order_def)

text \<open>The keys of a list in the order of their first occurrence.\<close>

definition dedup :: "'a list \<Rightarrow> 'a list" where
  "dedup xs = rev (remdups (rev xs))"

lemma dedup_simps [simp]:
  "dedup [] = []" "dedup (xs @ [x]) = (if x \<in> set xs then dedup xs else dedup xs @ [x])"
  "set (dedup xs) = set xs" "distinct (dedup xs)"
  by (simp_all add: dedup_def)

lemma update_map_key:
  "distinct ks \<Longrightarrow> k \<in> set ks \<Longrightarrow>
   AList.update k v (map (\<lambda>k. (k, g k)) ks) = map (\<lambda>k'. (k', if k' = k then v else g k')) ks"
  by (induction ks) auto

lemma update_new_key: "k \<notin> fst ` set al \<Longrightarrow> AList.update k v al = al @ [(k, v)]"
  by (induction al) auto

lemma map_of_map_key: "map_of (map (\<lambda>k. (k, g k)) ks) k = (if k \<in> set ks then Some (g k) else None)"
  by (induction ks) auto

lemma update_eq_map:
  "distinct (map fst m) \<Longrightarrow> map_of m k = Some e \<Longrightarrow>
   AList.update k v m = map (\<lambda>(k', e'). (k', if k' = k then v else e')) m"
  by (induction m) (force intro!: map_idI[symmetric] dest!: map_of_SomeD)+

end
