(* ===== verification/Flow_Types.thy ===== *)
theory Flow_Types
  imports Prelude
begin

text \<open>
  The normalised flow of \<^verbatim>\<open>internal/observer/flow.go\<close>. A \<^verbatim>\<open>time.Time\<close> is its instant in
  nanoseconds, an \<^typ>\<open>int\<close>; \<^verbatim>\<open>time.Now()\<close> is an argument of whatever reads the clock.
\<close>

record Flow =
  fl_SourceNamespace :: string
  fl_SourcePod :: string
  fl_SourceWorkload :: string
  fl_DestFQDN :: string
  fl_DestIP :: string
  fl_DestPort :: u32
  fl_Protocol :: string
  fl_Verdict :: string
  fl_Bytes :: u64
  fl_Timestamp :: int

text \<open>The zero value \<^verbatim>\<open>Flow{}\<close>; \<open>zero_time\<close> is the instant of the zero \<^verbatim>\<open>time.Time\<close>
  (1 January of year 1, in nanoseconds from the Unix epoch).\<close>

definition zero_time :: int where
  "zero_time = - 62135596800000000000"

definition zero_Flow :: Flow where
  "zero_Flow = \<lparr>fl_SourceNamespace = [], fl_SourcePod = [], fl_SourceWorkload = [],
     fl_DestFQDN = [], fl_DestIP = [], fl_DestPort = 0, fl_Protocol = [], fl_Verdict = [],
     fl_Bytes = 0, fl_Timestamp = zero_time\<rparr>"

end
