(* ===== verification/Hubble_Proto.thy ===== *)
theory Hubble_Proto
  imports Flow_Types
begin

text \<open>
  The hand-written protobuf reader of \<^verbatim>\<open>internal/observer/hubble_grpc.go\<close>: the base-128
  varint decoder, the two field extractors with their index arithmetic on Go's 64-bit
  \<^verbatim>\<open>int\<close>, the request builder and the decoder of a Hubble flow.
  The extractors can panic (a slice expression with a negative or inverted bound) and can
  loop forever (a length prefix that moves the index backwards), so their results have the
  type \<open>'a comp\<close>.
\<close>

subsection \<open>decodeVarint\<close>

text \<open>The loop of \<^verbatim>\<open>decodeVarint\<close>: index \<open>i\<close>, accumulated value \<open>x\<close>, shift \<open>s\<close>.\<close>

fun decodeVarint_loop :: "byte list \<Rightarrow> nat \<Rightarrow> u64 \<Rightarrow> nat \<Rightarrow> u64 \<times> nat" where
  "decodeVarint_loop [] i x s = (0, 0)"
| "decodeVarint_loop (b # bs) i x s =
     (if i = 10 then (0, 0)
      else if b < 0x80 then (x OR push_bit s (ucast b), i + 1)
      else decodeVarint_loop bs (i + 1) (x OR push_bit s (ucast (b AND 0x7F))) (s + 7))"

definition decodeVarint :: "byte list \<Rightarrow> u64 \<times> nat" where
  "decodeVarint data = decodeVarint_loop data 0 0 0"

subsection \<open>Field extraction\<close>

text \<open>
  The loop of \<^verbatim>\<open>extractField\<close> at index \<open>i\<close>. The slice \<^verbatim>\<open>data[i:]\<close> at the head of the
  body panics for a negative index; \<^verbatim>\<open>data[i:end]\<close> panics when \<^verbatim>\<open>end < i\<close>. The sums
  \<^verbatim>\<open>i += n\<close> stay within the length of \<open>data\<close>; \<^verbatim>\<open>i + int(length)\<close> can wrap around.
\<close>

partial_function (option) extractField_loop ::
  "byte list \<Rightarrow> u64 \<Rightarrow> int \<Rightarrow> (byte list \<times> bool) comp" where
  "extractField_loop data fieldNum i =
     (if i < int (length data) then
        if i < 0 then Some Panics
        else
          let tagn = decodeVarint (drop (nat i) data); tag = fst tagn; n = snd tagn in
          if n = 0 then ret ([], False)
          else
            let i1 = i + int n; wireType = tag AND 0x7; fn = drop_bit 3 tag in
            if wireType = 0 then
              let n2 = snd (decodeVarint (drop (nat i1) data)) in
              if n2 = 0 then ret ([], False)
              else if fn = fieldNum then ret ([], False)
              else extractField_loop data fieldNum (i1 + int n2)
            else if wireType = 2 then
              let ln = decodeVarint (drop (nat i1) data); len = fst ln; n2 = snd ln in
              if n2 = 0 then ret ([], False)
              else
                let i2 = i1 + int n2; end = wrap64 (i2 + sint len) in
                if end > int (length data) then ret ([], False)
                else if fn = fieldNum then
                  if end < i2 then Some Panics
                  else ret (take (nat (end - i2)) (drop (nat i2) data), True)
                else extractField_loop data fieldNum end
            else ret ([], False)
      else ret ([], False))"

definition extractField :: "byte list \<Rightarrow> u64 \<Rightarrow> (byte list \<times> bool) comp" where
  "extractField data fieldNum = extractField_loop data fieldNum 0"

text \<open>The loop of \<^verbatim>\<open>extractVarint\<close>: here a length prefix is added to the index unchecked.\<close>

partial_function (option) extractVarint_loop ::
  "byte list \<Rightarrow> u64 \<Rightarrow> int \<Rightarrow> (u64 \<times> bool) comp" where
  "extractVarint_loop data fieldNum i =
     (if i < int (length data) then
        if i < 0 then Some Panics
        else
          let tagn = decodeVarint (drop (nat i) data); tag = fst tagn; n = snd tagn in
          if n = 0 then ret (0, False)
          else
            let i1 = i + int n; wireType = tag AND 0x7; fn = drop_bit 3 tag in
            if wireType = 0 then
              let vn = decodeVarint (drop (nat i1) data); v = fst vn; n2 = snd vn in
              if n2 = 0 then ret (0, False)
              else if fn = fieldNum then ret (v, True)
              else extractVarint_loop data fieldNum (i1 + int n2)
            else if wireType = 2 then
              let ln = decodeVarint (drop (nat i1) data); len = fst ln; n2 = snd ln in
              if n2 = 0 then ret (0, False)
              else extractVarint_loop data fieldNum (wrap64 (i1 + int n2 + sint len))
            else ret (0, False)
      else ret (0, False))"

definition extractVarint :: "byte list \<Rightarrow> u64 \<Rightarrow> (u64 \<times> bool) comp" where
  "extractVarint data fieldNum = extractVarint_loop data fieldNum 0"

text \<open>The conversion \<^verbatim>\<open>string(b)\<close> of a byte slice.\<close>

definition string_of_bytes :: "byte list \<Rightarrow> string" where
  "string_of_bytes bs = map (\<lambda>b. char_of (unat b)) bs"

definition extractString :: "byte list \<Rightarrow> u64 \<Rightarrow> (string \<times> bool) comp" where
  "extractString data fieldNum =
     go_bind (extractField data fieldNum) (\<lambda>(b, ok).
       if \<not> ok then ret ([], False) else ret (string_of_bytes b, True))"

subsection \<open>The request and the flow decoder\<close>

definition buildGetFlowsRequest :: "byte list" where
  "buildGetFlowsRequest =
     (let filterBytes = [0x30, 0x02];
          req = [0x38, 0x01, 0x2A, of_nat (length filterBytes)]
      in req @ filterBytes)"

definition verdict_name :: "u64 \<Rightarrow> string" where
  "verdict_name verdict =
     (if verdict = 3 then ''FORWARDED''
      else if verdict = 4 then ''DROPPED''
      else if verdict = 5 then ''AUDIT''
      else ''UNKNOWN'')"

text \<open>The layer-4 branch: port and protocol, left as they are when neither field is there.\<close>

definition decodeL4 :: "byte list \<Rightarrow> Flow \<Rightarrow> Flow comp" where
  "decodeL4 l4Bytes f =
     go_bind (extractField l4Bytes 1) (\<lambda>(tcpBytes, hasTCP).
     go_bind (extractField l4Bytes 2) (\<lambda>(udpBytes, hasUDP).
       if hasTCP then
         go_bind (extractVarint tcpBytes 2) (\<lambda>(port, _).
           ret (f\<lparr>fl_DestPort := ucast port, fl_Protocol := ''TCP''\<rparr>))
       else if hasUDP then
         go_bind (extractVarint udpBytes 2) (\<lambda>(port, _).
           ret (f\<lparr>fl_DestPort := ucast port, fl_Protocol := ''UDP''\<rparr>))
       else ret f))"

text \<open>The DNS branch overrides the name with a non-empty query name.\<close>

definition decodeDNS :: "byte list \<Rightarrow> Flow \<Rightarrow> Flow comp" where
  "decodeDNS dnsBytes f =
     (if length dnsBytes > 0 then
        go_bind (extractString dnsBytes 3) (\<lambda>(name, _).
          ret (if name \<noteq> [] then f\<lparr>fl_DestFQDN := name\<rparr> else f))
      else ret f)"

definition decodeFlow :: "int \<Rightarrow> byte list \<Rightarrow> (Flow \<times> bool) comp" where
  "decodeFlow now data =
     go_bind (extractField data 3) (\<lambda>(srcBytes, _).
     go_bind (extractField data 4) (\<lambda>(dstBytes, _).
     go_bind (extractField data 5) (\<lambda>(l4Bytes, _).
     go_bind (extractVarint data 9) (\<lambda>(verdict, _).
     go_bind (extractField data 12) (\<lambda>(dnsBytes, _).
     go_bind (extractString srcBytes 1) (\<lambda>(ns, _).
     go_bind (extractString srcBytes 3) (\<lambda>(pod, _).
     go_bind (extractString dstBytes 1) (\<lambda>(ip, _).
     go_bind (extractString dstBytes 6) (\<lambda>(fqdn, _).
     go_bind (decodeL4 l4Bytes
       (zero_Flow\<lparr>fl_Timestamp := now, fl_SourceNamespace := ns, fl_SourcePod := pod,
          fl_SourceWorkload := ''Pod/'' @ pod, fl_DestIP := ip,
          fl_DestFQDN := (if fqdn \<noteq> [] then fqdn else [])\<rparr>)) (\<lambda>f.
     go_bind (decodeDNS dnsBytes (f\<lparr>fl_Verdict := verdict_name verdict\<rparr>)) (\<lambda>f.
       ret (f, fl_SourceNamespace f \<noteq> []))))))))))))"

definition decodeGetFlowsResponse :: "int \<Rightarrow> byte list \<Rightarrow> (Flow \<times> bool) comp" where
  "decodeGetFlowsResponse now data =
     go_bind (extractField data 1) (\<lambda>(flowBytes, ok).
       if \<not> ok then ret (zero_Flow, False) else decodeFlow now flowBytes)"

text \<open>
  One received message in the loop of \<^verbatim>\<open>Observe\<close>: undecodable messages and flows of another
  namespace are skipped (\<open>None\<close>), the others are sent on.
\<close>

definition observe_message :: "string \<Rightarrow> int \<Rightarrow> byte list \<Rightarrow> Flow option comp" where
  "observe_message Namespace now data =
     go_bind (decodeGetFlowsResponse now data) (\<lambda>(f, ok).
       if \<not> ok then ret None
       else if Namespace \<noteq> [] \<and> fl_SourceNamespace f \<noteq> Namespace then ret None
       else ret (Some f))"

end
