(* ===== verification/Hubble_Wire.thy ===== *)
theory Hubble_Wire
  imports Hubble_Proto
begin

text \<open>
  The protobuf wire format as a reference encoder, and what the readers of
  \<^verbatim>\<open>hubble_grpc.go\<close> do on encoded messages and on arbitrary bytes: the varint and message
  round trips, termination without panic when no length prefix is huge, and the panic and
  the endless loop that a huge length prefix causes.
\<close>

subsection \<open>The wire format\<close>

text \<open>The base-128 encoding of a number, least significant group first.\<close>

fun uvarint :: "nat \<Rightarrow> byte list" where
  "uvarint n = (if n < 128 then [of_nat n] else of_nat (128 + n mod 128) # uvarint (n div 128))"
declare uvarint.simps [simp del]

text \<open>A message is a list of numbered fields, varints or length-delimited byte strings.\<close>

datatype wire_value = Varint nat | Bytes "byte list"

type_synonym wire_msg = "(nat \<times> wire_value) list"

fun encode_field :: "nat \<times> wire_value \<Rightarrow> byte list" where
  "encode_field (f, Varint v) = uvarint (8 * f) @ uvarint v"
| "encode_field (f, Bytes bs) = uvarint (8 * f + 2) @ uvarint (length bs) @ bs"

definition encode_msg :: "wire_msg \<Rightarrow> byte list" where
  "encode_msg m = concat (map encode_field m)"

fun wf_field :: "nat \<times> wire_value \<Rightarrow> bool" where
  "wf_field (f, Varint v) \<longleftrightarrow> f < 2 ^ 61 \<and> v < 2 ^ 64"
| "wf_field (f, Bytes bs) \<longleftrightarrow> f < 2 ^ 61"

fun bytes_field :: "wire_msg \<Rightarrow> nat \<Rightarrow> byte list \<times> bool" where
  "bytes_field [] n = ([], False)"
| "bytes_field ((f, Varint v) # m) n = (if f = n then ([], False) else bytes_field m n)"
| "bytes_field ((f, Bytes bs) # m) n = (if f = n then (bs, True) else bytes_field m n)"

fun varint_field :: "wire_msg \<Rightarrow> nat \<Rightarrow> u64 \<times> bool" where
  "varint_field [] n = (0, False)"
| "varint_field ((f, Varint v) # m) n = (if f = n then (of_nat v, True) else varint_field m n)"
| "varint_field ((f, Bytes bs) # m) n = varint_field m n"

text \<open>No varint decoded anywhere in \<open>data\<close> can push an index past Go's \<^verbatim>\<open>int\<close>.\<close>

definition small_lengths :: "byte list \<Rightarrow> bool" where
  "small_lengths data \<longleftrightarrow>
     (\<forall>j < length data. uint (fst (decodeVarint (drop j data))) < 2 ^ 63 - int (length data))"

text \<open>A Hubble response as the decoder expects it: source and destination endpoints, an
  optional layer-4 port, the verdict and an optional DNS query name.\<close>

record hubble_flow =
  hf_namespace :: "byte list"
  hf_pod :: "byte list"
  hf_ip :: "byte list"
  hf_name :: "byte list"
  hf_l4 :: "(bool \<times> nat) option"
  hf_verdict :: nat
  hf_query :: "byte list option"

definition l4_fields :: "(bool \<times> nat) option \<Rightarrow> wire_msg" where
  "l4_fields l = (case l of None \<Rightarrow> []
     | Some (tcp, port) \<Rightarrow> [(if tcp then 1 else 2, Bytes (encode_msg [(2, Varint port)]))])"

definition dns_fields :: "byte list option \<Rightarrow> wire_msg" where
  "dns_fields q = (case q of None \<Rightarrow> [] | Some name \<Rightarrow> [(3, Bytes name)])"

definition flow_fields :: "hubble_flow \<Rightarrow> wire_msg" where
  "flow_fields h =
     [(3, Bytes (encode_msg [(1, Bytes (hf_namespace h)), (3, Bytes (hf_pod h))])),
      (4, Bytes (encode_msg [(1, Bytes (hf_ip h)), (6, Bytes (hf_name h))])),
      (5, Bytes (encode_msg (l4_fields (hf_l4 h)))),
      (9, Varint (hf_verdict h)),
      (12, Bytes (encode_msg (dns_fields (hf_query h))))]"

definition encode_response :: "hubble_flow \<Rightarrow> byte list" where
  "encode_response h = encode_msg [(1, Bytes (encode_msg (flow_fields h)))]"

definition wf_hubble_flow :: "hubble_flow \<Rightarrow> bool" where
  "wf_hubble_flow h \<longleftrightarrow> hf_verdict h < 2 ^ 64 \<and> pred_option (\<lambda>(tcp, port). port < 2 ^ 64) (hf_l4 h)
     \<and> length (encode_response h) < 2 ^ 63"

definition flow_of :: "int \<Rightarrow> hubble_flow \<Rightarrow> Flow" where
  "flow_of now h = \<lparr>fl_SourceNamespace = string_of_bytes (hf_namespace h),
     fl_SourcePod = string_of_bytes (hf_pod h),
     fl_SourceWorkload = ''Pod/'' @ string_of_bytes (hf_pod h),
     fl_DestFQDN = (case hf_query h of Some (b # bs) \<Rightarrow> string_of_bytes (b # bs)
        | _ \<Rightarrow> string_of_bytes (hf_name h)),
     fl_DestIP = string_of_bytes (hf_ip h),
     fl_DestPort = (case hf_l4 h of None \<Rightarrow> 0 | Some (tcp, port) \<Rightarrow> of_nat port),
     fl_Protocol = (case hf_l4 h of None \<Rightarrow> [] | Some (tcp, port) \<Rightarrow> if tcp then ''TCP'' else ''UDP''),
     fl_Verdict = verdict_name (of_nat (hf_verdict h)),
     fl_Bytes = 0, fl_Timestamp = now\<rparr>"

subsection \<open>Varints\<close>

lemma uvarint_ne: "uvarint n \<noteq> []"
  by (subst uvarint.simps) simp

lemma unat_numeral_byte: "unat (0x80 :: byte) = 128"
  by simp

lemma split128: "(of_nat n :: u64) = of_nat (n mod 128) OR push_bit 7 (of_nat (n div 128))"
proof -
  have "take_bit 7 n OR push_bit 7 (drop_bit 7 n) = n"
    by (rule bit_eqI) (metis bit_or_iff bit_take_bit_iff bit_push_bit_iff_nat bit_drop_bit_eq comp_apply le_add_diff_inverse not_less)
  then have "n = (n mod 128) OR push_bit 7 (n div 128)"
    by (simp add: take_bit_eq_mod drop_bit_eq_div)
  then show ?thesis
    by (metis of_nat_or_eq push_bit_of_nat)
qed

lemma unat_cont_byte: "unat (of_nat (128 + n mod 128) :: byte) = 128 + n mod 128"
  by (simp only: unat_of_nat) simp

lemma unat_last_byte: "n < 128 \<Longrightarrow> unat (of_nat n :: byte) = n"
  by (simp only: unat_of_nat) simp

lemma low7: "ucast ((of_nat (128 + n mod 128) :: byte) AND 0x7F) = (of_nat (n mod 128) :: u64)"
proof -
  have "unat ((of_nat (128 + n mod 128) :: byte) AND 0x7F) = (128 + n mod 128) AND mask 7"
    by (simp only: unsigned_and_eq unat_cont_byte) (simp add: mask_eq_exp_minus_1)
  also have "\<dots> = n mod 128"
    by (simp add: take_bit_eq_mod flip: take_bit_eq_mask)
  finally show ?thesis
    by (metis of_nat_unat)
qed

lemma hi_byte: "\<not> (of_nat (128 + n mod 128) :: byte) < 0x80"
  by (simp only: word_less_nat_alt unat_cont_byte) simp

lemma lo_byte: "n < 128 \<Longrightarrow> (of_nat n :: byte) < 0x80 \<and> ucast (of_nat n :: byte) = (of_nat n :: u64)"
  by (metis unat_last_byte of_nat_unat word_less_nat_alt unat_numeral_byte)

lemma length_uvarint: "n < 128 ^ k \<Longrightarrow> 0 < k \<Longrightarrow> length (uvarint n) \<le> k"
proof (induction k arbitrary: n)
  case (Suc k)
  show ?case
  proof (cases "n < 128")
    case True then show ?thesis by (subst uvarint.simps) simp
  next
    case False
    with Suc.prems have "n div 128 < 128 ^ k" "0 < k" by (auto simp: less_mult_imp_div_less mult.commute intro: Suc_lessI gr0I)
    with Suc.IH[of "n div 128"] False show ?thesis by (subst uvarint.simps) simp
  qed
qed simp

lemma decodeVarint_loop_uvarint:
  "i + length (uvarint n) \<le> 10 \<Longrightarrow>
   decodeVarint_loop (uvarint n @ rest) i x s = (x OR push_bit s (of_nat n), i + length (uvarint n))"
proof (induction n arbitrary: i x s rule: uvarint.induct)
  case (1 n)
  show ?case
  proof (cases "n < 128")
    case True
    with "1.prems" lo_byte[OF True] show ?thesis by (auto simp: uvarint.simps[of n])
  next
    case False
    let ?x = "x OR push_bit s (of_nat (n mod 128))"
    from False "1.prems" have len: "Suc i + length (uvarint (n div 128)) \<le> 10"
      by (simp add: uvarint.simps[of n])
    from "1.IH"[OF False len] have "decodeVarint_loop (uvarint (n div 128) @ rest) (Suc i) ?x (s + 7)
        = (?x OR push_bit (s + 7) (of_nat (n div 128)), Suc i + length (uvarint (n div 128)))" .
    moreover have "push_bit s (of_nat n :: u64)
       = push_bit s (of_nat (n mod 128)) OR push_bit (s + 7) (of_nat (n div 128))"
      by (subst split128[of n]) (simp add: push_bit_or add.commute)
    ultimately show ?thesis using False len hi_byte[of n]
      by (simp add: uvarint.simps[of n] low7[simplified] or.assoc)
  qed
qed

lemma decodeVarint_uvarint: "n < 2 ^ 64 \<Longrightarrow> decodeVarint (uvarint n @ rest) = (of_nat n, length (uvarint n))"
  using length_uvarint[of n 10] decodeVarint_loop_uvarint[of 0 n rest 0 0] by (simp add: decodeVarint_def)

lemma decodeVarint_loop_snd:
  "snd (decodeVarint_loop bs i x s) = 0 \<or> (i < snd (decodeVarint_loop bs i x s) \<and> snd (decodeVarint_loop bs i x s) \<le> i + length bs)"
  by (induction bs i x s rule: decodeVarint_loop.induct) auto

lemma decodeVarint_le: "snd (decodeVarint bs) \<le> length bs"
  using decodeVarint_loop_snd[of bs 0 0 0] by (auto simp: decodeVarint_def)

subsection \<open>Field headers and one iteration of the extractors\<close>

lemma tag_decode:
  assumes "f < 2 ^ 61" "w < 8"
  shows "(of_nat (8 * f + w) :: u64) AND 7 = of_nat w" and "drop_bit 3 (of_nat (8 * f + w) :: u64) = of_nat f"
proof -
  have b: "8 * f + w < 2 ^ 64" using assms by simp
  have "unat ((of_nat (8 * f + w) :: u64) AND 7) = (8 * f + w) AND mask 3"
    using b by (simp only: unsigned_and_eq unat_of_nat_small) (simp add: mask_eq_exp_minus_1)
  also have "\<dots> = w" using assms by (simp add: take_bit_eq_mod flip: take_bit_eq_mask)
  finally show "(of_nat (8 * f + w) :: u64) AND 7 = of_nat w" 
     by (metis of_nat_unat ucast_id)
  have "unat (drop_bit 3 (of_nat (8 * f + w) :: u64)) = drop_bit 3 (8 * f + w)"
    using b by (simp only: unat_drop_bit_eq unat_of_nat_small)
  also have "\<dots> = f" using assms by (simp add: drop_bit_eq_div)
  finally show "drop_bit 3 (of_nat (8 * f + w) :: u64) = of_nat f"
    by (metis of_nat_unat ucast_id)
qed

lemma uvarint_pos [simp]: "uvarint n \<noteq> []" "0 < length (uvarint n)"
  using uvarint_ne by auto

lemma extractField_loop_varint_step:
  assumes "decodeVarint (drop p data) = (tag, n1)" "n1 \<noteq> 0" "tag AND 7 = 0"
    and "decodeVarint (drop (p + n1) data) = (v, n2)" "n2 \<noteq> 0" "p < length data"
  shows "extractField_loop data fnum (int p) =
    (if drop_bit 3 tag = fnum then ret ([], False) else extractField_loop data fnum (int (p + n1 + n2)))"
  using assms by (subst extractField_loop.simps) (simp add: Let_def nat_int_add)

lemma extractVarint_loop_varint_step:
  assumes "decodeVarint (drop p data) = (tag, n1)" "n1 \<noteq> 0" "tag AND 7 = 0"
    and "decodeVarint (drop (p + n1) data) = (v, n2)" "n2 \<noteq> 0" "p < length data"
  shows "extractVarint_loop data fnum (int p) =
    (if drop_bit 3 tag = fnum then ret (v, True) else extractVarint_loop data fnum (int (p + n1 + n2)))"
  using assms by (subst extractVarint_loop.simps) (simp add: Let_def nat_int_add)

lemma extractField_loop_bytes_step:
  assumes "decodeVarint (drop p data) = (tag, n1)" "n1 \<noteq> 0" "tag AND 7 = 2"
    and "decodeVarint (drop (p + n1) data) = (len, n2)" "n2 \<noteq> 0" "p < length data"
    and "sint len = int l" "p + n1 + n2 + l \<le> length data" "length data < 2 ^ 63"
  shows "extractField_loop data fnum (int p) =
    (if drop_bit 3 tag = fnum then ret (take l (drop (p + n1 + n2) data), True)
     else extractField_loop data fnum (int (p + n1 + n2 + l)))"
proof -
  have w: "wrap64 (int p + int n1 + int n2 + sint len) = int (p + n1 + n2 + l)"
    using wrap64_int[of "p + n1 + n2 + l"] assms(7-9) by simp
  have i: "nat (int p + int n1) = p + n1" "nat (int p + int n1 + int n2) = p + n1 + n2"
    "nat (int (p + n1 + n2 + l) - (int p + int n1 + int n2)) = l"
    by simp_all
  from assms(1-6,8) show ?thesis 
    by (subst extractField_loop.simps) (simp add: Let_def w i del: nat_int_add of_nat_add) 
qed

lemma extractVarint_loop_bytes_step:
  assumes "decodeVarint (drop p data) = (tag, n1)" "n1 \<noteq> 0" "tag AND 7 = 2"
    and "decodeVarint (drop (p + n1) data) = (len, n2)" "n2 \<noteq> 0" "p < length data"
    and "sint len = int l" "p + n1 + n2 + l \<le> length data" "length data < 2 ^ 63"
  shows "extractVarint_loop data fnum (int p) = extractVarint_loop data fnum (int (p + n1 + n2 + l))"
proof -
  have w: "wrap64 (int p + int n1 + int n2 + sint len) = int (p + n1 + n2 + l)"
    using wrap64_int[of "p + n1 + n2 + l"] assms(7-9) by simp
  from assms(1-6) show ?thesis
    by (subst extractVarint_loop.simps) (simp add: Let_def w nat_int_add)
qed

lemma encode_field_drop:
  "drop (length pre) (pre @ encode_field (f, Varint v) @ rest) = uvarint (8 * f) @ uvarint v @ rest"
  "drop (length pre + length (uvarint (8 * f))) (pre @ encode_field (f, Varint v) @ rest) = uvarint v @ rest"
  "drop (length pre) (pre @ encode_field (f, Bytes bs) @ rest) =
     uvarint (8 * f + 2) @ uvarint (length bs) @ bs @ rest"
  "drop (length pre + length (uvarint (8 * f + 2))) (pre @ encode_field (f, Bytes bs) @ rest) =
     uvarint (length bs) @ bs @ rest"
  "drop (length pre + length (uvarint (8 * f + 2)) + length (uvarint (length bs)))
     (pre @ encode_field (f, Bytes bs) @ rest) = bs @ rest"
  by simp_all

lemma varint_field_header:
  assumes "f < 2 ^ 61" "v < 2 ^ 64"
  shows "decodeVarint (drop (length pre) (pre @ encode_field (f, Varint v) @ rest))
      = (of_nat (8 * f), length (uvarint (8 * f)))"
    and "decodeVarint (drop (length pre + length (uvarint (8 * f))) (pre @ encode_field (f, Varint v) @ rest))
      = (of_nat v, length (uvarint v))"
    and "(of_nat (8 * f) :: u64) AND 7 = 0" and "drop_bit 3 (of_nat (8 * f) :: u64) = of_nat f"
proof -
  have "8 * f < 2 ^ 64" "v < 2 ^ 64" using assms by simp_all
  then show "decodeVarint (drop (length pre) (pre @ encode_field (f, Varint v) @ rest))
      = (of_nat (8 * f), length (uvarint (8 * f)))"
    and "decodeVarint (drop (length pre + length (uvarint (8 * f))) (pre @ encode_field (f, Varint v) @ rest))
      = (of_nat v, length (uvarint v))"
    by (simp_all only: encode_field_drop decodeVarint_uvarint)
  show "(of_nat (8 * f) :: u64) AND 7 = 0" and "drop_bit 3 (of_nat (8 * f) :: u64) = of_nat f"
    using tag_decode[OF assms(1), of 0] by simp_all
qed

lemma bytes_field_header:
  assumes "f < 2 ^ 61" "length bs < 2 ^ 63"
  shows "decodeVarint (drop (length pre) (pre @ encode_field (f, Bytes bs) @ rest))
      = (of_nat (8 * f + 2), length (uvarint (8 * f + 2)))"
    and "decodeVarint (drop (length pre + length (uvarint (8 * f + 2))) (pre @ encode_field (f, Bytes bs) @ rest))
      = (of_nat (length bs), length (uvarint (length bs)))"
    and "(of_nat (8 * f + 2) :: u64) AND 7 = 2" and "drop_bit 3 (of_nat (8 * f + 2) :: u64) = of_nat f"
    and "sint (of_nat (length bs) :: u64) = int (length bs)"
proof -
  have "8 * f + 2 < 2 ^ 64" "length bs < 2 ^ 64" using assms by simp_all
  then show "decodeVarint (drop (length pre) (pre @ encode_field (f, Bytes bs) @ rest))
      = (of_nat (8 * f + 2), length (uvarint (8 * f + 2)))"
    and "decodeVarint (drop (length pre + length (uvarint (8 * f + 2))) (pre @ encode_field (f, Bytes bs) @ rest))
      = (of_nat (length bs), length (uvarint (length bs)))"
    by (simp_all only: encode_field_drop decodeVarint_uvarint)
  show "(of_nat (8 * f + 2) :: u64) AND 7 = 2" and "drop_bit 3 (of_nat (8 * f + 2) :: u64) = of_nat f"
    using tag_decode[OF assms(1), of 2] by simp_all
  show "sint (of_nat (length bs) :: u64) = int (length bs)"
    using assms(2) by (rule sint_of_nat_small)
qed

lemma wire_num_eq: "f < 2 ^ 61 \<Longrightarrow> n < 2 ^ 64 \<Longrightarrow> (of_nat f :: u64) = of_nat n \<longleftrightarrow> f = n"
  by (rule of_nat_eq_u64) simp_all

lemma length_varint_field:
  "length (pre @ encode_field (f, Varint v)) = length pre + length (uvarint (8 * f)) + length (uvarint v)"
  by simp

lemma length_bytes_field:
  "length (pre @ encode_field (f, Bytes bs)) =
     length pre + length (uvarint (8 * f + 2)) + length (uvarint (length bs)) + length bs"
  by simp

lemma extractField_loop_varint:
  assumes wf: "f < 2 ^ 61" "v < 2 ^ 64" and n: "n < 2 ^ 64"
  shows "extractField_loop (pre @ encode_field (f, Varint v) @ rest) (of_nat n) (int (length pre)) =
    (if f = n then ret ([], False)
     else extractField_loop (pre @ encode_field (f, Varint v) @ rest) (of_nat n)
            (int (length (pre @ encode_field (f, Varint v)))))"
  unfolding length_varint_field wire_num_eq[OF wf(1) n, symmetric]
    varint_field_header(4)[OF wf, symmetric]
  by (rule extractField_loop_varint_step[OF varint_field_header(1)[OF wf] _
        varint_field_header(3)[OF wf] varint_field_header(2)[OF wf]]) simp_all

lemma extractVarint_loop_varint:
  assumes wf: "f < 2 ^ 61" "v < 2 ^ 64" and n: "n < 2 ^ 64"
  shows "extractVarint_loop (pre @ encode_field (f, Varint v) @ rest) (of_nat n) (int (length pre)) =
    (if f = n then ret (of_nat v, True)
     else extractVarint_loop (pre @ encode_field (f, Varint v) @ rest) (of_nat n)
            (int (length (pre @ encode_field (f, Varint v)))))"
  unfolding length_varint_field wire_num_eq[OF wf(1) n, symmetric]
    varint_field_header(4)[OF wf, symmetric]
  by (rule extractVarint_loop_varint_step[OF varint_field_header(1)[OF wf] _
        varint_field_header(3)[OF wf] varint_field_header(2)[OF wf]]) simp_all

lemma extractField_loop_bytes:
  assumes f: "f < 2 ^ 61" and n: "n < 2 ^ 64"
    and len: "length (pre @ encode_field (f, Bytes bs) @ rest) < 2 ^ 63"
  shows "extractField_loop (pre @ encode_field (f, Bytes bs) @ rest) (of_nat n) (int (length pre)) =
    (if f = n then ret (bs, True)
     else extractField_loop (pre @ encode_field (f, Bytes bs) @ rest) (of_nat n)
            (int (length (pre @ encode_field (f, Bytes bs)))))"
proof -
  have wf: "f < 2 ^ 61" "length bs < 2 ^ 63" using f len by simp_all
  have t: "take (length bs) (drop (length pre + length (uvarint (8 * f + 2)) + length (uvarint (length bs)))
      (pre @ encode_field (f, Bytes bs) @ rest)) = bs"
    by (simp only: encode_field_drop) simp
  show ?thesis
    unfolding length_bytes_field wire_num_eq[OF f n, symmetric]
      bytes_field_header(4)[OF wf, symmetric]
    by (subst extractField_loop_bytes_step[OF bytes_field_header(1)[OF wf] _
        bytes_field_header(3)[OF wf] bytes_field_header(2)[OF wf] _ _ bytes_field_header(5)[OF wf] _ len])
      (simp_all only: t, simp_all)
qed

lemma extractVarint_loop_bytes:
  assumes f: "f < 2 ^ 61" and len: "length (pre @ encode_field (f, Bytes bs) @ rest) < 2 ^ 63"
  shows "extractVarint_loop (pre @ encode_field (f, Bytes bs) @ rest) n (int (length pre)) =
     extractVarint_loop (pre @ encode_field (f, Bytes bs) @ rest) n
            (int (length (pre @ encode_field (f, Bytes bs))))"
proof -
  have wf: "f < 2 ^ 61" "length bs < 2 ^ 63" using f len by simp_all
  show ?thesis
    unfolding length_bytes_field
    by (rule extractVarint_loop_bytes_step[OF bytes_field_header(1)[OF wf] _
        bytes_field_header(3)[OF wf] bytes_field_header(2)[OF wf] _ _ bytes_field_header(5)[OF wf] _ len]) simp_all
qed

lemma encode_msg_simps [simp]:
  "encode_msg [] = []" "encode_msg (x # m) = encode_field x @ encode_msg m"
  by (simp_all add: encode_msg_def)

declare encode_field.simps [simp del]

lemma extractField_loop_msg:
  assumes "list_all wf_field m" "n < 2 ^ 64" "length (pre @ encode_msg m) < 2 ^ 63"
  shows "extractField_loop (pre @ encode_msg m) (of_nat n) (int (length pre)) = ret (bytes_field m n)"
  using assms
proof (induction m n arbitrary: pre rule: bytes_field.induct)
  case (1 n)
  show ?case by (subst extractField_loop.simps) simp
next
  case (2 f v m n)
  from 2 have "f \<noteq> n \<Longrightarrow> extractField_loop ((pre @ encode_field (f, Varint v)) @ encode_msg m) (of_nat n)
      (int (length (pre @ encode_field (f, Varint v)))) = ret (bytes_field m n)"
    by (intro "2.IH") simp_all
  with 2 show ?case using extractField_loop_varint[of f v n pre "encode_msg m"] by simp
next
  case (3 f bs m n)
  from 3 have "f \<noteq> n \<Longrightarrow> extractField_loop ((pre @ encode_field (f, Bytes bs)) @ encode_msg m) (of_nat n)
      (int (length (pre @ encode_field (f, Bytes bs)))) = ret (bytes_field m n)"
    by (intro "3.IH") simp_all
  with 3 show ?case using extractField_loop_bytes[of f n pre bs "encode_msg m"] by simp
qed

lemma extractVarint_loop_msg:
  assumes "list_all wf_field m" "n < 2 ^ 64" "length (pre @ encode_msg m) < 2 ^ 63"
  shows "extractVarint_loop (pre @ encode_msg m) (of_nat n) (int (length pre)) = ret (varint_field m n)"
  using assms
proof (induction m n arbitrary: pre rule: varint_field.induct)
  case (1 n)
  show ?case by (subst extractVarint_loop.simps) simp
next
  case (2 f v m n)
  from 2 have "f \<noteq> n \<Longrightarrow> extractVarint_loop ((pre @ encode_field (f, Varint v)) @ encode_msg m) (of_nat n)
      (int (length (pre @ encode_field (f, Varint v)))) = ret (varint_field m n)"
    by (intro "2.IH") simp_all
  with 2 show ?case using extractVarint_loop_varint[of f v n pre "encode_msg m"] by simp
next
  case (3 f bs m n)
  from 3 have "extractVarint_loop ((pre @ encode_field (f, Bytes bs)) @ encode_msg m) (of_nat n)
      (int (length (pre @ encode_field (f, Bytes bs)))) = ret (varint_field m n)"
    by (intro "3.IH") simp_all
  with 3 show ?case using extractVarint_loop_bytes[of f pre bs "encode_msg m" "of_nat n"] by simp
qed

subsection \<open>Arbitrary bytes\<close>

lemma decodeVarint_drop_le: "i + snd (decodeVarint (drop i data)) \<le> length data \<or> snd (decodeVarint (drop i data)) = 0"
  using decodeVarint_le[of "drop i data"] by (cases "i \<le> length data") auto

lemma decodeVarint_Nil [simp]: "decodeVarint [] = (0, 0)"
  by (simp add: decodeVarint_def)

lemma small_length_sum:
  assumes "small_lengths data" "0 \<le> i" "snd (decodeVarint (drop (nat i) data)) \<noteq> 0" 
  defines "v \<equiv> fst (decodeVarint (drop (nat i) data))" and "n \<equiv> snd (decodeVarint (drop (nat i) data))"
  shows "wrap64 (i + int n + sint v) = i + int n + uint v"
proof -
  have i: "nat i < length data"
    using assms(3) by (rule contrapos_np) simp
  have n: "i + int n \<le> int (length data)"
    using decodeVarint_drop_le[of "nat i" data] assms(2,3) unfolding n_def by linarith
  have v: "uint v < 2 ^ 63 - int (length data)"
    using assms(1) i unfolding small_lengths_def v_def by blast
  then have "uint v < 2 ^ 63" by linarith
  then have s: "sint v = uint v"
    by (subst sint_uint) (simp add: signed_take_bit_int_eq_self order_trans[OF _ uint_ge_0])
  have "0 \<le> i + int n + uint v" "i + int n + uint v < 2 ^ 63"
    using n v assms(2) uint_ge_0[of v] by linarith+
  then show ?thesis unfolding s by (intro wrap64_id) simp_all
qed

lemma small_index_step:
  assumes "0 \<le> i" "n1 = snd (decodeVarint (drop (nat i) data))" "n1 \<noteq> 0"
  shows "i < i + int n1" "i + int n1 \<le> int (length data)"
  using assms decodeVarint_drop_le[of "nat i" data] by linarith+

lemma extractField_loop_returns:
  assumes "small_lengths data" "0 \<le> i"
  shows "\<exists>r. extractField_loop data fnum i = ret r"
  using assms(2)
proof (induction "nat (int (length data) - i)" arbitrary: i rule: less_induct)
  case less
  obtain tag n1 where d1: "decodeVarint (drop (nat i) data) = (tag, n1)" by force
  obtain v n2 where d2: "decodeVarint (drop (nat (i + int n1)) data) = (v, n2)" by force
  show ?case
  proof (cases "i < int (length data) \<and> n1 \<noteq> 0 \<and> n2 \<noteq> 0")
    case True
    have a: "i < i + int n1" "i + int n1 \<le> int (length data)"
      using small_index_step[OF less.prems, of n1 data] True d1 by auto
    let ?i2 = "i + int n1 + int n2" and ?stop = "i + int n1 + int n2 + uint v"
    have e: "wrap64 (?i2 + sint v) = ?stop"
      using small_length_sum[OF assms(1), of "i + int n1"] True less.prems d2 by simp
    have g: "i < ?i2" "0 \<le> ?i2" "i < ?stop" "0 \<le> ?stop" "\<not> ?stop < ?i2"
      using a True less.prems uint_ge_0[of v] by linarith+
    have "\<exists>r. extractField_loop data fnum ?i2 = ret r" "\<exists>r. extractField_loop data fnum ?stop = ret r"
      using g True by (intro less.hyps; linarith)+
    then show ?thesis
      using True less.prems g(5) by (subst extractField_loop.simps) (auto simp: Let_def d1 d2 e)
  next
    case False
    then show ?thesis using less.prems
      by (subst extractField_loop.simps) (auto simp: Let_def d1 d2)
  qed
qed

lemma extractVarint_loop_returns:
  assumes "small_lengths data" "0 \<le> i"
  shows "\<exists>r. extractVarint_loop data fnum i = ret r"
  using assms(2)
proof (induction "nat (int (length data) - i)" arbitrary: i rule: less_induct)
  case less
  obtain tag n1 where d1: "decodeVarint (drop (nat i) data) = (tag, n1)" by force
  obtain v n2 where d2: "decodeVarint (drop (nat (i + int n1)) data) = (v, n2)" by force
  show ?case
  proof (cases "i < int (length data) \<and> n1 \<noteq> 0 \<and> n2 \<noteq> 0")
    case True
    have a: "i < i + int n1" "i + int n1 \<le> int (length data)"
      using small_index_step[OF less.prems, of n1 data] True d1 by auto
    let ?i2 = "i + int n1 + int n2" and ?stop = "i + int n1 + int n2 + uint v"
    have e: "wrap64 (?i2 + sint v) = ?stop"
      using small_length_sum[OF assms(1), of "i + int n1"] True less.prems d2 by simp
    have g: "i < ?i2" "0 \<le> ?i2" "i < ?stop" "0 \<le> ?stop" "\<not> ?stop < ?i2"
      using a True less.prems uint_ge_0[of v] by linarith+
    have "\<exists>r. extractVarint_loop data fnum ?i2 = ret r" "\<exists>r. extractVarint_loop data fnum ?stop = ret r"
      using g True by (intro less.hyps; linarith)+
    then show ?thesis
      using True less.prems g(5) by (subst extractVarint_loop.simps) (auto simp: Let_def d1 d2 e)
  next
    case False
    then show ?thesis using less.prems
      by (subst extractVarint_loop.simps) (auto simp: Let_def d1 d2)
  qed
qed

lemma extractField_loop_sublist:
  assumes "extractField_loop data fnum i = Some (Returns (b, ok))"
  shows "sublist b data"
proof -
  have "(\<lambda>data fnum i r. case r of Panics \<Rightarrow> True | Returns (b, ok) \<Rightarrow> sublist b data) data fnum i (Returns (b, ok))"
  proof (rule extractField_loop.raw_induct [OF _ assms])
    fix f :: "byte list \<Rightarrow> u64 \<Rightarrow> int \<Rightarrow> (byte list \<times> bool) comp" and data fnum i r
    assume IH: "\<And>data fnum i r. f data fnum i = Some r \<Longrightarrow> (case r of Returns (b, ok) \<Rightarrow> sublist b data | Panics \<Rightarrow> True)"
    obtain tag n1 where d1: "decodeVarint (drop (nat i) data) = (tag, n1)" by force
    obtain v n2 where d2: "decodeVarint (drop (nat (i + int n1)) data) = (v, n2)" by force
    show "(if i < int (length data) then
        if i < 0 then Some Panics
        else
          let tagn = decodeVarint (drop (nat i) data); tag = fst tagn; n = snd tagn in
          if n = 0 then ret ([], False)
          else
            let i1 = i + int n; wireType = tag AND 0x7; fn = drop_bit 3 tag in
            if wireType = 0 then
              let n2 = snd (decodeVarint (drop (nat i1) data)) in
              if n2 = 0 then ret ([], False)
              else if fn = fnum then ret ([], False)
              else f data fnum (i1 + int n2)
            else if wireType = 2 then
              let ln = decodeVarint (drop (nat i1) data); len = fst ln; n2 = snd ln in
              if n2 = 0 then ret ([], False)
              else
                let i2 = i1 + int n2; end = wrap64 (i2 + sint len) in
                if end > int (length data) then ret ([], False)
                else if fn = fnum then
                  if end < i2 then Some Panics
                  else ret (take (nat (end - i2)) (drop (nat i2) data), True)
                else f data fnum end
            else ret ([], False)
      else ret ([], False)) = Some r \<Longrightarrow> (case r of Returns (b, ok) \<Rightarrow> sublist b data | Panics \<Rightarrow> True)"
      by (auto simp: Let_def d1 d2 split: if_splits dest: IH
        intro: sublist_order.order.trans[OF sublist_take sublist_drop])
  qed
  then show ?thesis by simp
qed

lemma length_uvarint_gt: "128 ^ k \<le> n \<Longrightarrow> k < length (uvarint n)"
proof (induction k arbitrary: n)
  case (Suc k)
  then have "128 ^ k \<le> n div 128" "\<not> n < 128"
    using one_le_power[of "128::nat" k] order_trans[of "128 * 1" "128 * 128 ^ k" n, OF mult_le_mono2]
    by (auto simp: less_eq_div_iff_mult_less_eq mult.commute not_less)
  with Suc.IH[of "n div 128"] show ?case by (simp add: uvarint.simps[of n])
qed simp

lemma length_uvarint_10: "2 ^ 63 \<le> v \<Longrightarrow> v < 2 ^ 64 \<Longrightarrow> length (uvarint v) = 10"
  using length_uvarint[of v 10] length_uvarint_gt[of 9 v] by simp

lemma neg_length_header:
  assumes f: "f < 2 ^ 61" and v: "2 ^ 63 \<le> v" "v < 2 ^ 64"
    and data: "data = uvarint (8 * f + 2) @ uvarint v @ rest" and k: "k = length (uvarint (8 * f + 2))"
  obtains tag len where "decodeVarint data = (tag, k)" "decodeVarint (drop k data) = (len, 10)"
    and "tag AND 7 = 2" "drop_bit 3 tag = of_nat f"
    and "wrap64 (int k + 10 + sint len) = int k + 10 + (int v - 2 ^ 64)"
    and "0 < k" "k + 10 \<le> length data"
proof
  have b: "8 * f + 2 < 2 ^ 64" using f by simp
  show "decodeVarint data = (of_nat (8 * f + 2), k)"
    unfolding data k by (rule decodeVarint_uvarint[OF b])
  show "decodeVarint (drop k data) = (of_nat v, 10)"
    unfolding data k using decodeVarint_uvarint[OF v(2)] length_uvarint_10[OF v] by simp
  show "(of_nat (8 * f + 2) :: u64) AND 7 = 2" "drop_bit 3 (of_nat (8 * f + 2) :: u64) = of_nat f"
    using tag_decode[OF f, of 2] by simp_all
  have "k \<le> 10"
    using length_uvarint[of "8 * f + 2" 10] b unfolding k by simp
  then show "wrap64 (int k + 10 + sint (of_nat v :: u64)) = int k + 10 + (int v - 2 ^ 64)"
    unfolding sint_of_nat_neg[OF v] using v by (intro wrap64_id) simp_all
  show "0 < k" "k + 10 \<le> length data"
    by (simp_all add: k data length_uvarint_10[OF v])
qed

lemma negative_length_panics:
  assumes f: "f < 2 ^ 61" and v: "2 ^ 63 \<le> v" "v < 2 ^ 64"
  shows "extractField (uvarint (8 * f + 2) @ uvarint v @ rest) (of_nat f) = Some Panics"
proof -
  define data where "data = uvarint (8 * f + 2) @ uvarint v @ rest"
  define k where "k = length (uvarint (8 * f + 2))"
  obtain tag len where h: "decodeVarint data = (tag, k)" "decodeVarint (drop k data) = (len, 10)"
      "tag AND 7 = 2" "drop_bit 3 tag = of_nat f"
      "wrap64 (int k + 10 + sint len) = int k + 10 + (int v - 2 ^ 64)"
    and k: "0 < k" "k + 10 \<le> length data"
    by (rule neg_length_header[OF f v data_def k_def])
  have "int v < 2 ^ 64" using v(2) by simp
  then have "int k + 10 + (int v - 2 ^ 64) < int k + 10" "\<not> int (length data) < int k + 10 + (int v - 2 ^ 64)"
    using k by linarith+
  then show ?thesis
    unfolding data_def[symmetric] extractField_def using k
    by (subst extractField_loop.simps) (auto simp: Let_def h)
qed

lemma self_length_diverges:
  assumes f: "f < 2 ^ 61" and n: "n < 2 ^ 64" "n \<noteq> f"
    and v: "v = 2 ^ 64 - (length (uvarint (8 * f + 2)) + 10)"
  shows "extractField (uvarint (8 * f + 2) @ uvarint v @ rest) (of_nat n) = None"
proof -
  define data where "data = uvarint (8 * f + 2) @ uvarint v @ rest"
  define k where "k = length (uvarint (8 * f + 2))"
  have "0 < k" "k \<le> 10" using length_uvarint[of "8 * f + 2" 10] f by (simp_all add: k_def)
  then have v': "2 ^ 63 \<le> v" "v < 2 ^ 64" "int k + 10 + (int v - 2 ^ 64) = 0"
    unfolding v k_def[symmetric] by simp_all
  obtain tag len where h: "decodeVarint data = (tag, k)" "decodeVarint (drop k data) = (len, 10)"
      "tag AND 7 = 2" "drop_bit 3 tag = of_nat f"
      "wrap64 (int k + 10 + sint len) = 0"
    and k: "0 < k" "k + 10 \<le> length data"
    by (rule neg_length_header[OF f v'(1,2) data_def k_def, unfolded v'(3)])
  have fn: "(of_nat f :: u64) \<noteq> of_nat n" using wire_num_eq[OF f n(1)] n(2) by blast
  have len: "data \<noteq> []" using k by auto
  have "\<not> (d = data \<and> m = of_nat n \<and> i = 0)" if "extractField_loop d m i = Some r" for d m i r
    using that
  proof (rule extractField_loop.raw_induct [rotated], goal_cases)
    case (1 f d m i r)
    show ?case
    proof
      assume "d = data \<and> m = of_nat n \<and> i = 0"
      with "1"(2) have "f data (of_nat n) 0 = Some r"
        using len k h fn by (simp add: Let_def)
      with "1"(1) show False by blast
    qed
  qed
  then show ?thesis unfolding extractField_def data_def[symmetric] by (metis not_None_eq)
qed

subsection \<open>Whole responses\<close>

lemma extractField_msg:
  assumes "list_all wf_field m" "length (encode_msg m) < 2 ^ 63" "n < 2 ^ 64"
  shows "extractField (encode_msg m) (of_nat n) = ret (bytes_field m n)"
  using extractField_loop_msg[of m n "[]"] assms by (simp add: extractField_def)

lemma extractVarint_msg:
  assumes "list_all wf_field m" "length (encode_msg m) < 2 ^ 63" "n < 2 ^ 64"
  shows "extractVarint (encode_msg m) (of_nat n) = ret (varint_field m n)"
  using extractVarint_loop_msg[of m n "[]"] assms by (simp add: extractVarint_def)

lemma extractField_num:
  assumes "list_all wf_field m" "length (encode_msg m) < 2 ^ 63"
  shows "extractField (encode_msg m) 1 = ret (bytes_field m 1)"
    and "extractField (encode_msg m) 2 = ret (bytes_field m 2)"
    and "extractField (encode_msg m) 3 = ret (bytes_field m 3)"
    and "extractField (encode_msg m) 4 = ret (bytes_field m 4)"
    and "extractField (encode_msg m) 5 = ret (bytes_field m 5)"
    and "extractField (encode_msg m) 12 = ret (bytes_field m 12)"
    and "extractVarint (encode_msg m) 2 = ret (varint_field m 2)"
    and "extractVarint (encode_msg m) 9 = ret (varint_field m 9)"
  using extractField_msg[OF assms, of 1] extractField_msg[OF assms, of 2]
    extractField_msg[OF assms, of 3] extractField_msg[OF assms, of 4]
    extractField_msg[OF assms, of 5] extractField_msg[OF assms, of 12]
    extractVarint_msg[OF assms, of 2] extractVarint_msg[OF assms, of 9]
  by simp_all

lemma extractString_msg:
  assumes "list_all wf_field m" "length (encode_msg m) < 2 ^ 63" "n < 2 ^ 64"
  shows "extractString (encode_msg m) (of_nat n) =
    ret (string_of_bytes (fst (bytes_field m n)), snd (bytes_field m n))"
proof -
  have "snd (bytes_field m n) \<or> fst (bytes_field m n) = []"
    by (induction m n rule: bytes_field.induct) auto
  then show ?thesis
    unfolding extractString_def
    by (cases "bytes_field m n") (auto simp: extractField_msg[OF assms] string_of_bytes_def)
qed

lemma extractString_num:
  assumes "list_all wf_field m" "length (encode_msg m) < 2 ^ 63"
  shows "extractString (encode_msg m) 1 = ret (string_of_bytes (fst (bytes_field m 1)), snd (bytes_field m 1))"
    and "extractString (encode_msg m) 3 = ret (string_of_bytes (fst (bytes_field m 3)), snd (bytes_field m 3))"
    and "extractString (encode_msg m) 6 = ret (string_of_bytes (fst (bytes_field m 6)), snd (bytes_field m 6))"
  using extractString_msg[OF assms, of 1] extractString_msg[OF assms, of 3] extractString_msg[OF assms, of 6]
  by simp_all

lemma length_encode_bytes: "length bs \<le> length (encode_field (f, Bytes bs))"
  by (simp add: encode_field.simps)

lemma length_encode_msg_field:
  "(f, Bytes bs) \<in> set m \<Longrightarrow> length (encode_msg m) < 2 ^ 63 \<Longrightarrow> length bs < 2 ^ 63"
proof (induction m)
  case (Cons x m)
  then show ?case using length_encode_bytes[of bs f] by (cases "x = (f, Bytes bs)") auto
qed simp

lemma decodeL4_encoded:
  assumes "pred_option (\<lambda>(tcp, port). port < 2 ^ 64) l" "length (encode_msg (l4_fields l)) < 2 ^ 63"
  shows "decodeL4 (encode_msg (l4_fields l)) f = ret (case l of None \<Rightarrow> f
     | Some (tcp, port) \<Rightarrow> f\<lparr>fl_DestPort := of_nat port, fl_Protocol := (if tcp then ''TCP'' else ''UDP'')\<rparr>)"
proof -
  have wf: "list_all wf_field (l4_fields l)" by (simp add: l4_fields_def split: option.split prod.split)
  have "extractVarint (encode_msg [(2, Varint port)]) 2 = ret (of_nat port, True)"
    if "l = Some (tcp, port)" for tcp port
  proof -
    have "length (encode_msg [(2, Varint port)]) < 2 ^ 63"
      using that assms(2) length_encode_msg_field[of _ _ "l4_fields l"] by (auto simp: l4_fields_def)
    then show ?thesis using assms(1) that by (subst extractField_num) simp_all
  qed
  then show ?thesis
    unfolding decodeL4_def extractField_num(1,2)[OF wf assms(2)]
    by (cases l) (auto simp: l4_fields_def ucast_of_nat_u32 simp del: encode_msg_simps)
qed

lemma decodeDNS_encoded:
  assumes "length (encode_msg (dns_fields q)) < 2 ^ 63"
  shows "decodeDNS (encode_msg (dns_fields q)) f = ret (case q of
     Some (b # bs) \<Rightarrow> f\<lparr>fl_DestFQDN := string_of_bytes (b # bs)\<rparr> | _ \<Rightarrow> f)"
proof -
  have wf: "list_all wf_field (dns_fields q)" by (simp add: dns_fields_def split: option.split)
  show ?thesis
    unfolding decodeDNS_def extractString_num[OF wf assms]
    by (auto simp: dns_fields_def string_of_bytes_def encode_field.simps split: option.split list.split)
qed

lemma decodeGetFlowsResponse_encoded:
  assumes "wf_hubble_flow h"
  shows "decodeGetFlowsResponse now (encode_response h) = ret (flow_of now h, hf_namespace h \<noteq> [])"
proof -
  let ?top = "[(1, Bytes (encode_msg (flow_fields h)))]" and ?m = "flow_fields h"
  let ?src = "[(1, Bytes (hf_namespace h)), (3, Bytes (hf_pod h))]"
  let ?dst = "[(1, Bytes (hf_ip h)), (6, Bytes (hf_name h))]"
  have top: "list_all wf_field ?top" "length (encode_msg ?top) < 2 ^ 63"
    using assms by (simp_all add: wf_hubble_flow_def encode_response_def)
  have m: "list_all wf_field ?m" "length (encode_msg ?m) < 2 ^ 63"
    using assms length_encode_msg_field[OF _ top(2)] by (simp_all add: wf_hubble_flow_def flow_fields_def)
  have sub: "length (encode_msg ?src) < 2 ^ 63" "length (encode_msg ?dst) < 2 ^ 63"
    "length (encode_msg (l4_fields (hf_l4 h))) < 2 ^ 63" "length (encode_msg (dns_fields (hf_query h))) < 2 ^ 63"
    using length_encode_msg_field[OF _ m(2)] unfolding flow_fields_def by (meson list.set_intros)+
  have wfs: "list_all wf_field ?src" "list_all wf_field ?dst" by simp_all
  have fields: "bytes_field ?m 3 = (encode_msg ?src, True)" "bytes_field ?m 4 = (encode_msg ?dst, True)"
    "bytes_field ?m 5 = (encode_msg (l4_fields (hf_l4 h)), True)" "varint_field ?m 9 = (of_nat (hf_verdict h), True)"
    "bytes_field ?m 12 = (encode_msg (dns_fields (hf_query h)), True)"
    by (simp_all add: flow_fields_def del: encode_msg_simps)
  have l4: "pred_option (\<lambda>(tcp, port). port < 2 ^ 64) (hf_l4 h)" using assms by (simp add: wf_hubble_flow_def)
  have "decodeFlow now (encode_msg ?m) = ret (flow_of now h, hf_namespace h \<noteq> [])"
    unfolding decodeFlow_def extractField_num[OF m] fields go_bind.simps prod.case
      extractString_num[OF wfs(1) sub(1)] extractString_num[OF wfs(2) sub(2)]
      decodeL4_encoded[OF l4 sub(3)] decodeDNS_encoded[OF sub(4)]
    by (auto simp: flow_of_def zero_Flow_def string_of_bytes_def split: option.split list.split)
  then show ?thesis
    unfolding decodeGetFlowsResponse_def encode_response_def extractField_num(1)[OF top] by simp
qed


subsection \<open>Properties\<close>



text \<open>C19: on any bytes whose varints stay below \<open>2 ^ 63\<close> minus the message length, both
  extractors terminate and return normally, and the bytes \<^verbatim>\<open>extractField\<close> returns are a
  contiguous part of the message.\<close>

theorem extract_returns:
  assumes "small_lengths data"
  shows "(\<exists>b ok. extractField data n = ret (b, ok) \<and> sublist b data) \<and> (\<exists>v ok. extractVarint data n = ret (v, ok))"
proof -
  obtain b ok where "extractField data n = ret (b, ok)"
    using extractField_loop_returns[OF assms, of 0 n] by (auto simp: extractField_def)
  then show ?thesis
    using extractField_loop_sublist[of data n 0] extractVarint_loop_returns[OF assms, of 0 n]
    by (auto simp: extractField_def extractVarint_def)
qed

theorem extract_returns_witness:
  "small_lengths [0x0A, 0x02, 0x61, 0x62] \<and>
   (\<exists>b ok. extractField [0x0A, 0x02, 0x61, 0x62] 1 = ret (b, ok) \<and> sublist b [0x0A, 0x02, 0x61, 0x62])"
proof -
  have h: "small_lengths [0x0A, 0x02, 0x61, 0x62]"
    by (auto simp: small_lengths_def less_Suc_eq decodeVarint_def)
  show ?thesis using h extract_returns[OF h, of 1] by blast
qed

text \<open>C33: a length prefix of \<open>2 ^ 63\<close> or more on the wanted field makes \<^verbatim>\<open>extractField\<close>
  panic: the converted length is negative, passes the bounds check and inverts the slice.\<close>

theorem extractField_panics:
  assumes "f < 2 ^ 61" "2 ^ 63 \<le> v" "v < 2 ^ 64"
  shows "extractField (uvarint (8 * f + 2) @ uvarint v @ rest) (of_nat f) = Some Panics"
  by (rule negative_length_panics[OF assms])

theorem extractField_panics_witness:
  "extractField (uvarint 10 @ uvarint (2 ^ 64 - 1)) 1 = Some Panics"
  using extractField_panics[of 1 "2 ^ 64 - 1" "[]"] by simp

text \<open>C34: on a field that is not the wanted one, a length prefix that equals minus the length of
  its own header sends the index back to the start of the message, and \<^verbatim>\<open>extractField\<close>
  never returns.\<close>

theorem extractField_diverges:
  assumes "f < 2 ^ 61" "n < 2 ^ 64" "n \<noteq> f" "v = 2 ^ 64 - (length (uvarint (8 * f + 2)) + 10)"
  shows "extractField (uvarint (8 * f + 2) @ uvarint v @ rest) (of_nat n) = None"
  by (rule self_length_diverges[OF assms])

theorem extractField_diverges_witness:
  "extractField (uvarint 18 @ uvarint (2 ^ 64 - 11)) 1 = None"
  using extractField_diverges[of 2 1 "2 ^ 64 - 11" "[]"] by (simp add: uvarint.simps[of 18])

text \<open>The hand-built request is the encoding of a \<^verbatim>\<open>GetFlowsRequest\<close> with
  \<^verbatim>\<open>follow\<close> (field 7) set and one whitelist entry (field 5) whose traffic direction
  (field 6) is 2, and the extractors read those values back.\<close>

lemma request_encoding:
  "buildGetFlowsRequest = encode_msg [(7, Varint 1), (5, Bytes (encode_msg [(6, Varint 2)]))] \<and>
   extractVarint buildGetFlowsRequest 7 = ret (1, True) \<and>
   extractField buildGetFlowsRequest 5 = ret (encode_msg [(6, Varint 2)], True)"
proof -
  let ?m = "[(7, Varint 1), (5, Bytes (encode_msg [(6, Varint 2)]))]"
  have e: "buildGetFlowsRequest = encode_msg ?m"
    by (simp add: buildGetFlowsRequest_def encode_field.simps uvarint.simps)
  have "length (encode_msg ?m) < 2 ^ 63"
    by (simp add: encode_field.simps uvarint.simps)
  then show ?thesis
    unfolding e using extractVarint_msg[of ?m 7] extractField_msg[of ?m 5] by simp
qed

end
