(* ===== verification/Accumulator.thy ===== *)
theory Accumulator
  imports Flow_Types
begin

text \<open>
  \<^verbatim>\<open>internal/observer/accumulator.go\<close>: the aggregation of flows per destination, the sliding
  purge, the periodic snapshots and the event loop. The mutex makes every operation atomic;
  the order in which \<^verbatim>\<open>range\<close> visits a Go map is an argument (\<open>ord\<close>, \<open>ordW\<close>), and so
  are the clock readings and the snapshot store. Entries are pointers in the source; a
  snapshot is marshalled before the next operation on the entries can run, so the model
  passes their values.
\<close>

definition maxDestinations :: nat where
  "maxDestinations = 500"

record DestEntry =
  de_Workload :: string
  de_DestFQDN :: string
  de_DestIP :: string
  de_DestPort :: u32
  de_Protocol :: string
  de_FirstSeen :: int
  de_LastSeen :: int
  de_FlowCount :: u64
  de_Bytes :: u64
  de_Snapshots :: int

record destKey =
  dk_workload :: string
  dk_fqdn :: string
  dk_ip :: string
  dk_port :: u32
  dk_proto :: string

record Snapshot =
  sn_WorkloadKey :: string
  sn_Destinations :: "DestEntry list"
  sn_Truncated :: bool
  sn_GeneratedAt :: int

record Accumulator =
  acc_window :: int
  acc_snapshotInterval :: int
  acc_workloadNS :: "(string \<times> string) list"
  acc_configMapName :: "(string \<times> string) list"
  acc_entries :: "(destKey \<times> DestEntry) list"

text \<open>\<^verbatim>\<open>SnapshotStore.SaveSnapshot\<close> with its context's state \<open>'s\<close>: namespace, name, snapshot;
  the result is the error, if any, and the new state.\<close>

type_synonym 's save_fn = "'s \<Rightarrow> string \<Rightarrow> string \<Rightarrow> Snapshot \<Rightarrow> go_error option \<times> 's"

definition NewAccumulator :: "int \<Rightarrow> int \<Rightarrow> Accumulator" where
  "NewAccumulator window snapshotInterval =
     \<lparr>acc_window = window, acc_snapshotInterval = snapshotInterval, acc_workloadNS = [],
      acc_configMapName = [], acc_entries = []\<rparr>"

definition RegisterWorkload :: "string \<Rightarrow> string \<Rightarrow> string \<Rightarrow> Accumulator \<Rightarrow> Accumulator" where
  "RegisterWorkload workloadKey namespace cmName a =
     a\<lparr>acc_workloadNS := AList.update workloadKey namespace (acc_workloadNS a),
       acc_configMapName := AList.update workloadKey cmName (acc_configMapName a)\<rparr>"

subsection \<open>ingest\<close>

definition flow_key :: "Flow \<Rightarrow> destKey" where
  "flow_key f = \<lparr>dk_workload = fl_SourceNamespace f @ ''/'' @ fl_SourceWorkload f,
     dk_fqdn = fl_DestFQDN f, dk_ip = fl_DestIP f, dk_port = fl_DestPort f,
     dk_proto = fl_Protocol f\<rparr>"

definition new_entry :: "Flow \<Rightarrow> DestEntry" where
  "new_entry f = \<lparr>de_Workload = dk_workload (flow_key f), de_DestFQDN = fl_DestFQDN f,
     de_DestIP = fl_DestIP f, de_DestPort = fl_DestPort f, de_Protocol = fl_Protocol f,
     de_FirstSeen = fl_Timestamp f, de_LastSeen = fl_Timestamp f, de_FlowCount = 1,
     de_Bytes = fl_Bytes f, de_Snapshots = 0\<rparr>"

definition ingest :: "Flow \<Rightarrow> Accumulator \<Rightarrow> Accumulator" where
  "ingest f a =
     (let k = flow_key f in
      case map_of (acc_entries a) k of
        Some e \<Rightarrow>
          a\<lparr>acc_entries := AList.update k
              (e\<lparr>de_LastSeen := fl_Timestamp f, de_FlowCount := de_FlowCount e + 1,
                 de_Bytes := de_Bytes e + fl_Bytes f\<rparr>) (acc_entries a)\<rparr>
      | None \<Rightarrow>
          if length (acc_entries a) \<ge> maxDestinations then a
          else a\<lparr>acc_entries := AList.update k (new_entry f) (acc_entries a)\<rparr>)"

subsection \<open>purge\<close>

fun purge_loop :: "int \<Rightarrow> destKey list \<Rightarrow> (destKey \<times> DestEntry) list \<Rightarrow> (destKey \<times> DestEntry) list" where
  "purge_loop cutoff [] m = m"
| "purge_loop cutoff (k # ks) m = purge_loop cutoff ks
     (case map_of m k of
        Some e \<Rightarrow> if de_LastSeen e < cutoff then AList.delete k m else m
      | None \<Rightarrow> m)"

definition purge :: "(destKey list \<Rightarrow> destKey list) \<Rightarrow> int \<Rightarrow> Accumulator \<Rightarrow> Accumulator" where
  "purge ord now a =
     (let cutoff = now - acc_window a in
      a\<lparr>acc_entries := purge_loop cutoff (ord (map fst (acc_entries a))) (acc_entries a)\<rparr>)"

subsection \<open>flushSnapshots\<close>

text \<open>The first loop, under the lock: every entry's cycle counter is incremented and the entry
  is appended to its workload's group.\<close>

fun group_loop :: "destKey list \<Rightarrow> (destKey \<times> DestEntry) list \<Rightarrow> (string \<times> DestEntry list) list \<Rightarrow>
    (destKey \<times> DestEntry) list \<times> (string \<times> DestEntry list) list" where
  "group_loop [] m byWorkload = (m, byWorkload)"
| "group_loop (k # ks) m byWorkload =
     (case map_of m k of
        Some e \<Rightarrow>
          let e' = e\<lparr>de_Snapshots := de_Snapshots e + 1\<rparr>;
              old = (case map_of byWorkload (dk_workload k) of Some ds \<Rightarrow> ds | None \<Rightarrow> [])
          in group_loop ks (AList.update k e' m)
               (AList.update (dk_workload k) (old @ [e']) byWorkload)
      | None \<Rightarrow> group_loop ks m byWorkload)"

text \<open>A lookup in a Go map of strings: the zero value when the key is missing.\<close>

definition gget :: "(string \<times> string) list \<Rightarrow> string \<Rightarrow> string" where
  "gget m k = (case map_of m k of Some v \<Rightarrow> v | None \<Rightarrow> [])"

text \<open>The second loop: one save per registered workload; an error is logged and dropped.\<close>

fun save_loop :: "'s save_fn \<Rightarrow> (string \<Rightarrow> int) \<Rightarrow> Accumulator \<Rightarrow> bool \<Rightarrow>
    (string \<times> DestEntry list) list \<Rightarrow> string list \<Rightarrow> 's \<Rightarrow> 's" where
  "save_loop save clock a truncated byWorkload [] s = s"
| "save_loop save clock a truncated byWorkload (wk # wks) s =
     (let ns = gget (acc_workloadNS a) wk; cmName = gget (acc_configMapName a) wk;
          dests = (case map_of byWorkload wk of Some ds \<Rightarrow> ds | None \<Rightarrow> []) in
      if ns = [] \<or> cmName = [] then save_loop save clock a truncated byWorkload wks s
      else
        let snap = \<lparr>sn_WorkloadKey = wk, sn_Destinations = dests, sn_Truncated = truncated,
                    sn_GeneratedAt = clock wk\<rparr>
        in save_loop save clock a truncated byWorkload wks (snd (save s ns cmName snap)))"

definition flushSnapshots :: "'s save_fn \<Rightarrow> (destKey list \<Rightarrow> destKey list) \<Rightarrow>
    (string list \<Rightarrow> string list) \<Rightarrow> (string \<Rightarrow> int) \<Rightarrow> Accumulator \<Rightarrow> 's \<Rightarrow> Accumulator \<times> 's" where
  "flushSnapshots save ord ordW clock a s =
     (let (entries, byWorkload) = group_loop (ord (map fst (acc_entries a))) (acc_entries a) [];
          truncated = length entries \<ge> maxDestinations;
          a' = a\<lparr>acc_entries := entries\<rparr>
      in (a', save_loop save clock a' truncated byWorkload (ordW (map fst byWorkload)) s))"

definition GetSnapshot_acc :: "(destKey list \<Rightarrow> destKey list) \<Rightarrow> int \<Rightarrow> string \<Rightarrow> Accumulator \<Rightarrow> Snapshot" where
  "GetSnapshot_acc ord now workloadKey a =
     \<lparr>sn_WorkloadKey = workloadKey,
      sn_Destinations = map (\<lambda>k. the (map_of (acc_entries a) k))
        (filter (\<lambda>k. dk_workload k = workloadKey) (ord (map fst (acc_entries a)))),
      sn_Truncated = length (acc_entries a) \<ge> maxDestinations,
      sn_GeneratedAt = now\<rparr>"

subsection \<open>The event loop\<close>

text \<open>
  What the \<^verbatim>\<open>select\<close> of \<^verbatim>\<open>Start\<close> can receive, and \<^verbatim>\<open>RegisterWorkload\<close> calls of the profile
  reconciler, which interleave with it. A tick carries the clock reading of the purge and
  those of the snapshots.
\<close>

datatype acc_event =
    CtxDone
  | FlowReceived Flow
  | TickerFired int "string \<Rightarrow> int"
  | Registered string string string

fun start_loop :: "'s save_fn \<Rightarrow> (destKey list \<Rightarrow> destKey list) \<Rightarrow> (string list \<Rightarrow> string list) \<Rightarrow>
    acc_event list \<Rightarrow> Accumulator \<Rightarrow> 's \<Rightarrow> Accumulator \<times> 's" where
  "start_loop save ord ordW [] a s = (a, s)"
| "start_loop save ord ordW (CtxDone # evs) a s = (a, s)"
| "start_loop save ord ordW (FlowReceived f # evs) a s = start_loop save ord ordW evs (ingest f a) s"
| "start_loop save ord ordW (TickerFired now clock # evs) a s =
     (let (a', s') = flushSnapshots save ord ordW clock (purge ord now a) s
      in start_loop save ord ordW evs a' s')"
| "start_loop save ord ordW (Registered wk ns cm # evs) a s =
     start_loop save ord ordW evs (RegisterWorkload wk ns cm a) s"

text \<open>\<^verbatim>\<open>time.NewTicker\<close> panics when the interval is not positive.\<close>

definition Start :: "'s save_fn \<Rightarrow> (destKey list \<Rightarrow> destKey list) \<Rightarrow> (string list \<Rightarrow> string list) \<Rightarrow>
    acc_event list \<Rightarrow> Accumulator \<Rightarrow> 's \<Rightarrow> (Accumulator \<times> 's) outcome" where
  "Start save ord ordW evs a s =
     (if acc_snapshotInterval a \<le> 0 then Panics else Returns (start_loop save ord ordW evs a s))"

end
