(* ===== verification/Net_IP.thy ===== *)
theory Net_IP
  imports Prelude
begin

text \<open>
  What the program uses of Go's \<^verbatim>\<open>net\<close> package: \<^verbatim>\<open>net.ParseIP\<close> (through
  \<^verbatim>\<open>netip.ParseAddr\<close>, as of the Go 1.21 of \<^verbatim>\<open>go.mod\<close>) and the address classes
  \<^verbatim>\<open>IsLoopback\<close>, \<^verbatim>\<open>IsPrivate\<close>, \<^verbatim>\<open>IsLinkLocalUnicast\<close> and \<^verbatim>\<open>IsLinkLocalMulticast\<close>.
  A parsed address is its 16 bytes, an IPv4 address in its IPv6-mapped form.
\<close>

definition is_digit :: "char \<Rightarrow> bool" where
  "is_digit c \<longleftrightarrow> CHR ''0'' \<le> c \<and> c \<le> CHR ''9''"

definition digit_val :: "char \<Rightarrow> nat" where
  "digit_val c = of_char c - 48"

text \<open>The scan of \<^verbatim>\<open>parseIPv4\<close>: previous character, finished fields, value and number of
  digits of the current one.\<close>

fun parseIPv4_loop :: "string \<Rightarrow> char option \<Rightarrow> nat list \<Rightarrow> nat \<Rightarrow> nat \<Rightarrow> nat list option" where
  "parseIPv4_loop [] prev fields v digLen =
     (if length fields < 3 then None else Some (fields @ [v]))"
| "parseIPv4_loop (c # cs) prev fields v digLen =
     (if is_digit c then
        if digLen = 1 \<and> v = 0 then None
        else if v * 10 + digit_val c > 255 then None
        else parseIPv4_loop cs (Some c) fields (v * 10 + digit_val c) (digLen + 1)
      else if c = CHR ''.'' then
        if prev = None \<or> cs = [] \<or> prev = Some (CHR ''.'') then None
        else if length fields = 3 then None
        else parseIPv4_loop cs (Some c) (fields @ [v]) 0 0
      else None)"

definition parseIPv4 :: "string \<Rightarrow> nat list option" where
  "parseIPv4 s = parseIPv4_loop s None [] 0 0"

definition hex_val :: "char \<Rightarrow> nat option" where
  "hex_val c =
     (if is_digit c then Some (digit_val c)
      else if CHR ''a'' \<le> c \<and> c \<le> CHR ''f'' then Some (of_char c - 97 + 10)
      else if CHR ''A'' \<le> c \<and> c \<le> CHR ''F'' then Some (of_char c - 65 + 10)
      else None)"

text \<open>The inner loop of \<^verbatim>\<open>parseIPv6\<close>: number of hex digits, their value, the rest.\<close>

fun scan_hex :: "string \<Rightarrow> nat \<Rightarrow> nat \<Rightarrow> (nat \<times> nat \<times> string) option" where
  "scan_hex [] off acc = Some (off, acc, [])"
| "scan_hex (c # cs) off acc =
     (case hex_val c of
        None \<Rightarrow> Some (off, acc, c # cs)
      | Some d \<Rightarrow> if acc * 16 + d > 65535 then None else scan_hex cs (off + 1) (acc * 16 + d))"

text \<open>The outer loop: \<open>ip\<close> holds the bytes filled so far, \<open>ell\<close> the position of \<^verbatim>\<open>::\<close>.\<close>

function parseIPv6_loop :: "string \<Rightarrow> byte list \<Rightarrow> nat option \<Rightarrow> (string \<times> byte list \<times> nat option) option" where
  "parseIPv6_loop s ip ell =
     (if length ip \<ge> 16 then Some (s, ip, ell)
      else case scan_hex s 0 0 of
        None \<Rightarrow> None
      | Some (off, acc, rest) \<Rightarrow>
          if off = 0 then None
          else if rest \<noteq> [] \<and> hd rest = CHR ''.'' then
            if ell = None \<and> length ip \<noteq> 12 then None
            else if length ip + 4 > 16 then None
            else map_option (\<lambda>fs. ([], ip @ map of_nat fs, ell)) (parseIPv4 s)
          else
            let ip' = ip @ [of_nat (acc div 256), of_nat (acc mod 256)] in
            if rest = [] then Some ([], ip', ell)
            else if hd rest \<noteq> CHR '':'' then None
            else if tl rest = [] then None
            else if hd (tl rest) = CHR '':'' then
              if ell \<noteq> None then None
              else if tl (tl rest) = [] then Some ([], ip', Some (length ip'))
              else parseIPv6_loop (tl (tl rest)) ip' (Some (length ip'))
            else parseIPv6_loop (tl rest) ip' ell)"
  by pat_completeness auto
termination
  by (relation "measure (\<lambda>(s, ip, ell). 16 - length ip)") auto

declare parseIPv6_loop.simps [simp del]

text \<open>After the loop: the whole string must be used, and \<^verbatim>\<open>::\<close> is expanded with zeros.\<close>

definition parseIPv6_finish :: "string \<Rightarrow> byte list \<Rightarrow> nat option \<Rightarrow> byte list option" where
  "parseIPv6_finish s ip ell =
     (if s \<noteq> [] then None
      else if length ip < 16 then
        (case ell of None \<Rightarrow> None
         | Some e \<Rightarrow> Some (take e ip @ replicate (16 - length ip) 0 @ drop e ip))
      else if ell \<noteq> None then None
      else Some ip)"

text \<open>A zone (after \<^verbatim>\<open>%\<close>) is either an error or makes \<^verbatim>\<open>net.ParseIP\<close> return nil.\<close>

definition parseIPv6 :: "string \<Rightarrow> byte list option" where
  "parseIPv6 s =
     (if CHR ''%'' \<in> set s then None
      else
        let lead = (take 2 s = ''::''); s' = (if lead then drop 2 s else s) in
        if lead \<and> s' = [] then Some (replicate 16 0)
        else Option.bind (parseIPv6_loop s' [] (if lead then Some 0 else None))
               (\<lambda>(r, ip, ell). parseIPv6_finish r ip ell))"

definition v4InV6Prefix :: "byte list" where
  "v4InV6Prefix = replicate 10 0 @ [0xFF, 0xFF]"

definition ParseIP :: "string \<Rightarrow> byte list option" where
  "ParseIP s =
     (case dropWhile (\<lambda>c. c \<noteq> CHR ''.'' \<and> c \<noteq> CHR '':'' \<and> c \<noteq> CHR ''%'') s of
        [] \<Rightarrow> None
      | c # _ \<Rightarrow>
          if c = CHR ''.'' then map_option (\<lambda>fs. v4InV6Prefix @ map of_nat fs) (parseIPv4 s)
          else if c = CHR '':'' then parseIPv6 s
          else None)"

subsection \<open>Address classes\<close>

definition To4 :: "byte list \<Rightarrow> byte list option" where
  "To4 ip = (if length ip = 16 \<and> take 12 ip = v4InV6Prefix then Some (drop 12 ip) else None)"

definition IsLoopback :: "byte list \<Rightarrow> bool" where
  "IsLoopback ip = (case To4 ip of Some ip4 \<Rightarrow> ip4 ! 0 = 127 | None \<Rightarrow> ip = replicate 15 0 @ [1])"

definition IsPrivate :: "byte list \<Rightarrow> bool" where
  "IsPrivate ip = (case To4 ip of
     Some ip4 \<Rightarrow> ip4 ! 0 = 10 \<or> (ip4 ! 0 = 172 \<and> ip4 ! 1 AND 0xF0 = 16) \<or> (ip4 ! 0 = 192 \<and> ip4 ! 1 = 168)
   | None \<Rightarrow> length ip = 16 \<and> ip ! 0 AND 0xFE = 0xFC)"

definition IsLinkLocalUnicast :: "byte list \<Rightarrow> bool" where
  "IsLinkLocalUnicast ip = (case To4 ip of
     Some ip4 \<Rightarrow> ip4 ! 0 = 169 \<and> ip4 ! 1 = 254
   | None \<Rightarrow> length ip = 16 \<and> ip ! 0 = 0xFE \<and> ip ! 1 AND 0xC0 = 0x80)"

definition IsLinkLocalMulticast :: "byte list \<Rightarrow> bool" where
  "IsLinkLocalMulticast ip = (case To4 ip of
     Some ip4 \<Rightarrow> ip4 ! 0 = 224 \<and> ip4 ! 1 = 0 \<and> ip4 ! 2 = 0
   | None \<Rightarrow> length ip = 16 \<and> ip ! 0 = 0xFF \<and> ip ! 1 AND 0x0F = 0x02)"

subsection \<open>Dotted decimal addresses\<close>

text \<open>The printed form of an IPv4 address, and its round trip through \<^verbatim>\<open>net.ParseIP\<close>.\<close>

definition dotted :: "nat \<Rightarrow> nat \<Rightarrow> nat \<Rightarrow> nat \<Rightarrow> string" where
  "dotted a b c d = dec a @ ''.'' @ dec b @ ''.'' @ dec c @ ''.'' @ dec d"

lemma is_digit_char: "d < 10 \<Longrightarrow> is_digit (digit_char d) \<and> digit_val (digit_char d) = d"
  by (simp add: is_digit_def digit_val_def of_char_digit less_eq_char_def)

lemma digit_char_ne_dot: "d < 10 \<Longrightarrow> digit_char d \<noteq> CHR ''.''"
  using of_char_digit[of d] by auto

lemma parseIPv4_loop_digit:
  assumes "d < 10"
  shows "parseIPv4_loop (digit_char d # cs) prev fs v l =
    (if l = 1 \<and> v = 0 \<or> v * 10 + d > 255 then None
     else parseIPv4_loop cs (Some (digit_char d)) fs (v * 10 + d) (l + 1))"
  using is_digit_char[OF assms] by simp

lemma dec_snoc: "0 < m \<Longrightarrow> r < 10 \<Longrightarrow> dec (m * 10 + r) = dec m @ [digit_char r]"
  by (subst dec.simps) simp

lemma dec_small:
  "n < 10 \<Longrightarrow> dec n = [digit_char n]"
  "p < 10 \<Longrightarrow> 0 < p \<Longrightarrow> r < 10 \<Longrightarrow> dec (p * 10 + r) = [digit_char p, digit_char r]"
  "p < 10 \<Longrightarrow> 0 < p \<Longrightarrow> q < 10 \<Longrightarrow> r < 10 \<Longrightarrow>
     dec ((p * 10 + q) * 10 + r) = [digit_char p, digit_char q, digit_char r]"
proof -
  show one: "dec n = [digit_char n]" if "n < 10" for n
    using that by (subst dec.simps) simp
  show two: "dec (p * 10 + r) = [digit_char p, digit_char r]" if "p < 10" "0 < p" "r < 10" for p r
    using that by (subst dec_snoc) (simp_all add: one)
  show "dec ((p * 10 + q) * 10 + r) = [digit_char p, digit_char q, digit_char r]"
    if "p < 10" "0 < p" "q < 10" "r < 10"
    using that by (subst dec_snoc) (simp_all add: two)
qed

lemma parseIPv4_loop_dec:
  assumes "n < 256"
  shows "\<exists>ch. ch \<noteq> CHR ''.'' \<and> parseIPv4_loop (dec n @ rest) prev fs 0 0 =
    parseIPv4_loop rest (Some ch) fs n (length (dec n))"
proof -
  consider "n < 10" | p r where "n = p * 10 + r" "0 < p" "p < 10" "r < 10"
    | p q r where "n = (p * 10 + q) * 10 + r" "0 < p" "p < 10" "q < 10" "r < 10"
  proof -
    assume c: "n < 10 \<Longrightarrow> thesis" "\<And>p r. n = p * 10 + r \<Longrightarrow> 0 < p \<Longrightarrow> p < 10 \<Longrightarrow> r < 10 \<Longrightarrow> thesis"
      "\<And>p q r. n = (p * 10 + q) * 10 + r \<Longrightarrow> 0 < p \<Longrightarrow> p < 10 \<Longrightarrow> q < 10 \<Longrightarrow> r < 10 \<Longrightarrow> thesis"
    show thesis
    proof (cases "n < 100")
      case True
      then show ?thesis using c(1) c(2)[of "n div 10" "n mod 10"] by (cases "n < 10") (auto simp: div_greater_zero_iff)
    next
      case False
      have "n = (n div 10 div 10 * 10 + n div 10 mod 10) * 10 + n mod 10"
        by (simp only: div_mult_mod_eq)
      moreover have "0 < n div 10 div 10" "n div 10 div 10 < 10"
        using False assms by (simp_all add: div_greater_zero_iff flip: div_mult2_eq)
      ultimately show ?thesis using c(3)[of "n div 10 div 10" "n div 10 mod 10" "n mod 10"] by simp
    qed
  qed
  then show ?thesis
  proof cases
    case 1
    then show ?thesis using digit_char_ne_dot[of n] by (auto simp: dec_small parseIPv4_loop_digit simp del: parseIPv4_loop.simps)
  next
    case (2 p r)
    show ?thesis
      by (rule exI[of _ "digit_char r"], simp only: "2"(1) dec_small(2)[OF "2"(3,2,4)])
        (use assms 2 digit_char_ne_dot[of r] in \<open>simp add: parseIPv4_loop_digit del: parseIPv4_loop.simps\<close>)
  next
    case (3 p q r)
    show ?thesis
      by (rule exI[of _ "digit_char r"], simp only: "3"(1) dec_small(3)[OF "3"(3,2,4,5)])
        (use assms 3 digit_char_ne_dot[of r] in \<open>simp add: parseIPv4_loop_digit del: parseIPv4_loop.simps\<close>)
  qed
qed

lemma parseIPv4_dotted:
  assumes "a < 256" "b < 256" "c < 256" "d < 256"
  shows "parseIPv4 (dotted a b c d) = Some [a, b, c, d]"
proof -
  have dot: "\<not> is_digit (CHR ''.'')" by (simp add: is_digit_def less_eq_char_def)
  have step: "parseIPv4_loop (dec n @ CHR ''.'' # dec m @ rest) prev fs 0 0 =
      parseIPv4_loop (dec m @ rest) (Some (CHR ''.'')) (fs @ [n]) 0 0"
    if "n < 256" "length fs < 3" for n m rest prev fs
    using parseIPv4_loop_dec[OF that(1), of "CHR ''.'' # dec m @ rest" prev fs] that(2) dot by auto
  have last: "parseIPv4_loop (dec n) prev fs 0 0 = Some (fs @ [n])" if "n < 256" "length fs = 3" for n prev fs
    using parseIPv4_loop_dec[OF that(1), of "[]" prev fs] that(2) by auto
  show ?thesis
    using assms last[OF assms(4)] step[OF assms(3), of _ d "[]", simplified]
    by (simp add: parseIPv4_def dotted_def step)
qed

lemma ParseIP_dotted:
  assumes "a < 256" "b < 256" "c < 256" "d < 256"
  shows "ParseIP (dotted a b c d) = Some (v4InV6Prefix @ map of_nat [a, b, c, d])"
proof -
  have "dropWhile (\<lambda>ch. ch \<noteq> CHR ''.'' \<and> ch \<noteq> CHR '':'' \<and> ch \<noteq> CHR ''%'') (dotted a b c d) =
      CHR ''.'' # dec b @ ''.'' @ dec c @ ''.'' @ dec d"
    unfolding dotted_def by (subst dropWhile_append2) (auto simp: dec_no_sep[THEN notE])
  then show ?thesis using parseIPv4_dotted[OF assms] by (simp add: ParseIP_def)
qed

lemma unat_byte: "a < 256 \<Longrightarrow> unat (of_nat a :: byte) = a"
  by (simp only: unat_of_nat) simp

lemma of_nat_byte_eq: "a < 256 \<Longrightarrow> n < 256 \<Longrightarrow> (of_nat a :: byte) = of_nat n \<longleftrightarrow> a = n"
  by (metis unat_byte)

lemma of_nat_byte_num:
  assumes "a < 256" "numeral k < (256 :: nat)"
  shows "(of_nat a :: byte) = numeral k \<longleftrightarrow> a = numeral k"
  using of_nat_byte_eq[OF assms] by simp

lemma byte_and_F0: "b < 256 \<Longrightarrow> (of_nat b :: byte) AND 0xF0 = 16 \<longleftrightarrow> 16 \<le> b \<and> b \<le> 31"
proof -
  have "list_all (\<lambda>b. ((of_nat b :: byte) AND 0xF0 = 16) = (16 \<le> b \<and> b \<le> 31)) [0..<256]"
    by code_simp
  then show "b < 256 \<Longrightarrow> ?thesis" by (auto simp: list_all_iff)
qed

end
