(* ===== verification/Baseline.thy ===== *)
theory Baseline
  imports Accumulator Net_IP
begin

text \<open>
  \<^verbatim>\<open>internal/baseline\<close>: the confidence score and risk level of a destination
  (\<^verbatim>\<open>scorer.go\<close>), the scored and sorted baseline (\<^verbatim>\<open>builder.go\<close>) and the comparison of two
  snapshots (\<^verbatim>\<open>drift.go\<close>). Scores are Go \<^verbatim>\<open>int\<close>s far from overflow, here \<^typ>\<open>int\<close>.
\<close>

subsection \<open>scorer.go\<close>

definition isStandardPort :: "u32 \<Rightarrow> bool" where
  "isStandardPort port \<longleftrightarrow> port \<in> set [443, 80, 8080, 8443, 5432, 3306, 6379, 27017]"

definition isPublicIP :: "string \<Rightarrow> bool" where
  "isPublicIP ip =
     (if ip = [] then False
      else case ParseIP ip of
        None \<Rightarrow> False
      | Some parsed \<Rightarrow> \<not> IsLoopback parsed \<and> \<not> IsPrivate parsed \<and>
          \<not> IsLinkLocalUnicast parsed \<and> \<not> IsLinkLocalMulticast parsed)"

definition isWildcardLarge :: "string \<Rightarrow> bool" where
  "isWildcardLarge fqdn =
     (if fqdn = [] then False
      else fqdn \<in> set [''*.com'', ''*.net'', ''*.org'', ''*.io'', ''*.amazonaws.com'', ''*.cloudfront.net''])"

definition Score :: "DestEntry \<Rightarrow> int" where
  "Score e =
     (let score = 50;
          score = (if de_Snapshots e \<ge> 3 then score + 25 else score);
          score = (if de_FlowCount e \<ge> 10 then score + 15 else score);
          score = (if isStandardPort (de_DestPort e) then score + 10 else score);
          score = (if de_DestFQDN e \<noteq> [] \<and> CHR ''*'' \<notin> set (de_DestFQDN e) then score + 10 else score);
          score = (if de_Snapshots e = 1 \<and> de_FlowCount e = 1 then score - 15 else score);
          score = (if de_DestFQDN e = [] \<and> isPublicIP (de_DestIP e) then score - 30 else score);
          score = (if isWildcardLarge (de_DestFQDN e) then score - 30 else score);
          score = (if score < 0 then 0 else score);
          score = (if score > 100 then 100 else score)
      in score)"

definition RiskLevel :: "DestEntry \<Rightarrow> int \<Rightarrow> string" where
  "RiskLevel e score =
     (if de_DestFQDN e = [] \<and> isPublicIP (de_DestIP e) then ''High''
      else if isWildcardLarge (de_DestFQDN e) then ''High''
      else if score \<ge> 80 then ''Low''
      else if score \<ge> 50 then ''Medium''
      else ''High'')"

text \<open>Go's integer division truncates; both operands are non-negative here.\<close>

definition AggregateScore :: "DestEntry list \<Rightarrow> int" where
  "AggregateScore entries =
     (if length entries = 0 then 0
      else foldl (\<lambda>total e. total + Score e) 0 entries div int (length entries))"

subsection \<open>builder.go\<close>

record ScoredEntry =
  se_Entry :: DestEntry
  se_Score :: int
  se_RiskLevel :: string

text \<open>The lookup \<^verbatim>\<open>order[...]\<close> yields 0 for a level that is not in the map.\<close>

definition risk_order :: "string \<Rightarrow> nat" where
  "risk_order r = (if r = ''Low'' then 0 else if r = ''Medium'' then 1 else if r = ''High'' then 2 else 0)"

text \<open>The inner loop of \<^verbatim>\<open>sortByRisk\<close>: swap entry \<open>j\<close> down while it is less than its
  predecessor. The guard \<^verbatim>\<open>j > 0\<close> keeps both indices in range.\<close>

fun sift_down :: "nat \<Rightarrow> ScoredEntry list \<Rightarrow> ScoredEntry list" where
  "sift_down 0 es = es"
| "sift_down (Suc j) es =
     (if risk_order (se_RiskLevel (es ! Suc j)) < risk_order (se_RiskLevel (es ! j))
      then sift_down j (es[Suc j := es ! j, j := es ! Suc j])
      else es)"

text \<open>The outer loop, for \<open>i\<close> from 1 to \<^verbatim>\<open>n - 1\<close>.\<close>

definition sortByRisk :: "ScoredEntry list \<Rightarrow> ScoredEntry list" where
  "sortByRisk entries = foldl (\<lambda>es i. sift_down i es) entries [1..<length entries]"

definition score_entry :: "DestEntry \<Rightarrow> ScoredEntry" where
  "score_entry e = (let s = Score e in \<lparr>se_Entry = e, se_Score = s, se_RiskLevel = RiskLevel e s\<rparr>)"

definition Build :: "Snapshot \<Rightarrow> ScoredEntry list" where
  "Build snap = sortByRisk (map score_entry (sn_Destinations snap))"

fun RiskSummaryFrom :: "ScoredEntry list \<Rightarrow> nat \<times> nat \<times> nat" where
  "RiskSummaryFrom [] = (0, 0, 0)"
| "RiskSummaryFrom (e # es) =
     (let (low, medium, high) = RiskSummaryFrom es in
      if se_RiskLevel e = ''Low'' then (low + 1, medium, high)
      else if se_RiskLevel e = ''Medium'' then (low, medium + 1, high)
      else if se_RiskLevel e = ''High'' then (low, medium, high + 1)
      else (low, medium, high))"

subsection \<open>drift.go\<close>

record DriftResult =
  dr_NewDestinations :: "string list"
  dr_RemovedDestinations :: "string list"

definition destID :: "DestEntry \<Rightarrow> string" where
  "destID d =
     (let host = (if de_DestFQDN d = [] then de_DestIP d else de_DestFQDN d)
      in host @ '':'' @ dec (unat (de_DestPort d)) @ ''/'' @ de_Protocol d)"

text \<open>The keys of the index map; a nil snapshot is \<open>None\<close>.\<close>

definition indexSnapshot :: "Snapshot option \<Rightarrow> (string \<times> unit) list" where
  "indexSnapshot snap =
     (case snap of None \<Rightarrow> []
      | Some sn \<Rightarrow> foldl (\<lambda>m d. AList.update (destID d) () m) [] (sn_Destinations sn))"

definition Detect :: "(string list \<Rightarrow> string list) \<Rightarrow> Snapshot option \<Rightarrow> Snapshot option \<Rightarrow> DriftResult" where
  "Detect ord previous current =
     (let prev = indexSnapshot previous; curr = indexSnapshot current in
      \<lparr>dr_NewDestinations = filter (\<lambda>k. map_of prev k = None) (ord (map fst curr)),
       dr_RemovedDestinations = filter (\<lambda>k. map_of curr k = None) (ord (map fst prev))\<rparr>)"

end
