(* ===== verification/Wildcard.thy ===== *)
theory Wildcard
  imports Prelude
begin

text \<open>\<^verbatim>\<open>internal/cilium/wildcard.go\<close>: the wildcard policy and the prefix test for direct public
  addresses; and the controller's own, coarser prefix test
  (\<^verbatim>\<open>isPublicIPSimple\<close> of \<^verbatim>\<open>egressprofile_controller.go\<close>).\<close>

definition highPatterns :: "string list" where
  "highPatterns = [''*.com'', ''*.net'', ''*.org'', ''*.io'', ''*.co'',
     ''*.de'', ''*.fr'', ''*.uk'', ''*.ru'', ''*.cn'']"

definition mediumPatterns :: "string list" where
  "mediumPatterns = [''*.amazonaws.com'', ''*.cloudfront.net'', ''*.s3.amazonaws.com'',
     ''*.azurewebsites.net'', ''*.blob.core.windows.net'', ''*.googleapis.com'', ''*.appspot.com'']"

definition WildcardRisk :: "string \<Rightarrow> string" where
  "WildcardRisk fqdn =
     (if fqdn = [] then ''Safe''
      else if \<not> HasPrefix fqdn ''*.'' then ''Safe''
      else if fqdn \<in> set highPatterns then ''High''
      else if fqdn \<in> set mediumPatterns then ''Medium''
      else ''Medium'')"

definition IsAllowedInEnforce :: "string \<Rightarrow> bool" where
  "IsAllowedInEnforce fqdn = (WildcardRisk fqdn = ''Safe'')"

definition privatePrefixes :: "string list" where
  "privatePrefixes = [''10.'', ''172.16.'', ''172.17.'', ''172.18.'', ''172.19.'',
     ''172.20.'', ''172.21.'', ''172.22.'', ''172.23.'', ''172.24.'', ''172.25.'', ''172.26.'',
     ''172.27.'', ''172.28.'', ''172.29.'', ''172.30.'', ''172.31.'',
     ''192.168.'', ''127.'', ''::1'']"

definition IsDirectPublicIP :: "string \<Rightarrow> string \<Rightarrow> bool" where
  "IsDirectPublicIP fqdn ip =
     (if fqdn \<noteq> [] then False
      else if ip = [] then False
      else \<not> list_ex (HasPrefix ip) privatePrefixes)"

definition privPrefixes :: "string list" where
  "privPrefixes = [''10.'', ''172.'', ''192.168.'', ''127.'', ''::1'']"

definition isPublicIPSimple :: "string \<Rightarrow> bool" where
  "isPublicIPSimple ip =
     (if ip = [] then False
      else \<not> list_ex (\<lambda>p. length ip \<ge> length p \<and> take (length p) ip = p) privPrefixes)"

end
