(* ===== verification/Api_Types.thy ===== *)
theory Api_Types
  imports Prelude
begin

text \<open>
  The custom resources of \<^verbatim>\<open>api/v1alpha1\<close>: \<^verbatim>\<open>EgressProfile\<close> and \<^verbatim>\<open>EgressPolicyProposal\<close>, with
  the parts of the Kubernetes object metadata and conditions that the operator reads or
  writes. The enumerations are Go string types, so they are strings here, and the constants
  are definitions. Times are instants; a nil pointer is \<open>None\<close>.
\<close>

subsection \<open>Object metadata\<close>

record OwnerReference =
  or_APIVersion :: string
  or_Kind :: string
  or_Name :: string
  or_UID :: string
  or_BlockOwnerDeletion :: "bool option"
  or_Controller :: "bool option"

record ObjectMeta =
  om_Name :: string
  om_Namespace :: string
  om_UID :: string
  om_ResourceVersion :: string
  om_Labels :: "(string \<times> string) list"
  om_OwnerReferences :: "OwnerReference list"

record Condition =
  cd_Type :: string
  cd_Status :: string
  cd_Reason :: string
  cd_Message :: string
  cd_LastTransitionTime :: int

definition GroupVersion_String :: string where
  "GroupVersion_String = ''egress.platform.io/v1alpha1''"

subsection \<open>egressprofile_types.go\<close>

type_synonym EgressMode = string
type_synonym EgressPhase = string

definition ModeObserve :: EgressMode where "ModeObserve = ''Observe''"
definition ModeSuggest :: EgressMode where "ModeSuggest = ''Suggest''"
definition ModeEnforce :: EgressMode where "ModeEnforce = ''Enforce''"

definition PhaseObserving :: EgressPhase where "PhaseObserving = ''Observing''"
definition PhaseProposed :: EgressPhase where "PhaseProposed = ''Proposed''"
definition PhaseAwaitingApproval :: EgressPhase where "PhaseAwaitingApproval = ''AwaitingApproval''"
definition PhaseEnforced :: EgressPhase where "PhaseEnforced = ''Enforced''"
definition PhaseFailed :: EgressPhase where "PhaseFailed = ''Failed''"

record TargetRef =
  tr_APIVersion :: string
  tr_Kind :: string
  tr_Name :: string

record PolicyConfig =
  pc_AllowDNS :: bool
  pc_AllowKubeSystem :: bool
  pc_GeneratedPolicyName :: string

record GitOpsConfig =
  gc_Enabled :: bool
  gc_OutputPath :: string

record EgressProfileSpec =
  ps_TargetRef :: TargetRef
  ps_Mode :: EgressMode
  ps_BaselineWindow :: string
  ps_Policy :: PolicyConfig
  ps_GitOps :: GitOpsConfig

record RiskSummary =
  rs_Low :: nat
  rs_Medium :: nat
  rs_High :: nat

record EgressProfileStatus =
  pt_Phase :: EgressPhase
  pt_Conditions :: "Condition list"
  pt_ObservedDestinationsCount :: nat
  pt_Truncated :: bool
  pt_LastObservationTime :: "int option"
  pt_BaselineConfigMapRef :: string
  pt_ProposalRef :: string
  pt_RiskSummary :: RiskSummary
  pt_Message :: string

record EgressProfile =
  pr_Meta :: ObjectMeta
  pr_Spec :: EgressProfileSpec
  pr_Status :: EgressProfileStatus

subsection \<open>egresspolicyproposal_types.go\<close>

type_synonym ProposalPhase = string
type_synonym risk_level = string

definition ProposalPhaseDraft :: ProposalPhase where "ProposalPhaseDraft = ''Draft''"
definition ProposalPhasePendingApproval :: ProposalPhase where "ProposalPhasePendingApproval = ''PendingApproval''"
definition ProposalPhaseApproved :: ProposalPhase where "ProposalPhaseApproved = ''Approved''"
definition ProposalPhaseApplied :: ProposalPhase where "ProposalPhaseApplied = ''Applied''"
definition ProposalPhaseFailed :: ProposalPhase where "ProposalPhaseFailed = ''Failed''"

definition RiskLow :: risk_level where "RiskLow = ''Low''"
definition RiskMedium :: risk_level where "RiskMedium = ''Medium''"
definition RiskHigh :: risk_level where "RiskHigh = ''High''"

record GeneratedPolicyRef =
  gp_Type :: string
  gp_Name :: string

record ApprovalSpec =
  ap_Approved :: bool
  ap_ApprovedBy :: string
  ap_ApprovedAt :: "int option"

record EgressPolicyProposalSpec =
  xs_ProfileRef_Name :: string
  xs_GeneratedPolicy :: GeneratedPolicyRef
  xs_Approval :: ApprovalSpec

record ExcludedDestination =
  xd_Dest :: string
  xd_Risk :: risk_level
  xd_Reason :: string

record EgressPolicyProposalStatus =
  xt_Phase :: ProposalPhase
  xt_ConfidenceScore :: int
  xt_RiskLevel :: risk_level
  xt_PolicyConfigMapRef :: string
  xt_ExcludedDestinations :: "ExcludedDestination list"
  xt_Conditions :: "Condition list"
  xt_Message :: string

record EgressPolicyProposal =
  xp_Meta :: ObjectMeta
  xp_Spec :: EgressPolicyProposalSpec
  xp_Status :: EgressPolicyProposalStatus

lemmas phase_defs =
  PhaseObserving_def PhaseProposed_def PhaseAwaitingApproval_def PhaseEnforced_def PhaseFailed_def
  ProposalPhaseDraft_def ProposalPhasePendingApproval_def ProposalPhaseApproved_def
  ProposalPhaseApplied_def ProposalPhaseFailed_def

lemmas mode_defs = ModeObserve_def ModeSuggest_def ModeEnforce_def

lemmas risk_defs = RiskLow_def RiskMedium_def RiskHigh_def

end
