(* ===== verification/Policy_Generator.thy ===== *)
theory Policy_Generator
  imports Baseline Wildcard Api_Types
begin

text \<open>
  \<^verbatim>\<open>internal/cilium/types.go\<close> and \<^verbatim>\<open>policy_generator.go\<close>: from a snapshot to a
  CiliumNetworkPolicy. The policy object is a record of what the setters of the
  \<^verbatim>\<open>unstructured\<close> package set; its egress rules are literal JSON-like values (\<open>uval\<close>).
  The YAML printer (package \<^verbatim>\<open>sigs.k8s.io/yaml\<close>) is the argument \<open>yamlMarshal\<close>; the orders
  in which the two Go maps are visited are the arguments \<open>ordF\<close> and \<open>ordP\<close>.
\<close>

subsection \<open>types.go\<close>

datatype uval = UStr string | UList "uval list" | UMap "(string \<times> uval) list"

record GroupVersionKind =
  gvk_Group :: string
  gvk_Version :: string
  gvk_Kind :: string

definition CiliumNetworkPolicyGVK :: GroupVersionKind where
  "CiliumNetworkPolicyGVK = \<lparr>gvk_Group = ''cilium.io'', gvk_Version = ''v2'', gvk_Kind = ''CiliumNetworkPolicy''\<rparr>"

record Unstructured =
  un_GVK :: GroupVersionKind
  un_Meta :: ObjectMeta
  un_matchLabels :: "(string \<times> uval) list option"
  un_egress :: "uval list option"

definition NewCNP :: "string \<Rightarrow> string \<Rightarrow> Unstructured" where
  "NewCNP name namespace =
     \<lparr>un_GVK = CiliumNetworkPolicyGVK,
      un_Meta = \<lparr>om_Name = name, om_Namespace = namespace, om_UID = [], om_ResourceVersion = [],
        om_Labels = [(''app.kubernetes.io/managed-by'', ''egress-guardian-operator'')],
        om_OwnerReferences = []\<rparr>,
      un_matchLabels = None, un_egress = None\<rparr>"

definition SetName :: "Unstructured \<Rightarrow> string \<Rightarrow> Unstructured" where
  "SetName cnp name = cnp\<lparr>un_Meta := (un_Meta cnp)\<lparr>om_Name := name\<rparr>\<rparr>"

definition SetEndpointSelector :: "Unstructured \<Rightarrow> (string \<times> uval) list \<Rightarrow> Unstructured" where
  "SetEndpointSelector cnp matchLabels = cnp\<lparr>un_matchLabels := Some matchLabels\<rparr>"

definition SetEgressRules :: "Unstructured \<Rightarrow> uval list \<Rightarrow> Unstructured" where
  "SetEgressRules cnp rules = cnp\<lparr>un_egress := Some rules\<rparr>"

subsection \<open>The rules\<close>

record GenerationResult =
  gr_CNP :: Unstructured
  gr_YAML :: string
  gr_ExcludedDestinations :: "ExcludedDestination list"
  gr_ConfidenceScore :: int
  gr_RiskLevel :: risk_level

definition destHost :: "DestEntry \<Rightarrow> string" where
  "destHost e = (if de_DestFQDN e \<noteq> [] then de_DestFQDN e else de_DestIP e)"

definition dnsPolicyRule :: uval where
  "dnsPolicyRule = UMap
     [(''toEndpoints'', UList [UMap [(''matchLabels'', UMap
         [(''k8s:io.kubernetes.pod.namespace'', UStr ''kube-system''),
          (''k8s:k8s-app'', UStr ''kube-dns'')])]]),
      (''toPorts'', UList [UMap
         [(''ports'', UList [UMap [(''port'', UStr ''53''), (''protocol'', UStr ''UDP'')]]),
          (''rules'', UMap [(''dns'', UList [UMap [(''matchPattern'', UStr ''*'')]])])]])]"

definition fqdnEgressRule :: "string list \<Rightarrow> u32 \<Rightarrow> string \<Rightarrow> uval" where
  "fqdnEgressRule fqdns port proto = UMap
     [(''toFQDNs'', UList (map (\<lambda>f. UMap [(''matchName'', UStr f)]) fqdns)),
      (''toPorts'', UList [UMap
         [(''ports'', UList [UMap [(''port'', UStr (dec (unat port))), (''protocol'', UStr proto)]])]])]"

fun computeOverallRisk :: "ScoredEntry list \<Rightarrow> int \<Rightarrow> risk_level" where
  "computeOverallRisk (se # scored) score =
     (if se_RiskLevel se = ''High'' then
        if score < 50 then RiskHigh else RiskMedium
      else computeOverallRisk scored score)"
| "computeOverallRisk [] score =
     (if score \<ge> 80 then RiskLow else if score \<ge> 50 then RiskMedium else RiskHigh)"

subsection \<open>Generate\<close>

record fqdnKey =
  fk_fqdn :: string
  fk_port :: u32
  fk_proto :: string

text \<open>The second grouping key, ordered as the comparison passed to \<^verbatim>\<open>sort.Slice\<close>.\<close>

datatype portProto = PortProto (pp_port: u32) (pp_proto: string)

instantiation portProto :: linorder
begin

definition less_eq_portProto :: "portProto \<Rightarrow> portProto \<Rightarrow> bool" where
  "less_eq_portProto x y \<longleftrightarrow> (if pp_port x \<noteq> pp_port y then pp_port x < pp_port y else pp_proto x \<le> pp_proto y)"

definition less_portProto :: "portProto \<Rightarrow> portProto \<Rightarrow> bool" where
  "less_portProto x y \<longleftrightarrow> (if pp_port x \<noteq> pp_port y then pp_port x < pp_port y else pp_proto x < pp_proto y)"

instance
proof
  fix x y z :: portProto
  show "x < y \<longleftrightarrow> x \<le> y \<and> \<not> y \<le> x" "x \<le> x" "x \<le> y \<or> y \<le> x"
    by (auto simp: less_eq_portProto_def less_portProto_def)
  show "x \<le> y \<Longrightarrow> y \<le> z \<Longrightarrow> x \<le> z"
    by (auto simp: less_eq_portProto_def split: if_splits)
  show "x \<le> y \<Longrightarrow> y \<le> x \<Longrightarrow> x = y"
    by (auto simp: less_eq_portProto_def intro: portProto.expand split: if_splits)
qed

end

definition reasonDirectIP :: string where
  "reasonDirectIP = ''IP publique directe sans FQDN observ'' @ [CHR 0xC3, CHR 0xA9]"

definition reasonWildcard :: string where
  "reasonWildcard = ''wildcard cloud provider '' @ [CHR 0xE2, CHR 0x80, CHR 0x94] @ '' revue manuelle requise''"

definition entryKey :: "DestEntry \<Rightarrow> fqdnKey" where
  "entryKey e = \<lparr>fk_fqdn = de_DestFQDN e, fk_port = de_DestPort e, fk_proto = de_Protocol e\<rparr>"

text \<open>The loop over the scored entries: the set of names to allow (a Go map to \<^verbatim>\<open>true\<close>) and
  the exclusions so far.\<close>

fun generate_loop :: "ScoredEntry list \<Rightarrow> (fqdnKey \<times> bool) list \<Rightarrow> ExcludedDestination list \<Rightarrow>
    (fqdnKey \<times> bool) list \<times> ExcludedDestination list" where
  "generate_loop [] fqdnGroups excluded = (fqdnGroups, excluded)"
| "generate_loop (se # scored) fqdnGroups excluded =
     (let e = se_Entry se in
      if se_RiskLevel se = ''High'' \<or> IsDirectPublicIP (de_DestFQDN e) (de_DestIP e) then
        let reason = (if IsDirectPublicIP (de_DestFQDN e) (de_DestIP e) then reasonDirectIP else ''risk=High'')
        in generate_loop scored fqdnGroups (excluded @
             [\<lparr>xd_Dest = destHost e @ '':'' @ dec (unat (de_DestPort e)), xd_Risk = RiskHigh, xd_Reason = reason\<rparr>])
      else if de_DestFQDN e \<noteq> [] \<and> WildcardRisk (de_DestFQDN e) = ''Medium'' then
        generate_loop scored fqdnGroups (excluded @
          [\<lparr>xd_Dest = de_DestFQDN e @ '':'' @ dec (unat (de_DestPort e)), xd_Risk = RiskMedium,
            xd_Reason = reasonWildcard\<rparr>])
      else if de_DestFQDN e \<noteq> [] then
        generate_loop scored (AList.update (entryKey e) True fqdnGroups) excluded
      else generate_loop scored fqdnGroups excluded)"

text \<open>The loop that groups the names by port and protocol.\<close>

fun port_loop :: "fqdnKey list \<Rightarrow> (portProto \<times> string list) list \<Rightarrow> (portProto \<times> string list) list" where
  "port_loop [] portFQDNs = portFQDNs"
| "port_loop (k # ks) portFQDNs =
     (let pp = PortProto (fk_port k) (fk_proto k);
          old = (case map_of portFQDNs pp of Some fs \<Rightarrow> fs | None \<Rightarrow> [])
      in port_loop ks (AList.update pp (old @ [fk_fqdn k]) portFQDNs))"

definition fqdn_rules :: "(fqdnKey list \<Rightarrow> fqdnKey list) \<Rightarrow> (portProto list \<Rightarrow> portProto list) \<Rightarrow>
    (fqdnKey \<times> bool) list \<Rightarrow> uval list" where
  "fqdn_rules ordF ordP fqdnGroups =
     (let portFQDNs = port_loop (ordF (map fst fqdnGroups)) [];
          ppKeys = sort (ordP (map fst portFQDNs))
      in map (\<lambda>pp. fqdnEgressRule
             (sort (case map_of portFQDNs pp of Some fs \<Rightarrow> fs | None \<Rightarrow> [])) (pp_port pp) (pp_proto pp)) ppKeys)"

definition Generate :: "(Unstructured \<Rightarrow> string) \<Rightarrow> (fqdnKey list \<Rightarrow> fqdnKey list) \<Rightarrow>
    (portProto list \<Rightarrow> portProto list) \<Rightarrow> string \<Rightarrow> string \<Rightarrow> PolicyConfig \<Rightarrow> Snapshot \<Rightarrow> GenerationResult" where
  "Generate yamlMarshal ordF ordP profileName namespace policy snap =
     (let scored = Build snap;
          cnp = NewCNP (pc_GeneratedPolicyName policy) namespace;
          cnp = (if pc_GeneratedPolicyName policy = []
                 then SetName cnp (profileName @ ''-egress-allowlist'') else cnp);
          cnp = SetEndpointSelector cnp [(''app'', UStr profileName)];
          rules = (if pc_AllowDNS policy then [dnsPolicyRule] else []);
          (fqdnGroups, excluded) = generate_loop scored [] [];
          rules = rules @ fqdn_rules ordF ordP fqdnGroups;
          cnp = SetEgressRules cnp rules;
          yamlStr = yamlMarshal cnp;
          score = AggregateScore (sn_Destinations snap);
          risk = computeOverallRisk scored score
      in \<lparr>gr_CNP = cnp, gr_YAML = yamlStr, gr_ExcludedDestinations = excluded,
          gr_ConfidenceScore = score, gr_RiskLevel = risk\<rparr>)"

end
