(* ===== verification/Kube_Client.thy ===== *)
theory Kube_Client
  imports Policy_Generator
begin

text \<open>
  The Kubernetes API as the operator sees it. \<^verbatim>\<open>sigs.k8s.io/controller-runtime/pkg/client\<close> is
  third-party code, so a client is an argument of the model: a record of the calls the
  operator makes, each of which takes and returns the state \<open>'s\<close> of the outside world. What
  the operator relies on is stated in four locales, each extending the one before:
  \<open>api_client\<close> says what a call can change, \<open>merge_client\<close> that a write has its documented
  effect or none, \<open>fresh_client\<close> that reads see the current objects, \<open>reliable_client\<close> when a
  call succeeds.
\<close>

subsection \<open>Objects\<close>

type_synonym objkey = "string \<times> string"

record ConfigMap =
  cm_Meta :: ObjectMeta
  cm_Data :: "(string \<times> string) list option"

record Pod =
  pod_OwnerReferences :: "OwnerReference list"

record Event =
  ev_Object :: objkey
  ev_Type :: string
  ev_Reason :: string
  ev_Message :: string

abbreviation meta_key :: "ObjectMeta \<Rightarrow> objkey" where
  "meta_key m \<equiv> (om_Namespace m, om_Name m)"

text \<open>Reading a key of a possibly nil Go map.\<close>

definition data_get :: "(string \<times> string) list option \<Rightarrow> string \<Rightarrow> string option" where
  "data_get d k = (case d of None \<Rightarrow> None | Some m \<Rightarrow> map_of m k)"

subsection \<open>Calls\<close>

text \<open>A patch call takes the modified object and the base it was derived from
  (\<^verbatim>\<open>client.MergeFrom\<close>). A successful \<^verbatim>\<open>Create\<close> fills in the object, so the created proposal
  is returned.\<close>

record 's kube_client =
  kc_GetConfigMap :: "'s \<Rightarrow> objkey \<Rightarrow> (go_error + ConfigMap) \<times> 's"
  kc_CreateConfigMap :: "'s \<Rightarrow> ConfigMap \<Rightarrow> go_error option \<times> 's"
  kc_PatchConfigMap :: "'s \<Rightarrow> ConfigMap \<Rightarrow> ConfigMap \<Rightarrow> go_error option \<times> 's"
  kc_GetProfile :: "'s \<Rightarrow> objkey \<Rightarrow> (go_error + EgressProfile) \<times> 's"
  kc_PatchProfileStatus :: "'s \<Rightarrow> EgressProfile \<Rightarrow> EgressProfile \<Rightarrow> go_error option \<times> 's"
  kc_GetProposal :: "'s \<Rightarrow> objkey \<Rightarrow> (go_error + EgressPolicyProposal) \<times> 's"
  kc_CreateProposal :: "'s \<Rightarrow> EgressPolicyProposal \<Rightarrow> (go_error + EgressPolicyProposal) \<times> 's"
  kc_PatchProposalStatus :: "'s \<Rightarrow> EgressPolicyProposal \<Rightarrow> EgressPolicyProposal \<Rightarrow> go_error option \<times> 's"
  kc_GetCNP :: "'s \<Rightarrow> objkey \<Rightarrow> (go_error + Unstructured) \<times> 's"
  kc_CreateCNP :: "'s \<Rightarrow> Unstructured \<Rightarrow> go_error option \<times> 's"
  kc_UpdateCNP :: "'s \<Rightarrow> Unstructured \<Rightarrow> go_error option \<times> 's"
  kc_GetPod :: "'s \<Rightarrow> objkey \<Rightarrow> (go_error + Pod) \<times> 's"
  kc_Eventf :: "'s \<Rightarrow> Event \<Rightarrow> 's"

subsection \<open>What the API server holds\<close>

record api_view =
  av_ConfigMaps :: "objkey \<Rightarrow> ConfigMap option"
  av_Profiles :: "objkey \<Rightarrow> EgressProfile option"
  av_Proposals :: "objkey \<Rightarrow> EgressPolicyProposal option"
  av_CNPs :: "objkey \<Rightarrow> Unstructured option"

text \<open>A merge patch changes the entries in which the object differs from its base and leaves
  the others as the server has them (RFC 7386): for the data of a ConfigMap entry by entry,
  for a status field by field, a list being replaced as a whole.\<close>

definition merged :: "'a \<Rightarrow> 'a \<Rightarrow> 'a \<Rightarrow> 'a" where
  "merged new base cur = (if new = base then cur else new)"

lemma merged_simps [simp]: "merged new base base = new" "merged base base cur = cur"
  by (simp_all add: merged_def)

definition merge_data :: "ConfigMap \<Rightarrow> ConfigMap \<Rightarrow> ConfigMap \<Rightarrow> string \<Rightarrow> string option" where
  "merge_data new base cur k =
     merged (data_get (cm_Data new) k) (data_get (cm_Data base) k) (data_get (cm_Data cur) k)"

definition merge_profile_status :: "EgressProfileStatus \<Rightarrow> EgressProfileStatus \<Rightarrow> EgressProfileStatus \<Rightarrow> EgressProfileStatus" where
  "merge_profile_status n b c =
     \<lparr>pt_Phase = merged (pt_Phase n) (pt_Phase b) (pt_Phase c),
      pt_Conditions = merged (pt_Conditions n) (pt_Conditions b) (pt_Conditions c),
      pt_ObservedDestinationsCount = merged (pt_ObservedDestinationsCount n) (pt_ObservedDestinationsCount b) (pt_ObservedDestinationsCount c),
      pt_Truncated = merged (pt_Truncated n) (pt_Truncated b) (pt_Truncated c),
      pt_LastObservationTime = merged (pt_LastObservationTime n) (pt_LastObservationTime b) (pt_LastObservationTime c),
      pt_BaselineConfigMapRef = merged (pt_BaselineConfigMapRef n) (pt_BaselineConfigMapRef b) (pt_BaselineConfigMapRef c),
      pt_ProposalRef = merged (pt_ProposalRef n) (pt_ProposalRef b) (pt_ProposalRef c),
      pt_RiskSummary = \<lparr>rs_Low = merged (rs_Low (pt_RiskSummary n)) (rs_Low (pt_RiskSummary b)) (rs_Low (pt_RiskSummary c)),
        rs_Medium = merged (rs_Medium (pt_RiskSummary n)) (rs_Medium (pt_RiskSummary b)) (rs_Medium (pt_RiskSummary c)),
        rs_High = merged (rs_High (pt_RiskSummary n)) (rs_High (pt_RiskSummary b)) (rs_High (pt_RiskSummary c))\<rparr>,
      pt_Message = merged (pt_Message n) (pt_Message b) (pt_Message c)\<rparr>"

definition merge_proposal_status :: "EgressPolicyProposalStatus \<Rightarrow> EgressPolicyProposalStatus \<Rightarrow> EgressPolicyProposalStatus \<Rightarrow> EgressPolicyProposalStatus" where
  "merge_proposal_status n b c =
     \<lparr>xt_Phase = merged (xt_Phase n) (xt_Phase b) (xt_Phase c),
      xt_ConfidenceScore = merged (xt_ConfidenceScore n) (xt_ConfidenceScore b) (xt_ConfidenceScore c),
      xt_RiskLevel = merged (xt_RiskLevel n) (xt_RiskLevel b) (xt_RiskLevel c),
      xt_PolicyConfigMapRef = merged (xt_PolicyConfigMapRef n) (xt_PolicyConfigMapRef b) (xt_PolicyConfigMapRef c),
      xt_ExcludedDestinations = merged (xt_ExcludedDestinations n) (xt_ExcludedDestinations b) (xt_ExcludedDestinations c),
      xt_Conditions = merged (xt_Conditions n) (xt_Conditions b) (xt_Conditions c),
      xt_Message = merged (xt_Message n) (xt_Message b) (xt_Message c)\<rparr>"

lemma merge_status_base [simp]:
  "merge_profile_status n b b = n" "merge_proposal_status x y y = x"
  by (simp_all add: merge_profile_status_def merge_proposal_status_def)

subsection \<open>The contracts\<close>

text \<open>Reads and events change nothing that the server holds; a write can change only the
  object it names.\<close>

locale api_client =
  fixes kc :: "'s kube_client" and view :: "'s \<Rightarrow> api_view"
  assumes get_view:
      "view (snd (kc_GetConfigMap kc s k)) = view s" "view (snd (kc_GetProfile kc s k)) = view s"
      "view (snd (kc_GetProposal kc s k)) = view s" "view (snd (kc_GetCNP kc s k)) = view s"
      "view (snd (kc_GetPod kc s k)) = view s" "view (kc_Eventf kc s ev) = view s"
    and create_cm_view: "\<exists>r. view (snd (kc_CreateConfigMap kc s cm)) =
      (view s)\<lparr>av_ConfigMaps := (av_ConfigMaps (view s))(meta_key (cm_Meta cm) := r)\<rparr>"
    and patch_cm_view: "\<exists>r. view (snd (kc_PatchConfigMap kc s cm base)) =
      (view s)\<lparr>av_ConfigMaps := (av_ConfigMaps (view s))(meta_key (cm_Meta cm) := r)\<rparr>"
    and patch_profile_view: "\<exists>r. view (snd (kc_PatchProfileStatus kc s pr prbase)) =
      (view s)\<lparr>av_Profiles := (av_Profiles (view s))(meta_key (pr_Meta pr) := r)\<rparr>"
    and create_proposal_view: "\<exists>r. view (snd (kc_CreateProposal kc s xp)) =
      (view s)\<lparr>av_Proposals := (av_Proposals (view s))(meta_key (xp_Meta xp) := r)\<rparr>"
    and patch_proposal_view: "\<exists>r. view (snd (kc_PatchProposalStatus kc s xp xpbase)) =
      (view s)\<lparr>av_Proposals := (av_Proposals (view s))(meta_key (xp_Meta xp) := r)\<rparr>"
    and create_cnp_view: "\<exists>r. view (snd (kc_CreateCNP kc s cnp)) =
      (view s)\<lparr>av_CNPs := (av_CNPs (view s))(meta_key (un_Meta cnp) := r)\<rparr>"
    and update_cnp_view: "\<exists>r. view (snd (kc_UpdateCNP kc s cnp)) =
      (view s)\<lparr>av_CNPs := (av_CNPs (view s))(meta_key (un_Meta cnp) := r)\<rparr>"
begin

lemma writes_keep:
  "av_Profiles (view (snd (kc_CreateConfigMap kc s cm))) = av_Profiles (view s)"
  "av_Proposals (view (snd (kc_CreateConfigMap kc s cm))) = av_Proposals (view s)"
  "av_CNPs (view (snd (kc_CreateConfigMap kc s cm))) = av_CNPs (view s)"
  "av_Profiles (view (snd (kc_PatchConfigMap kc s cm base))) = av_Profiles (view s)"
  "av_Proposals (view (snd (kc_PatchConfigMap kc s cm base))) = av_Proposals (view s)"
  "av_CNPs (view (snd (kc_PatchConfigMap kc s cm base))) = av_CNPs (view s)"
  "av_ConfigMaps (view (snd (kc_PatchProfileStatus kc s pr prbase))) = av_ConfigMaps (view s)"
  "av_Proposals (view (snd (kc_PatchProfileStatus kc s pr prbase))) = av_Proposals (view s)"
  "av_CNPs (view (snd (kc_PatchProfileStatus kc s pr prbase))) = av_CNPs (view s)"
  "av_ConfigMaps (view (snd (kc_CreateProposal kc s xp))) = av_ConfigMaps (view s)"
  "av_Profiles (view (snd (kc_CreateProposal kc s xp))) = av_Profiles (view s)"
  "av_CNPs (view (snd (kc_CreateProposal kc s xp))) = av_CNPs (view s)"
  "av_ConfigMaps (view (snd (kc_PatchProposalStatus kc s xp xpbase))) = av_ConfigMaps (view s)"
  "av_Profiles (view (snd (kc_PatchProposalStatus kc s xp xpbase))) = av_Profiles (view s)"
  "av_CNPs (view (snd (kc_PatchProposalStatus kc s xp xpbase))) = av_CNPs (view s)"
  "av_ConfigMaps (view (snd (kc_CreateCNP kc s cnp))) = av_ConfigMaps (view s)"
  "av_Profiles (view (snd (kc_CreateCNP kc s cnp))) = av_Profiles (view s)"
  "av_Proposals (view (snd (kc_CreateCNP kc s cnp))) = av_Proposals (view s)"
  "av_ConfigMaps (view (snd (kc_UpdateCNP kc s cnp))) = av_ConfigMaps (view s)"
  "av_Profiles (view (snd (kc_UpdateCNP kc s cnp))) = av_Profiles (view s)"
  "av_Proposals (view (snd (kc_UpdateCNP kc s cnp))) = av_Proposals (view s)"
  using create_cm_view[of s cm]
    patch_cm_view[of s cm base]
    patch_profile_view[of s pr prbase]
    create_proposal_view[of s xp]
    patch_proposal_view[of s xp xpbase]
    create_cnp_view[of s cnp]
    update_cnp_view[of s cnp] by auto

lemma writes_frame:
  "k \<noteq> meta_key (cm_Meta cm) \<Longrightarrow> av_ConfigMaps (view (snd (kc_CreateConfigMap kc s cm))) k = av_ConfigMaps (view s) k"
  "k \<noteq> meta_key (cm_Meta cm) \<Longrightarrow> av_ConfigMaps (view (snd (kc_PatchConfigMap kc s cm base))) k = av_ConfigMaps (view s) k"
  "k \<noteq> meta_key (pr_Meta pr) \<Longrightarrow> av_Profiles (view (snd (kc_PatchProfileStatus kc s pr prbase))) k = av_Profiles (view s) k"
  "k \<noteq> meta_key (xp_Meta xp) \<Longrightarrow> av_Proposals (view (snd (kc_CreateProposal kc s xp))) k = av_Proposals (view s) k"
  "k \<noteq> meta_key (xp_Meta xp) \<Longrightarrow> av_Proposals (view (snd (kc_PatchProposalStatus kc s xp xpbase))) k = av_Proposals (view s) k"
  "k \<noteq> meta_key (un_Meta cnp) \<Longrightarrow> av_CNPs (view (snd (kc_CreateCNP kc s cnp))) k = av_CNPs (view s) k"
  "k \<noteq> meta_key (un_Meta cnp) \<Longrightarrow> av_CNPs (view (snd (kc_UpdateCNP kc s cnp))) k = av_CNPs (view s) k"
  using create_cm_view[of s cm]
    patch_cm_view[of s cm base]
    patch_profile_view[of s pr prbase]
    create_proposal_view[of s xp]
    patch_proposal_view[of s xp xpbase]
    create_cnp_view[of s cnp]
    update_cnp_view[of s cnp] by auto

end

text \<open>A write either fails and changes nothing or has its documented effect; a read that returns
  an object returns one with the key asked for, perhaps out of date (the manager's client
  reads from a cache).\<close>

locale merge_client = api_client +
  assumes create_cm: "fst (kc_CreateConfigMap kc s cm) = None \<Longrightarrow>
        av_ConfigMaps (view s) (meta_key (cm_Meta cm)) = None \<and>
        (\<exists>cm'. av_ConfigMaps (view (snd (kc_CreateConfigMap kc s cm))) (meta_key (cm_Meta cm)) = Some cm'
          \<and> data_get (cm_Data cm') = data_get (cm_Data cm)
          \<and> om_OwnerReferences (cm_Meta cm') = om_OwnerReferences (cm_Meta cm))"
      "fst (kc_CreateConfigMap kc s cm) = Some err \<Longrightarrow> view (snd (kc_CreateConfigMap kc s cm)) = view s"
    and patch_cm: "fst (kc_PatchConfigMap kc s cm base) = None \<Longrightarrow>
        \<exists>cur cm'. av_ConfigMaps (view s) (meta_key (cm_Meta cm)) = Some cur
          \<and> av_ConfigMaps (view (snd (kc_PatchConfigMap kc s cm base))) (meta_key (cm_Meta cm)) = Some cm'
          \<and> data_get (cm_Data cm') = merge_data cm base cur"
      "fst (kc_PatchConfigMap kc s cm base) = Some err \<Longrightarrow> view (snd (kc_PatchConfigMap kc s cm base)) = view s"
    and patch_profile: "fst (kc_PatchProfileStatus kc s pr prbase) = None \<Longrightarrow>
        \<exists>cur pr'. av_Profiles (view s) (meta_key (pr_Meta pr)) = Some cur
          \<and> av_Profiles (view (snd (kc_PatchProfileStatus kc s pr prbase))) (meta_key (pr_Meta pr)) = Some pr'
          \<and> pr_Spec pr' = pr_Spec cur
          \<and> pr_Status pr' = merge_profile_status (pr_Status pr) (pr_Status prbase) (pr_Status cur)"
      "fst (kc_PatchProfileStatus kc s pr prbase) = Some err \<Longrightarrow> view (snd (kc_PatchProfileStatus kc s pr prbase)) = view s"
    and create_proposal: "fst (kc_CreateProposal kc s xp) = Inr xp' \<Longrightarrow>
        av_Proposals (view s) (meta_key (xp_Meta xp)) = None
        \<and> av_Proposals (view (snd (kc_CreateProposal kc s xp))) (meta_key (xp_Meta xp)) = Some xp'
        \<and> meta_key (xp_Meta xp') = meta_key (xp_Meta xp)
        \<and> xp_Spec xp' = xp_Spec xp \<and> xp_Status xp' = xp_Status xp
        \<and> om_OwnerReferences (xp_Meta xp') = om_OwnerReferences (xp_Meta xp)"
      "fst (kc_CreateProposal kc s xp) = Inl err \<Longrightarrow> view (snd (kc_CreateProposal kc s xp)) = view s"
    and patch_proposal: "fst (kc_PatchProposalStatus kc s xp xpbase) = None \<Longrightarrow>
        \<exists>cur xp'. av_Proposals (view s) (meta_key (xp_Meta xp)) = Some cur
          \<and> av_Proposals (view (snd (kc_PatchProposalStatus kc s xp xpbase))) (meta_key (xp_Meta xp)) = Some xp'
          \<and> xp_Spec xp' = xp_Spec cur
          \<and> xp_Status xp' = merge_proposal_status (xp_Status xp) (xp_Status xpbase) (xp_Status cur)"
      "fst (kc_PatchProposalStatus kc s xp xpbase) = Some err \<Longrightarrow> view (snd (kc_PatchProposalStatus kc s xp xpbase)) = view s"
    and create_cnp: "fst (kc_CreateCNP kc s cnp) = None \<Longrightarrow> av_CNPs (view s) (meta_key (un_Meta cnp)) = None \<and>
        (\<exists>cnp'. av_CNPs (view (snd (kc_CreateCNP kc s cnp))) (meta_key (un_Meta cnp)) = Some cnp'
          \<and> un_egress cnp' = un_egress cnp \<and> un_matchLabels cnp' = un_matchLabels cnp
          \<and> om_OwnerReferences (un_Meta cnp') = om_OwnerReferences (un_Meta cnp))"
      "fst (kc_CreateCNP kc s cnp) = Some err \<Longrightarrow> view (snd (kc_CreateCNP kc s cnp)) = view s"
    and update_cnp: "fst (kc_UpdateCNP kc s cnp) = None \<Longrightarrow> av_CNPs (view s) (meta_key (un_Meta cnp)) \<noteq> None \<and>
        (\<exists>cnp'. av_CNPs (view (snd (kc_UpdateCNP kc s cnp))) (meta_key (un_Meta cnp)) = Some cnp'
          \<and> un_egress cnp' = un_egress cnp \<and> un_matchLabels cnp' = un_matchLabels cnp
          \<and> om_OwnerReferences (un_Meta cnp') = om_OwnerReferences (un_Meta cnp))"
      "fst (kc_UpdateCNP kc s cnp) = Some err \<Longrightarrow> view (snd (kc_UpdateCNP kc s cnp)) = view s"
    and get_keyed: "fst (kc_GetConfigMap kc s k) = Inr cm \<Longrightarrow> meta_key (cm_Meta cm) = k"
      "fst (kc_GetProfile kc s k) = Inr pr \<Longrightarrow> meta_key (pr_Meta pr) = k"
      "fst (kc_GetProposal kc s k) = Inr xp \<Longrightarrow> meta_key (xp_Meta xp) = k"

text \<open>Reads return the current object.\<close>

locale fresh_client = merge_client +
  assumes get_cm: "fst (kc_GetConfigMap kc s k) = Inr cm \<Longrightarrow> av_ConfigMaps (view s) k = Some cm"
      "fst (kc_GetConfigMap kc s k) = Inl NotFound \<Longrightarrow> av_ConfigMaps (view s) k = None"
    and get_profile: "fst (kc_GetProfile kc s k) = Inr pr \<Longrightarrow> av_Profiles (view s) k = Some pr"
      "fst (kc_GetProfile kc s k) = Inl NotFound \<Longrightarrow> av_Profiles (view s) k = None"
    and get_proposal: "fst (kc_GetProposal kc s k) = Inr xp \<Longrightarrow> av_Proposals (view s) k = Some xp"
      "fst (kc_GetProposal kc s k) = Inl NotFound \<Longrightarrow> av_Proposals (view s) k = None"
    and get_cnp: "fst (kc_GetCNP kc s k) = Inr cnp \<Longrightarrow> av_CNPs (view s) k = Some cnp"
      "fst (kc_GetCNP kc s k) = Inl NotFound \<Longrightarrow> av_CNPs (view s) k = None"

text \<open>\<open>up s\<close>: the server answers and permits every call, so that a call fails only for a
  reason that the objects give.\<close>

locale reliable_client = fresh_client +
  fixes up :: "'s \<Rightarrow> bool"
  assumes up_get_cm: "up s \<Longrightarrow> av_ConfigMaps (view s) k = Some cm \<Longrightarrow> fst (kc_GetConfigMap kc s k) = Inr cm"
      "up s \<Longrightarrow> av_ConfigMaps (view s) k = None \<Longrightarrow> fst (kc_GetConfigMap kc s k) = Inl NotFound"
    and up_get_profile: "up s \<Longrightarrow> av_Profiles (view s) k = Some pr \<Longrightarrow> fst (kc_GetProfile kc s k) = Inr pr"
    and up_get_proposal: "up s \<Longrightarrow> av_Proposals (view s) k = Some xp \<Longrightarrow> fst (kc_GetProposal kc s k) = Inr xp"
      "up s \<Longrightarrow> av_Proposals (view s) k = None \<Longrightarrow> fst (kc_GetProposal kc s k) = Inl NotFound"
    and up_get_cnp: "up s \<Longrightarrow> av_CNPs (view s) k = Some cnp \<Longrightarrow> fst (kc_GetCNP kc s k) = Inr cnp"
      "up s \<Longrightarrow> av_CNPs (view s) k = None \<Longrightarrow> fst (kc_GetCNP kc s k) = Inl NotFound"
    and up_create: "up s \<Longrightarrow> av_ConfigMaps (view s) (meta_key (cm_Meta cm)) = None \<Longrightarrow> fst (kc_CreateConfigMap kc s cm) = None"
      "up s \<Longrightarrow> av_Proposals (view s) (meta_key (xp_Meta xp)) = None \<Longrightarrow> \<exists>xp'. fst (kc_CreateProposal kc s xp) = Inr xp'"
      "up s \<Longrightarrow> av_CNPs (view s) (meta_key (un_Meta cnp)) = None \<Longrightarrow> fst (kc_CreateCNP kc s cnp) = None"
    and up_patch: "up s \<Longrightarrow> av_ConfigMaps (view s) (meta_key (cm_Meta cm)) \<noteq> None \<Longrightarrow> fst (kc_PatchConfigMap kc s cm base) = None"
      "up s \<Longrightarrow> av_Profiles (view s) (meta_key (pr_Meta pr)) \<noteq> None \<Longrightarrow> fst (kc_PatchProfileStatus kc s pr prbase) = None"
      "up s \<Longrightarrow> av_Proposals (view s) (meta_key (xp_Meta xp)) \<noteq> None \<Longrightarrow> fst (kc_PatchProposalStatus kc s xp xpbase) = None"
    and up_update: "up s \<Longrightarrow> av_CNPs (view s) (meta_key (un_Meta cnp)) = Some old \<Longrightarrow>
        om_ResourceVersion (un_Meta cnp) = om_ResourceVersion (un_Meta old) \<Longrightarrow> fst (kc_UpdateCNP kc s cnp) = None"
    and up_stays:
      "up (snd (kc_GetConfigMap kc s k)) = up s" "up (snd (kc_GetProfile kc s k)) = up s"
      "up (snd (kc_GetProposal kc s k)) = up s" "up (snd (kc_GetCNP kc s k)) = up s"
      "up (snd (kc_CreateConfigMap kc s cm)) = up s" "up (snd (kc_PatchConfigMap kc s cm base)) = up s"
      "up (snd (kc_PatchProfileStatus kc s pr prbase)) = up s" "up (snd (kc_CreateProposal kc s xp)) = up s"
      "up (snd (kc_PatchProposalStatus kc s xp xpbase)) = up s" "up (snd (kc_CreateCNP kc s cnp)) = up s"
      "up (snd (kc_UpdateCNP kc s cnp)) = up s" "up (kc_Eventf kc s ev) = up s"

end
