(* ===== verification/Accumulator_Props.thy ===== *)
theory Accumulator_Props
  imports Accumulator
begin

text \<open>
  The accumulator's invariant, the exact result of ingesting a list of flows, purging and
  flushing, and the interface \<open>snapshot_store\<close> the accumulator relies on: what a store of
  snapshots promises, and what a flush then leaves in it.
\<close>

subsection \<open>Invariant and reference definitions\<close>

definition entry_key :: "DestEntry \<Rightarrow> destKey" where
  "entry_key e = \<lparr>dk_workload = de_Workload e, dk_fqdn = de_DestFQDN e, dk_ip = de_DestIP e,
     dk_port = de_DestPort e, dk_proto = de_Protocol e\<rparr>"

definition acc_inv :: "Accumulator \<Rightarrow> bool" where
  "acc_inv a \<longleftrightarrow> distinct (map fst (acc_entries a)) \<and> length (acc_entries a) \<le> maxDestinations
     \<and> (\<forall>(k, e) \<in> set (acc_entries a). entry_key e = k \<and> 0 \<le> de_Snapshots e)"

definition aggregate :: "destKey \<Rightarrow> Flow list \<Rightarrow> DestEntry" where
  "aggregate k fs =
     (let gs = filter (\<lambda>f. flow_key f = k) fs in
      (new_entry (hd gs))\<lparr>de_LastSeen := fl_Timestamp (last gs),
         de_FlowCount := of_nat (length gs), de_Bytes := sum_list (map fl_Bytes gs)\<rparr>)"

definition bump :: "DestEntry \<Rightarrow> DestEntry" where
  "bump e = e\<lparr>de_Snapshots := de_Snapshots e + 1\<rparr>"

definition bumped :: "Accumulator \<Rightarrow> Accumulator" where
  "bumped a = a\<lparr>acc_entries := map (\<lambda>(k, e). (k, bump e)) (acc_entries a)\<rparr>"

definition flush_groups :: "(destKey list \<Rightarrow> destKey list) \<Rightarrow> Accumulator \<Rightarrow> (string \<times> DestEntry list) list" where
  "flush_groups ord a = snd (group_loop (ord (map fst (acc_entries a))) (acc_entries a) [])"

subsection \<open>Ingest, purge, flush\<close>

lemma aggregate_first:
  assumes "flow_key f \<notin> set (map flow_key fs)"
  shows "aggregate (flow_key f) (fs @ [f]) = new_entry f"
proof -
  have "filter (\<lambda>g. flow_key g = flow_key f) fs = []"
    using assms by (simp add: filter_empty_conv) (metis image_eqI)
  then show ?thesis by (simp add: aggregate_def new_entry_def)
qed

lemma aggregate_again:
  assumes "flow_key f \<in> set (map flow_key fs)"
  shows "aggregate (flow_key f) (fs @ [f]) = (aggregate (flow_key f) fs)
    \<lparr>de_LastSeen := fl_Timestamp f, de_FlowCount := de_FlowCount (aggregate (flow_key f) fs) + 1,
     de_Bytes := de_Bytes (aggregate (flow_key f) fs) + fl_Bytes f\<rparr>"
proof -
  have "filter (\<lambda>g. flow_key g = flow_key f) fs \<noteq> []"
    using assms by (auto simp: filter_empty_conv)
  then show ?thesis by (simp add: aggregate_def Let_def)
qed

lemma aggregate_other: "flow_key f \<noteq> k \<Longrightarrow> aggregate k (fs @ [f]) = aggregate k fs"
  by (simp add: aggregate_def)

lemma ingest_all:
  "acc_entries (fold ingest fs (NewAccumulator w i)) =
     map (\<lambda>k. (k, aggregate k fs)) (take maxDestinations (dedup (map flow_key fs)))"
proof (induction fs rule: rev_induct)
  case Nil
  then show ?case by (simp add: NewAccumulator_def)
next
  case (snoc f fs)
  let ?D = "dedup (map flow_key fs)" and ?k = "flow_key f"
  let ?K = "take maxDestinations ?D"
  have dist: "distinct ?K" by simp
  have upd: "map (\<lambda>k. (k, aggregate k (fs @ [f]))) ks = map (\<lambda>k. (k, aggregate k fs)) ks" if "?k \<notin> set ks" for ks
    using that by (auto intro!: aggregate_other)
  show ?case
  proof (cases "?k \<in> set ?K")
    case True
    then have "?k \<in> set ?D" by (rule in_set_takeD)
    then have in_fs: "?k \<in> set (map flow_key fs)" by simp
    have "aggregate k fs = aggregate k (fs @ [f])" if "k \<noteq> ?k" for k
      using that aggregate_other[of f k fs] by auto
    with True in_fs show ?thesis
      by (simp add: ingest_def[of f] Let_def snoc map_of_map_key update_map_key[OF dist] aggregate_again del: set_map)
  next
    case False
    show ?thesis
    proof (cases "length ?D < maxDestinations")
      case True
      with False have "?k \<notin> set (map flow_key fs)" by simp
      moreover from this have "?k \<notin> fst ` set (map (\<lambda>k. (k, aggregate k fs)) ?D)" by force
      ultimately show ?thesis using True False
        by (simp add: ingest_def[of f] Let_def snoc map_of_map_key update_new_key[of ?k] upd aggregate_first del: set_map)
    next
      case not_less: False
      then have t: "take maxDestinations (dedup (map flow_key (fs @ [f]))) = ?K" by simp
      show ?thesis using not_less False unfolding t
        by (simp add: ingest_def[of f] Let_def snoc map_of_map_key upd min_def)
    qed
  qed
qed

lemma purge_visit_filter:
  assumes "distinct (map fst m)"
  shows "(case map_of m k of Some e \<Rightarrow> if de_LastSeen e < cutoff then AList.delete k m else m | None \<Rightarrow> m)
    = filter (\<lambda>(k', e). \<not> (k' = k \<and> de_LastSeen e < cutoff)) m"
proof -
  have "(k, e) \<in> set m \<longleftrightarrow> map_of m k = Some e" for e
    using assms by simp
  then show ?thesis
    unfolding AList.delete_eq
    by (auto intro!: filter_cong filter_True[symmetric] split: option.split)
qed

lemma purge_loop_filter:
  "distinct (map fst m) \<Longrightarrow>
   purge_loop cutoff ks m = filter (\<lambda>(k, e). \<not> (k \<in> set ks \<and> de_LastSeen e < cutoff)) m"
proof (induction ks arbitrary: m)
  case (Cons k ks)
  then show ?case
    by (simp add: purge_visit_filter distinct_map_filter) (rule filter_cong, auto)
qed simp

lemma purge_filter:
  assumes "map_order ord" "distinct (map fst (acc_entries a))"
  shows "purge ord now a =
    a\<lparr>acc_entries := filter (\<lambda>(k, e). now - acc_window a \<le> de_LastSeen e) (acc_entries a)\<rparr>"
proof -
  have "filter (\<lambda>(k, e). \<not> (k \<in> set (map fst m) \<and> de_LastSeen e < c)) m = filter (\<lambda>(k, e). c \<le> de_LastSeen e) m"
    for c and m :: "(destKey \<times> DestEntry) list"
    by (rule filter_cong) (auto simp: image_iff Bex_def)
  then show ?thesis
    by (simp add: purge_def purge_loop_filter[OF assms(2)] map_orderD(1)[OF assms(1)] Let_def)
qed

lemma map_of_filter_pair:
  "distinct (map fst m) \<Longrightarrow> map_of (filter (\<lambda>(k, e). P e) m) k =
     (case map_of m k of Some e \<Rightarrow> if P e then Some e else None | None \<Rightarrow> None)"
  by (induction m) (force simp: map_of_eq_None_iff split: option.splits)+

lemma acc_inv_New: "acc_inv (NewAccumulator w i)"
  by (simp add: acc_inv_def NewAccumulator_def)

lemma acc_inv_Register: "acc_inv a \<Longrightarrow> acc_inv (RegisterWorkload wk ns cm a)"
  by (simp add: acc_inv_def RegisterWorkload_def)

lemma entry_key_new [simp]: "entry_key (new_entry f) = flow_key f" "de_Snapshots (new_entry f) = 0"
  by (simp_all add: entry_key_def new_entry_def flow_key_def)

lemma entry_key_update [simp]:
  "entry_key (e\<lparr>de_LastSeen := t\<rparr>) = entry_key e" "entry_key (e\<lparr>de_FlowCount := c\<rparr>) = entry_key e"
  "entry_key (e\<lparr>de_Bytes := b\<rparr>) = entry_key e" "entry_key (e\<lparr>de_Snapshots := n\<rparr>) = entry_key e"
  by (simp_all add: entry_key_def)

lemma acc_inv_ingest:
  assumes "acc_inv a"
  shows "acc_inv (ingest f a)"
proof (cases "map_of (acc_entries a) (flow_key f)")
  case None
  then have "flow_key f \<notin> fst ` set (acc_entries a)" by (simp add: map_of_eq_None_iff)
  with assms None show ?thesis
    by (auto simp: acc_inv_def ingest_def update_new_key)
next
  case (Some e)
  have d: "distinct (map fst (acc_entries a))" using assms by (simp add: acc_inv_def)
  from Some have "(flow_key f, e) \<in> set (acc_entries a)" by (rule map_of_SomeD)
  with assms have "entry_key e = flow_key f" "0 \<le> de_Snapshots e" by (auto simp: acc_inv_def)
  with assms Some show ?thesis
    unfolding acc_inv_def ingest_def Let_def
    by (auto simp: update_eq_map[OF d Some] comp_def case_prod_unfold split: if_splits)
qed

lemma acc_inv_filter:
  "acc_inv a \<Longrightarrow> acc_inv (a\<lparr>acc_entries := filter P (acc_entries a)\<rparr>)"
  by (auto simp: acc_inv_def distinct_map_filter intro: le_trans[OF length_filter_le])

lemma acc_inv_purge: "map_order ord \<Longrightarrow> acc_inv a \<Longrightarrow> acc_inv (purge ord now a)"
  by (subst purge_filter) (auto simp: acc_inv_filter acc_inv_def[THEN iffD1])

lemma group_loop_entries:
  assumes "distinct (map fst m)" "distinct ks"
  shows "fst (group_loop ks m bw) = map (\<lambda>(k, e). (k, if k \<in> set ks then bump e else e)) m"
  using assms
proof (induction ks arbitrary: m bw)
  case Nil
  then show ?case by (auto intro: map_idI[symmetric])
next
  case (Cons k ks)
  show ?case
  proof (cases "map_of m k")
    case None
    then have "k \<notin> fst ` set m" by (simp add: map_of_eq_None_iff)
    then show ?thesis using Cons None by (auto simp: rev_image_eqI)
  next
    case (Some e)
    have u: "AList.update k (bump e) m = map (\<lambda>(k', e'). (k', if k' = k then bump e else e')) m"
      using update_eq_map[OF Cons.prems(1) Some] .
    have e: "\<And>e'. (k, e') \<in> set m \<Longrightarrow> e' = e" using Some Cons.prems(1) by auto
    have "distinct (map fst (AList.update k (bump e) m))" using Cons.prems(1) by (rule AList.distinct_update)
    then have "fst (group_loop (k # ks) m bw) =
        map (\<lambda>(k', e'). (k', if k' \<in> set ks then bump e' else e')) (AList.update k (bump e) m)"
      using Cons.IH Cons.prems(2) Some by (simp add: Let_def flip: bump_def)
    also have "\<dots> = map (\<lambda>(k', e'). (k', if k' \<in> set (k # ks) then bump e' else e')) m"
      unfolding u map_map using Cons.prems(2) e by (intro map_cong[OF refl]) auto
    finally show ?thesis .
  qed
qed

lemma group_loop_groups:
  assumes "distinct (map fst m)" "distinct ks" "set ks \<subseteq> fst ` set m"
  shows "map_of (snd (group_loop ks m bw)) wk =
    (let new = map (\<lambda>k. bump (the (map_of m k))) (filter (\<lambda>k. dk_workload k = wk) ks) in
     case map_of bw wk of Some ds \<Rightarrow> Some (ds @ new) | None \<Rightarrow> if new = [] then None else Some new)"
  using assms
proof (induction ks arbitrary: m bw)
  case Nil
  then show ?case by (simp split: option.split)
next
  case (Cons k ks)
  then obtain e where e: "map_of m k = Some e" by (metis insert_subset list.simps(15) map_of_eq_None_iff not_None_eq)
  have d: "distinct (map fst (AList.update k (bump e) m))" using Cons.prems(1) by (rule AList.distinct_update)
  have s: "set ks \<subseteq> fst ` set (AList.update k (bump e) m)"
    using Cons.prems(3) by (auto simp: AList.dom_update)
  have "map (\<lambda>k'. bump (the (map_of (AList.update k (bump e) m) k'))) (filter (\<lambda>k. dk_workload k = wk) ks)
      = map (\<lambda>k. bump (the (map_of m k))) (filter (\<lambda>k. dk_workload k = wk) ks)"
    using Cons.prems(2) by (auto simp: AList.update_conv)
  then show ?case
    using Cons.IH[OF d _ s] Cons.prems(2) e
    by (simp add: Let_def AList.update_conv flip: bump_def split: option.split)
qed

lemma group_loop_distinct: "distinct (map fst bw) \<Longrightarrow> distinct (map fst (snd (group_loop ks m bw)))"
  by (induction ks arbitrary: m bw) (auto simp: Let_def AList.distinct_update split: option.split)

lemma flushSnapshots_eq:
  assumes "map_order ord" "acc_inv a"
  shows "flushSnapshots save ord ordW clock a s =
    (bumped a, save_loop save clock (bumped a) (length (acc_entries a) \<ge> maxDestinations)
       (flush_groups ord a) (ordW (map fst (flush_groups ord a))) s)"
proof -
  have "distinct (map fst (acc_entries a))" using assms by (simp add: acc_inv_def)
  then have "fst (group_loop (ord (map fst (acc_entries a))) (acc_entries a) []) = map (\<lambda>(k, e). (k, bump e)) (acc_entries a)"
    using map_orderD[OF assms(1)] by (subst group_loop_entries) (force intro!: map_cong)+
  then show ?thesis
    by (simp add: flushSnapshots_def flush_groups_def bumped_def case_prod_beta Let_def)
qed

lemma bumped_simps [simp]:
  "acc_workloadNS (bumped a) = acc_workloadNS a" "acc_configMapName (bumped a) = acc_configMapName a"
  "acc_window (bumped a) = acc_window a"
  by (simp_all add: bumped_def)

lemma acc_inv_bumped: "acc_inv a \<Longrightarrow> acc_inv (bumped a)"
  by (force simp: acc_inv_def bumped_def bump_def comp_def case_prod_unfold)

lemma flush_groups_lookup:
  assumes "map_order ord" "acc_inv a"
  shows "map_of (flush_groups ord a) wk =
    (let ds = map (\<lambda>k. bump (the (map_of (acc_entries a) k)))
                (filter (\<lambda>k. dk_workload k = wk) (ord (map fst (acc_entries a))))
     in if ds = [] then None else Some ds)"
  using assms unfolding flush_groups_def acc_inv_def
  by (subst group_loop_groups) (auto simp: map_orderD Let_def)

lemma flush_groups_key:
  assumes "map_order ord" "acc_inv a"
  shows "wk \<in> set (map fst (flush_groups ord a)) \<longleftrightarrow> (\<exists>(k, e) \<in> set (acc_entries a). dk_workload k = wk)"
proof -
  have "wk \<in> set (map fst (flush_groups ord a)) \<longleftrightarrow> map_of (flush_groups ord a) wk \<noteq> None"
    by (simp add: map_of_eq_None_iff)
  also have "\<dots> \<longleftrightarrow> (\<exists>k \<in> set (map fst (acc_entries a)). dk_workload k = wk)"
    unfolding flush_groups_lookup[OF assms] by (auto simp: Let_def filter_empty_conv map_orderD[OF assms(1)])
  finally show ?thesis by force
qed

lemma flush_groups_distinct: "distinct (map fst (flush_groups ord a))"
  by (simp add: flush_groups_def group_loop_distinct)

lemma acc_inv_start_loop:
  assumes "map_order ord" "acc_inv a"
  shows "acc_inv (fst (start_loop save ord ordW evs a s))"
  using assms
proof (induction save ord ordW evs a s rule: start_loop.induct)
  case (4 save ord ordW now clock evs a s)
  have "acc_inv (fst (flushSnapshots save ord ordW clock (purge ord now a) s))"
    using 4 by (simp add: flushSnapshots_eq acc_inv_purge acc_inv_bumped)
  then show ?case using 4 by (simp split: prod.split) (metis fst_conv)
qed (simp_all add: acc_inv_ingest acc_inv_Register)

subsection \<open>The snapshot store interface\<close>

text \<open>
  \<open>stored s ns n\<close> is what a store in state \<open>s\<close> holds under a name, \<open>avail s ns n\<close> says that
  a save to it succeeds, \<open>image\<close> is the stored form of a snapshot (none when it cannot be
  encoded).
\<close>

locale snapshot_store =
  fixes save :: "'s save_fn"
    and stored :: "'s \<Rightarrow> string \<Rightarrow> string \<Rightarrow> 'd option"
    and avail :: "'s \<Rightarrow> string \<Rightarrow> string \<Rightarrow> bool"
    and image :: "Snapshot \<Rightarrow> 'd option"
  assumes save_ok: "avail s ns n \<Longrightarrow> image snap = Some d \<Longrightarrow> stored (snd (save s ns n snap)) ns n = Some d"
    and save_frame: "(ns', n') \<noteq> (ns, n) \<Longrightarrow> stored (snd (save s ns n snap)) ns' n' = stored s ns' n'"
    and save_avail: "avail (snd (save s ns n snap)) ns' n' = avail s ns' n'"
begin

lemma save_loop_other:
  assumes "\<And>wk. wk \<in> set wks \<Longrightarrow> (gget (acc_workloadNS a) wk, gget (acc_configMapName a) wk) \<noteq> (ns, n)"
  shows "stored (save_loop save clock a truncated bw wks s) ns n = stored s ns n"
  using assms
proof (induction wks arbitrary: s)
  case (Cons w wks)
  then have "stored (snd (save s (gget (acc_workloadNS a) w) (gget (acc_configMapName a) w) snap)) ns n
      = stored s ns n" for snap
    by (intro save_frame) (metis list.set_intros(1))
  moreover have "stored (save_loop save clock a truncated bw wks t) ns n = stored t ns n" for t
    by (rule Cons.IH) (use Cons.prems in auto)
  ultimately show ?case by (simp add: Let_def)
qed simp

lemma save_loop_own:
  assumes "wk \<in> set wks" "distinct wks"
    and "gget (acc_workloadNS a) wk = ns" "gget (acc_configMapName a) wk = n" "ns \<noteq> []" "n \<noteq> []"
    and "\<And>wk'. wk' \<in> set wks \<Longrightarrow> (gget (acc_workloadNS a) wk', gget (acc_configMapName a) wk') = (ns, n) \<Longrightarrow> wk' = wk"
    and "avail s ns n" "map_of bw wk = Some ds"
    and "image \<lparr>sn_WorkloadKey = wk, sn_Destinations = ds, sn_Truncated = truncated, sn_GeneratedAt = clock wk\<rparr> = Some d"
  shows "stored (save_loop save clock a truncated bw wks s) ns n = Some d"
  using assms(1,2,7,8)
proof (induction wks arbitrary: s)
  case (Cons w wks)
  show ?case
  proof (cases "w = wk")
    case True
    then have "stored (save_loop save clock a truncated bw wks t) ns n = stored t ns n" for t
    proof (intro save_loop_other notI)
      fix wk' assume w: "wk' \<in> set wks"
        and e: "(gget (acc_workloadNS a) wk', gget (acc_configMapName a) wk') = (ns, n)"
      have "wk' = wk" by (rule Cons.prems(3)[OF _ e]) (simp add: w)
      with w True Cons.prems(2) show False by simp
    qed
    then show ?thesis using True assms(3-6,9,10) Cons.prems(4) by (simp add: Let_def save_ok)
  next
    case False
    have IH: "stored (save_loop save clock a truncated bw wks t) ns n = Some d"
      if "avail t ns n" for t
    proof (rule Cons.IH)
      show "wk \<in> set wks" "distinct wks" using Cons.prems(1,2) False by simp_all
      show "wk' = wk" if "wk' \<in> set wks"
        "(gget (acc_workloadNS a) wk', gget (acc_configMapName a) wk') = (ns, n)" for wk'
        by (rule Cons.prems(3)[OF _ that(2)]) (simp add: that(1))
    qed (rule that)
    then show ?thesis using Cons.prems(4) by (simp add: Let_def save_avail)
  qed
qed simp

lemma flush_avail: "avail (snd (flushSnapshots save ord ordW clock a s)) ns n = avail s ns n"
proof -
  have "avail (save_loop save clock a truncated bw wks s) ns n = avail s ns n" for a truncated bw wks s
    by (induction wks arbitrary: s) (auto simp: Let_def save_avail)
  then show ?thesis by (simp add: flushSnapshots_def Let_def split: prod.split)
qed

lemma flush_untouched:
  assumes ord: "map_order ord" "map_order ordW" and inv: "acc_inv a"
    and other: "\<And>k e. (k, e) \<in> set (acc_entries a) \<Longrightarrow>
       (gget (acc_workloadNS a) (dk_workload k), gget (acc_configMapName a) (dk_workload k)) \<noteq> (ns, n)"
  shows "stored (snd (flushSnapshots save ord ordW clock a s)) ns n = stored s ns n"
  unfolding flushSnapshots_eq[OF ord(1) inv] snd_conv
proof (rule save_loop_other)
  fix wk assume "wk \<in> set (ordW (map fst (flush_groups ord a)))"
  then obtain k e where "(k, e) \<in> set (acc_entries a)" "dk_workload k = wk"
    using flush_groups_key[OF ord(1) inv] by (auto simp: map_orderD[OF ord(2)])
  with other show "(gget (acc_workloadNS (bumped a)) wk, gget (acc_configMapName (bumped a)) wk) \<noteq> (ns, n)"
    by fastforce
qed

lemma flush_saved:
  assumes ord: "map_order ord" "map_order ordW" and inv: "acc_inv a"
    and reg: "gget (acc_workloadNS a) wk = ns" "gget (acc_configMapName a) wk = n" "ns \<noteq> []" "n \<noteq> []"
    and only: "\<And>k e. (k, e) \<in> set (acc_entries a) \<Longrightarrow>
       (gget (acc_workloadNS a) (dk_workload k), gget (acc_configMapName a) (dk_workload k)) = (ns, n) \<Longrightarrow>
       dk_workload k = wk"
    and seen: "(k0, e0) \<in> set (acc_entries a)" "dk_workload k0 = wk"
    and snap: "snap = \<lparr>sn_WorkloadKey = wk,
       sn_Destinations = map (\<lambda>k. bump (the (map_of (acc_entries a) k)))
         (filter (\<lambda>k. dk_workload k = wk) (ord (map fst (acc_entries a)))),
       sn_Truncated = (length (acc_entries a) \<ge> maxDestinations), sn_GeneratedAt = clock wk\<rparr>"
    and ok: "avail s ns n" "image snap = Some d"
  shows "stored (snd (flushSnapshots save ord ordW clock a s)) ns n = Some d"
proof -
  note keys = flush_groups_key[OF ord(1) inv] map_orderD[OF ord(2)]
  have look: "map_of (flush_groups ord a) wk = Some (sn_Destinations snap)"
    using flush_groups_lookup[OF ord(1) inv, of wk] seen map_orderD(1)[OF ord(1)]
    by (force simp: Let_def snap filter_empty_conv)
  have s: "snap = \<lparr>sn_WorkloadKey = wk, sn_Destinations = sn_Destinations snap,
      sn_Truncated = length (acc_entries a) \<ge> maxDestinations, sn_GeneratedAt = clock wk\<rparr>"
    by (simp add: snap)
  show ?thesis
    unfolding flushSnapshots_eq[OF ord(1) inv] snd_conv
  proof (rule save_loop_own)
    show "wk \<in> set (ordW (map fst (flush_groups ord a)))"
      using seen keys by force
    show "distinct (ordW (map fst (flush_groups ord a)))"
      using flush_groups_distinct keys by blast
    show "wk' = wk" if "wk' \<in> set (ordW (map fst (flush_groups ord a)))"
      "(gget (acc_workloadNS (bumped a)) wk', gget (acc_configMapName (bumped a)) wk') = (ns, n)" for wk'
    proof -
      note w = that(1)
      obtain k e where "(k, e) \<in> set (acc_entries a)" "dk_workload k = wk'"
        using w unfolding keys(2) keys(1) by auto
      then show ?thesis using only that(2) by simp
    qed
  qed (use reg ok look arg_cong[OF s, of image] in simp_all)
qed

end

subsection \<open>Properties\<close>

text \<open>C15: whatever flows, ticks and registrations arrive, in whatever order the maps are
  visited and whatever the store answers, the accumulator holds at most 500 destinations,
  under pairwise distinct keys, each entry filed under its own key. It panics at the start
  exactly when the snapshot interval is not positive.\<close>

theorem accumulator_invariant:
  assumes "map_order ord"
  shows "if i \<le> 0 then Start save ord ordW evs (NewAccumulator w i) s = Panics
    else \<exists>a' s'. Start save ord ordW evs (NewAccumulator w i) s = Returns (a', s') \<and> acc_inv a'"
  using acc_inv_start_loop[OF assms acc_inv_New, of save ordW evs w i s]
  by (cases "start_loop save ord ordW evs (NewAccumulator w i) s") (simp add: Start_def NewAccumulator_def)

theorem accumulator_invariant_witness:
  "\<exists>a' s'. Start (\<lambda>s ns n snap. (None, snap # s)) rev rev
     [Registered ''p/D/a'' ''p'' ''cm'', FlowReceived (zero_Flow\<lparr>fl_Timestamp := 5\<rparr>),
      TickerFired 10 (\<lambda>_. 10)] (NewAccumulator 100 30) [] = Returns (a', s') \<and> acc_inv a'"
  using accumulator_invariant[of rev 30 "\<lambda>s ns n snap. (None, snap # s)" rev
     "[Registered ''p/D/a'' ''p'' ''cm'', FlowReceived (zero_Flow\<lparr>fl_Timestamp := 5\<rparr>), TickerFired 10 (\<lambda>_. 10)]" 100 "[]"] by simp

text \<open>C24: ingesting a list of flows into a new accumulator files exactly the first 500 distinct
  destinations, in order of appearance; each entry has the first and last timestamp of its
  flows, their number and their bytes (both modulo \<open>2 ^ 64\<close>).\<close>

theorem ingest_aggregates:
  "acc_entries (fold ingest fs (NewAccumulator w i)) =
     map (\<lambda>k. (k, aggregate k fs)) (take 500 (dedup (map flow_key fs)))"
  using ingest_all[of fs w i] by (simp add: maxDestinations_def)

text \<open>C26: a purge keeps exactly the entries last seen within the window, unchanged, and its
  result does not depend on the order in which the map is visited.\<close>

theorem purge_keeps_window:
  assumes "map_order ord" "map_order ord'" "acc_inv a"
  shows "map_of (acc_entries (purge ord now a)) k =
      (case map_of (acc_entries a) k of
         Some e \<Rightarrow> if now - acc_window a \<le> de_LastSeen e then Some e else None | None \<Rightarrow> None)
    \<and> purge ord now a = purge ord' now a"
proof -
  have d: "distinct (map fst (acc_entries a))" using assms(3) by (simp add: acc_inv_def)
  show ?thesis
    unfolding purge_filter[OF assms(1) d] purge_filter[OF assms(2) d]
    by (simp add: map_of_filter_pair[OF d] split: option.split)
qed

theorem purge_keeps_window_witness:
  "acc_inv (ingest (zero_Flow\<lparr>fl_Timestamp := 5\<rparr>) (NewAccumulator 10 30)) \<and>
   purge rev 16 (ingest (zero_Flow\<lparr>fl_Timestamp := 5\<rparr>) (NewAccumulator 10 30)) =
   purge (\<lambda>ks. ks) 16 (ingest (zero_Flow\<lparr>fl_Timestamp := 5\<rparr>) (NewAccumulator 10 30))"
proof -
  have h: "acc_inv (ingest (zero_Flow\<lparr>fl_Timestamp := 5\<rparr>) (NewAccumulator 10 30))"
    by (intro acc_inv_ingest acc_inv_New)
  show ?thesis using h purge_keeps_window[OF _ _ h, of rev "\<lambda>ks. ks" 16] by simp
qed

end
