(* ===== verification/Flow_Sources.thy ===== *)
theory Flow_Sources
  imports Hubble_Wire Kube_Client Accumulator_Props
begin

text \<open>
  Where flows come from: \<^verbatim>\<open>flowsource.go\<close> (the interface), \<^verbatim>\<open>hubble_grpc.go\<close> (the streaming loop),
  \<^verbatim>\<open>mock.go\<close>, \<^verbatim>\<open>workload.go\<close> and the choice made in \<^verbatim>\<open>cmd/main.go\<close>. The gRPC connection is third-party code: what its calls
  return is a script that the loop consumes, and likewise for the choices of a \<^verbatim>\<open>select\<close> with
  the cancellation of the context.
\<close>

subsection \<open>flowsource.go\<close>

text \<open>A source consumes what happens around it and yields the flows it has sent and, once it has
  returned, its result: a nil error or an error.\<close>

type_synonym 'e FlowSource = "'e list \<Rightarrow> (Flow list \<times> go_error option option) comp"

text \<open>What the interface promises: a source that is told of the cancellation while it runs returns
  without an error, and what has been sent stays sent.\<close>

locale flow_source =
  fixes observe :: "'e FlowSource" and cancels :: "'e \<Rightarrow> bool"
  assumes cancellation_is_no_error: "observe evs = ret (fs, None) \<Longrightarrow> cancels e \<Longrightarrow> observe (evs @ e # rest) = ret (fs, Some None)"
    and returned_is_final: "observe evs = ret (fs, Some r) \<Longrightarrow> observe (evs @ rest) = ret (fs, Some r)"
begin

lemma error_before_cancellation:
  assumes "observe evs = ret (fs, r)" "cancels e" "observe (evs @ e # rest) = ret (fs', Some (Some err))"
  shows "r = Some (Some err) \<and> fs' = fs"
  using assms cancellation_is_no_error returned_is_final by (cases r) fastforce+

end

subsection \<open>hubble_grpc.go: Observe\<close>

text \<open>The message type of the stream hands its bytes over as they are.\<close>

record rawProtoMsg =
  rm_data :: "byte list"

definition rawProtoMsg_Reset :: "rawProtoMsg \<Rightarrow> rawProtoMsg" where
  "rawProtoMsg_Reset r = r"

definition rawProtoMsg_String :: "rawProtoMsg \<Rightarrow> string" where
  "rawProtoMsg_String r = []"

definition rawProtoMsg_Marshal :: "rawProtoMsg \<Rightarrow> go_error + byte list" where
  "rawProtoMsg_Marshal r = Inr (rm_data r)"

definition rawProtoMsg_Unmarshal :: "byte list \<Rightarrow> rawProtoMsg \<Rightarrow> go_error option \<times> rawProtoMsg" where
  "rawProtoMsg_Unmarshal b r = (None, r\<lparr>rm_data := b\<rparr>)"

definition rawProtoMsg_Size :: "rawProtoMsg \<Rightarrow> nat" where
  "rawProtoMsg_Size r = length (rm_data r)"

lemma rawProtoMsg_simps [simp]:
  "rawProtoMsg_Marshal r = Inr (rm_data r)" "rm_data (snd (rawProtoMsg_Unmarshal b r)) = b"
  "rawProtoMsg_Size r = length (rm_data r)"
  by (simp_all add: rawProtoMsg_Marshal_def rawProtoMsg_Unmarshal_def rawProtoMsg_Size_def)

text \<open>One turn of the loop: \<^verbatim>\<open>RecvMsg\<close> fails (with the end of the stream, with the context
  cancelled, or otherwise), or delivers a message; then the flow is sent, or the
  cancellation wins.\<close>

datatype stream_event =
    is_RecvFails: RecvFails (is_EOF: bool) (ctx_cancelled: bool) go_error
  | Received "byte list" int (send_cancelled: bool)

fun observe_loop :: "string \<Rightarrow> stream_event list \<Rightarrow> (Flow list \<times> go_error option option) comp" where
  "observe_loop Namespace [] = ret ([], None)"
| "observe_loop Namespace (RecvFails eof cancelled err # evs) =
     (if eof \<or> cancelled then ret ([], Some None) else ret ([], Some (Some (Wrapped ''recv flow'' err))))"
| "observe_loop Namespace (Received data now cancelled # evs) =
     go_bind (observe_message Namespace now (rm_data (snd (rawProtoMsg_Unmarshal data \<lparr>rm_data = []\<rparr>)))) (\<lambda>r. case r of
       None \<Rightarrow> observe_loop Namespace evs
     | Some f \<Rightarrow>
         if cancelled then ret ([], Some None)
         else go_bind (observe_loop Namespace evs) (\<lambda>(fs, res). ret (f # fs, res)))"

record HubbleGRPCFlowSource =
  hs_Address :: string
  hs_Namespace :: string

definition NewHubbleGRPCFlowSource :: "string \<Rightarrow> string \<Rightarrow> HubbleGRPCFlowSource" where
  "NewHubbleGRPCFlowSource address namespace = \<lparr>hs_Address = address, hs_Namespace = namespace\<rparr>"

record grpc_script =
  gs_Dial :: "go_error option"
  gs_NewStream :: "go_error option"
  gs_SendMsg :: "rawProtoMsg \<Rightarrow> go_error option"
  gs_CloseSend :: "go_error option"
  gs_Stream :: "stream_event list"

definition Hubble_Observe :: "HubbleGRPCFlowSource \<Rightarrow> grpc_script \<Rightarrow> (Flow list \<times> go_error option option) comp" where
  "Hubble_Observe h g =
     (case gs_Dial g of
        Some err \<Rightarrow> ret ([], Some (Some (Wrapped (''dial hubble relay '' @ hs_Address h) err)))
      | None \<Rightarrow>
      (let reqBytes = buildGetFlowsRequest in
       case gs_NewStream g of
        Some err \<Rightarrow> ret ([], Some (Some (Wrapped ''open GetFlows stream'' err)))
      | None \<Rightarrow>
      (case gs_SendMsg g \<lparr>rm_data = reqBytes\<rparr> of
        Some err \<Rightarrow> ret ([], Some (Some (Wrapped ''send GetFlows request'' err)))
      | None \<Rightarrow>
      (case gs_CloseSend g of
        Some err \<Rightarrow> ret ([], Some (Some (Wrapped ''close send'' err)))
      | None \<Rightarrow> observe_loop (hs_Namespace h) (gs_Stream g)))))"

subsection \<open>mock.go\<close>

record MockFlowSource =
  ms_Flows :: "Flow list"
  ms_Interval :: int

definition mock_flow :: "int \<Rightarrow> string \<Rightarrow> string \<Rightarrow> u64 \<Rightarrow> Flow" where
  "mock_flow now fqdn ip bytes =
     \<lparr>fl_SourceNamespace = ''payment'', fl_SourcePod = ''payment-api-7d6f9c-abc12'',
      fl_SourceWorkload = ''Deployment/payment-api'', fl_DestFQDN = fqdn, fl_DestIP = ip, fl_DestPort = 443,
      fl_Protocol = ''TCP'', fl_Verdict = ''FORWARDED'', fl_Bytes = bytes, fl_Timestamp = now\<rparr>"

definition NewMockFlowSource :: "int \<Rightarrow> MockFlowSource" where
  "NewMockFlowSource now = \<lparr>ms_Flows =
     [mock_flow now ''api.stripe.com'' ''54.187.174.169'' 2048,
      mock_flow now ''login.microsoftonline.com'' ''20.190.144.130'' 1024,
      mock_flow now [] ''8.8.8.8'' 512,
      mock_flow now ''storage.googleapis.com'' ''142.250.80.48'' 8192],
     ms_Interval = 5000000000\<rparr>"

text \<open>The two \<^verbatim>\<open>select\<close>s of the loop: the context is done, or the flow is sent (stamped with the
  clock) or the interval has passed. \<open>rest\<close> is what is left of the round.\<close>

datatype mock_choice = CtxIsDone | Proceeds int

fun mock_observe :: "Flow list \<Rightarrow> Flow list \<Rightarrow> mock_choice list \<Rightarrow> Flow list \<times> go_error option option" where
  "mock_observe flows rest [] = ([], None)"
| "mock_observe flows rest (CtxIsDone # cs) = ([], Some None)"
| "mock_observe flows (f # rest) (Proceeds now # cs) = (let (fs, r) = mock_observe flows rest cs in (f\<lparr>fl_Timestamp := now\<rparr> # fs, r))"
| "mock_observe flows [] (Proceeds now # cs) = mock_observe flows flows cs"

definition Mock_Observe :: "MockFlowSource \<Rightarrow> mock_choice FlowSource" where
  "Mock_Observe m cs = ret (mock_observe (ms_Flows m) (ms_Flows m) cs)"

subsection \<open>workload.go\<close>

definition resolveOwner :: "OwnerReference list \<Rightarrow> string \<Rightarrow> string" where
  "resolveOwner owners fallback =
     (case owners of [] \<Rightarrow> fallback | topRef # _ \<Rightarrow> or_Kind topRef @ ''/'' @ or_Name topRef)"

definition ResolveWorkload :: "'s kube_client \<Rightarrow> 's \<Rightarrow> string \<Rightarrow> string \<Rightarrow> string \<times> 's" where
  "ResolveWorkload kc s namespace podName =
     (case kc_GetPod kc s (namespace, podName) of
        (Inl err, s) \<Rightarrow> (''Pod/'' @ podName, s)
      | (Inr pod, s) \<Rightarrow> (resolveOwner (pod_OwnerReferences pod) (''Pod/'' @ podName), s))"

record OwnerRef =
  ow_Kind :: string
  ow_Name :: string

definition ResolveWorkloadFromOwners :: "string \<Rightarrow> string \<Rightarrow> OwnerRef list \<Rightarrow> string" where
  "ResolveWorkloadFromOwners namespace podName ownerRefs =
     (case ownerRefs of [] \<Rightarrow> ''Pod/'' @ podName | topRef # _ \<Rightarrow> ow_Kind topRef @ ''/'' @ ow_Name topRef)"

subsection \<open>main.go\<close>

text \<open>\<^verbatim>\<open>os.Getenv\<close> is an argument; it yields the empty string for a variable that is not set.\<close>

definition envOrDefault :: "(string \<Rightarrow> string) \<Rightarrow> string \<Rightarrow> string \<Rightarrow> string" where
  "envOrDefault getenv key def = (if getenv key \<noteq> [] then getenv key else def)"

datatype flow_source = HubbleSource HubbleGRPCFlowSource | MockSource MockFlowSource

definition choose_source :: "string \<Rightarrow> string \<Rightarrow> int \<Rightarrow> flow_source" where
  "choose_source flowSource hubbleAddr now =
     (if flowSource = ''hubble'' then HubbleSource (NewHubbleGRPCFlowSource hubbleAddr [])
      else MockSource (NewMockFlowSource now))"

text \<open>The accumulator's window is the constant 24 hours, in nanoseconds.\<close>

definition main_accumulator :: "int \<Rightarrow> Accumulator" where
  "main_accumulator snapshotInterval = NewAccumulator (24 * 60 * 60 * 1000000000) snapshotInterval"

subsection \<open>What the sources emit\<close>

text \<open>A response carries a namespace, and it passes the source's filter.\<close>

definition passes :: "string \<Rightarrow> hubble_flow \<Rightarrow> bool" where
  "passes Namespace h \<longleftrightarrow> hf_namespace h \<noteq> [] \<and> (Namespace = [] \<or> string_of_bytes (hf_namespace h) = Namespace)"

lemma observe_message_encoded:
  assumes "wf_hubble_flow h"
  shows "observe_message Namespace now (encode_response h) =
    ret (if passes Namespace h then Some (flow_of now h) else None)"
  by (simp add: observe_message_def decodeGetFlowsResponse_encoded[OF assms] flow_of_def passes_def)

lemma observe_loop_encoded:
  assumes "\<And>h now. (h, now) \<in> set hs \<Longrightarrow> wf_hubble_flow h" "observe_loop Namespace evs = ret (fs, res)"
  shows "observe_loop Namespace (map (\<lambda>(h, now). Received (encode_response h) now False) hs @ evs) =
    ret (map (\<lambda>(h, now). flow_of now h) (filter (\<lambda>(h, now). passes Namespace h) hs) @ fs, res)"
  using assms
proof (induction hs)
  case (Cons x hs)
  obtain h now where x: "x = (h, now)" by (cases x)
  have "wf_hubble_flow h" by (rule Cons.prems(1)[of h now]) (simp add: x)
  moreover have "observe_loop Namespace (map (\<lambda>(h, now). Received (encode_response h) now False) hs @ evs) =
    ret (map (\<lambda>(h, now). flow_of now h) (filter (\<lambda>(h, now). passes Namespace h) hs) @ fs, res)"
    by (rule Cons.IH) (use Cons.prems in auto)
  ultimately show ?case by (simp add: x observe_message_encoded)
qed simp

text \<open>The mock source repeats its flows in order.\<close>

lemma mock_observe_flows: "set (map (\<lambda>f. f\<lparr>fl_Timestamp := 0\<rparr>) (fst (mock_observe flows rest cs))) \<subseteq>
    (\<lambda>f. f\<lparr>fl_Timestamp := 0\<rparr>) ` (set flows \<union> set rest)"
  by (induction flows rest cs rule: mock_observe.induct) (auto simp: image_subset_iff split: prod.splits)

lemma mock_observe_round:
  "length nows \<ge> length rest \<Longrightarrow> \<exists>gs. fst (mock_observe flows rest (map Proceeds nows)) =
     map (\<lambda>(f, now). f\<lparr>fl_Timestamp := now\<rparr>) (zip rest nows) @ gs"
proof (induction rest arbitrary: nows)
  case (Cons f rest)
  then obtain now nows' where n: "nows = now # nows'" by (cases nows) auto
  with Cons.IH[of nows'] Cons.prems show ?case by (auto split: prod.splits)
qed simp

text \<open>More of the stream continues a loop that runs, and changes nothing of one that has returned.\<close>

lemma observe_loop_append:
  "observe_loop ns evs = ret (fs, r) \<Longrightarrow> observe_loop ns (evs @ rest) =
     (case r of None \<Rightarrow> go_bind (observe_loop ns rest) (\<lambda>(gs, r). ret (fs @ gs, r)) | Some r' \<Rightarrow> ret (fs, Some r'))"
proof (induction ns evs arbitrary: fs r rule: observe_loop.induct)
  case (1 ns)
  then show ?case by (cases "observe_loop ns rest"; cases "the (observe_loop ns rest)"; auto)
next
  case (2 ns eof cancelled err evs)
  then show ?case by (auto split: if_splits)
next
  case (3 ns data now cancelled evs)
  obtain x where x: "observe_message ns now data = ret x" using 3(3) by (auto simp: go_bind_ret)
  show ?case
  proof (cases x)
    case None
    then show ?thesis using 3(1) 3(3) x by simp
  next
    case (Some f)
    show ?thesis
    proof (cases cancelled)
      case True
      then show ?thesis using 3(3) x Some by auto
    next
      case False
      then obtain gs where "observe_loop ns evs = ret (gs, r)" "fs = f # gs" using 3(3) x Some by (auto simp: go_bind_ret)
      then show ?thesis
        using 3(2)[OF False, of gs r] x Some False by (auto simp: go_bind_assoc case_prod_beta split: option.split)
    qed
  qed
qed

lemma mock_observe_append:
  "mock_observe flows left evs = (fs, r) \<Longrightarrow>
   (case r of None \<Rightarrow> mock_observe flows left (evs @ CtxIsDone # rest) = (fs, Some None)
    | Some r' \<Rightarrow> mock_observe flows left (evs @ rest) = (fs, Some r'))"
  by (induction flows left evs arbitrary: fs rule: mock_observe.induct) (auto split: prod.splits option.splits)

interpretation hubble: flow_source "observe_loop ns" "\<lambda>e. is_RecvFails e \<and> ctx_cancelled e"
proof
  fix evs fs e rest
  assume "observe_loop ns evs = ret (fs, None)" "is_RecvFails e \<and> ctx_cancelled e"
  then show "observe_loop ns (evs @ e # rest) = ret (fs, Some None)"
    using observe_loop_append[of ns evs fs None "e # rest"] by (cases e) auto
qed (simp add: observe_loop_append)

interpretation mock: flow_source "Mock_Observe m" "\<lambda>e. e = CtxIsDone"
  using mock_observe_append by unfold_locales (force simp: Mock_Observe_def)+

subsection \<open>Properties\<close>

definition demo_hubble :: hubble_flow where
  "demo_hubble = \<lparr>hf_namespace = [112], hf_pod = [97], hf_ip = [56], hf_name = [], hf_l4 = Some (True, 443),
     hf_verdict = 3, hf_query = Some [99]\<rparr>"

lemma demo_hubble_ok: "wf_hubble_flow demo_hubble" "passes ''p'' demo_hubble"
  by (simp_all add: demo_hubble_def wf_hubble_flow_def encode_response_def flow_fields_def l4_fields_def dns_fields_def
    string_of_bytes_def encode_field.simps uvarint.simps char_of_def bit_0 passes_def)



end
