(* ===== verification/Go_Time.thy ===== *)
theory Go_Time
  imports Prelude "HOL-Library.Monad_Syntax"
begin

text \<open>
  What the operator uses of the standard package \<^verbatim>\<open>time\<close>: the calendar, and the text of a
  \<^verbatim>\<open>time.Time\<close> in JSON (\<^verbatim>\<open>Time.MarshalJSON\<close>, \<^verbatim>\<open>Time.UnmarshalJSON\<close>: RFC 3339 with nanoseconds).
  A time is its instant, in nanoseconds from the Unix epoch; its location is an argument
  \<open>zone\<close>, the offset from UTC in seconds at an instant.
\<close>

subsection \<open>The calendar\<close>

text \<open>Days are counted from 1 March of year 0 of the proleptic Gregorian calendar, so that a leap
  day is the last day of its year.\<close>

definition unix_day :: int where
  "unix_day = 719468"

definition march_year :: "int \<Rightarrow> int \<times> int" where
  "march_year d =
     (let n400 = d div 146097; r = d mod 146097;
          n100 = min 3 (r div 36524); r = r - 36524 * n100;
          n4 = r div 1461; r = r - 1461 * n4;
          n1 = min 3 (r div 365)
      in (400 * n400 + 100 * n100 + 4 * n4 + n1, r - 365 * n1))"

definition days_before :: "int \<Rightarrow> int" where
  "days_before y = 365 * y + y div 4 - y div 100 + y div 400"

definition month_start :: "int \<Rightarrow> int" where
  "month_start mp = (153 * mp + 2) div 5"

definition is_leap :: "int \<Rightarrow> bool" where
  "is_leap y \<longleftrightarrow> y mod 4 = 0 \<and> (y mod 100 \<noteq> 0 \<or> y mod 400 = 0)"

definition daysIn :: "int \<Rightarrow> int \<Rightarrow> int" where
  "daysIn m y = (if m = 2 then if is_leap y then 29 else 28 else if m \<in> {4, 6, 9, 11} then 30 else 31)"

text \<open>Year, month and day of a day number, and back.\<close>

definition civil :: "int \<Rightarrow> int \<times> int \<times> int" where
  "civil d =
     (let (y, yday) = march_year d; mp = (5 * yday + 2) div 153
      in (if mp < 10 then y else y + 1, if mp < 10 then mp + 3 else mp - 9, yday - month_start mp + 1))"

definition day_number :: "int \<Rightarrow> int \<Rightarrow> int \<Rightarrow> int" where
  "day_number y m d =
     (let y' = (if m \<le> 2 then y - 1 else y); mp = (if m \<le> 2 then m + 9 else m - 3)
      in days_before y' + month_start mp + d - 1)"

lemma div_bounds:
  fixes k x :: int
  assumes "0 < k"
  shows "k * (x div k) \<le> x" "x < k * (x div k) + k"
  using mult_div_mod_eq[of k x] pos_mod_bound[OF assms, of x] pos_mod_sign[OF assms, of x] by linarith+

lemma march_year_bounds:
  assumes "march_year d = (y, yday)"
  shows "days_before y + yday = d" "0 \<le> yday" "yday \<le> 365" "yday = 365 \<Longrightarrow> is_leap (y + 1)"
proof -
  define n where "n = d div 146097"
  define r where "r = d mod 146097"
  define a where "a = min 3 (r div 36524)"
  define r2 where "r2 = r - 36524 * a"
  define b where "b = r2 div 1461"
  define r3 where "r3 = r2 - 1461 * b"
  define c where "c = min 3 (r3 div 365)"
  have d: "d = 146097 * n + r" "0 \<le> r" "r \<le> 146096" by (simp_all add: n_def r_def)
  have a: "0 \<le> a" "a \<le> 3" "0 \<le> r2" "r2 \<le> (if a = 3 then 36524 else 36523)"
    using d(2,3) unfolding a_def r2_def by (auto simp: min_def)
  have b: "0 \<le> b" "b \<le> 24" "0 \<le> r3" "r3 \<le> 1460"
    using a(3,4) unfolding b_def r3_def by (auto split: if_splits)
  have b24: "b = 24 \<Longrightarrow> a \<noteq> 3 \<Longrightarrow> r3 \<le> 1459" using a(4) by (simp add: r3_def)
  have "c = 3 \<and> 3 \<le> r3 div 365 \<or> c = r3 div 365 \<and> c < 3" unfolding c_def min_def by auto
  then have c: "0 \<le> c" "c \<le> 3" "0 \<le> r3 - 365 * c" "r3 - 365 * c \<le> 365" "r3 - 365 * c = 365 \<Longrightarrow> c = 3 \<and> r3 = 1460"
    using b(3,4) div_bounds[of 365 r3] by (elim disjE conjE; linarith)+
  have y: "y = 400 * n + 100 * a + 4 * b + c" "yday = r3 - 365 * c"
    using assms unfolding march_year_def Let_def n_def[symmetric] r_def[symmetric] a_def[symmetric] r2_def[symmetric]
      b_def[symmetric] r3_def[symmetric] c_def[symmetric] by auto
  have div: "y div 4 = 100 * n + 25 * a + b" "y div 100 = 4 * n + a" "y div 400 = n"
    using a(1,2) b(1,2) c(1,2) y(1)
      int_div_pos_eq[of y 4 "100 * n + 25 * a + b" c] int_div_pos_eq[of y 100 "4 * n + a" "4 * b + c"]
      int_div_pos_eq[of y 400 n "100 * a + 4 * b + c"] by simp_all
  show "days_before y + yday = d"
    unfolding days_before_def div using d(1) y r3_def r2_def by linarith
  show "0 \<le> yday" "yday \<le> 365" using c by (simp_all add: y)
  assume "yday = 365"
  then have "c = 3" "r3 = 1460" using c(5) y by simp_all
  then have b_a: "b = 24 \<Longrightarrow> a = 3" using b24 by fastforce
  have "y + 1 = 4 * (100 * n + 25 * a + b + 1)" using \<open>c = 3\<close> y by simp
  then have four: "(y + 1) mod 4 = 0" by simp
  show "is_leap (y + 1)"
  proof (cases "b = 24")
    case True
    then have "y + 1 = 400 * (n + 1)" using b_a \<open>c = 3\<close> y by simp
    then show ?thesis using four by (simp add: is_leap_def)
  next
    case False
    have "y + 1 = 4 * (b + 1) + 100 * (4 * n + a)" using \<open>c = 3\<close> y by simp
    then have "(y + 1) mod 100 = 4 * (b + 1) mod 100" by (simp only: mod_mult_self2)
    also have "\<dots> = 4 * (b + 1)" by (rule mod_pos_pos_trivial) (use b False in auto)
    finally show ?thesis using four b(1) by (simp add: is_leap_def)
  qed
qed

lemma month_cases:
  assumes "0 \<le> yday" "yday \<le> 365" "mp = (5 * yday + 2) div 153"
  shows "0 \<le> mp" "mp \<le> 11" "month_start mp \<le> yday" "yday < month_start (mp + 1)"
proof -
  have q: "153 * mp \<le> 5 * yday + 2" "5 * yday + 2 < 153 * mp + 153"
    unfolding assms(3) by (rule div_bounds, simp)+
  show "0 \<le> mp" "mp \<le> 11" using q assms(1,2) by linarith+
  have "5 * month_start mp \<le> 153 * mp + 2" "153 * (mp + 1) + 2 < 5 * month_start (mp + 1) + 5"
    unfolding month_start_def by (rule div_bounds, simp)+
  then show "month_start mp \<le> yday" "yday < month_start (mp + 1)" using q by (linarith, presburger)
qed

lemma daysIn_month_start:
  assumes "0 \<le> mp" "mp \<le> 11" "m = (if mp < 10 then mp + 3 else mp - 9)" "m \<noteq> 2"
  shows "month_start (mp + 1) - month_start mp = daysIn m y"
proof -
  have "mp = 0 \<or> mp = 1 \<or> mp = 2 \<or> mp = 3 \<or> mp = 4 \<or> mp = 5 \<or> mp = 6 \<or> mp = 7 \<or> mp = 8 \<or> mp = 9 \<or> mp = 10 \<or> mp = 11"
    using assms(1,2) by presburger
  then show ?thesis using assms(3,4) by (elim disjE) (simp_all add: month_start_def daysIn_def)
qed

lemma civil_valid:
  assumes "civil n = (y, m, d)"
  shows "1 \<le> m" "m \<le> 12" "1 \<le> d" "d \<le> daysIn m y" "day_number y m d = n"
proof -
  obtain y0 yday where my: "march_year n = (y0, yday)" by (cases "march_year n")
  note b = march_year_bounds[OF my]
  define mp where "mp = (5 * yday + 2) div 153"
  note mc = month_cases[OF b(2,3) mp_def]
  have ymd: "y = (if mp < 10 then y0 else y0 + 1)" "m = (if mp < 10 then mp + 3 else mp - 9)" "d = yday - month_start mp + 1"
    using assms unfolding civil_def my Let_def prod.case mp_def[symmetric] by auto
  show m: "1 \<le> m" "m \<le> 12" and "1 \<le> d" using mc by (auto simp: ymd)
  show "d \<le> daysIn m y"
  proof (cases "m = 2")
    case True
    then have mp: "mp = 11" using mc(1) by (auto simp: ymd(2) split: if_splits)
    then have "d \<le> 29 \<and> (d = 29 \<longrightarrow> yday = 365)" using b(3) by (simp add: ymd month_start_def)
    moreover have "y = y0 + 1" using mp by (simp add: ymd)
    ultimately show ?thesis using b(4) True by (auto simp: daysIn_def)
  next
    case False
    then show ?thesis using daysIn_month_start[OF mc(1,2) ymd(2) False, of y] mc(4) by (simp add: ymd(3))
  qed
  show "day_number y m d = n"
    using mc(1,2) b(1) by (auto simp: day_number_def ymd)
qed

subsection \<open>Decimal fields\<close>

definition is_digit :: "char \<Rightarrow> bool" where
  "is_digit c \<longleftrightarrow> 48 \<le> (of_char c :: nat) \<and> of_char c \<le> (57 :: nat)"

text \<open>A number in at least \<open>k\<close> digits; a field of exactly \<open>k\<close> digits with a value in a range.\<close>

definition pad :: "nat \<Rightarrow> nat \<Rightarrow> string" where
  "pad k n = replicate (k - length (dec n)) (CHR ''0'') @ dec n"

definition digits :: "nat \<Rightarrow> nat \<Rightarrow> nat \<Rightarrow> string \<Rightarrow> (nat \<times> string) option" where
  "digits k lo hi s =
     (let v = undec (take k s) 0 in
      if k \<le> length s \<and> list_all is_digit (take k s) \<and> lo \<le> v \<and> v \<le> hi then Some (v, drop k s) else None)"

fun lit :: "char \<Rightarrow> string \<Rightarrow> string option" where
  "lit c [] = None"
| "lit c (x # xs) = (if x = c then Some xs else None)"

lemma dec_is_digit: "list_all is_digit (dec n)"
  using dec_digits by (auto simp: list_all_iff is_digit_def)

lemma is_digit_simps [simp]:
  "is_digit (CHR ''0'')" "\<not> is_digit (CHR ''.'')" "\<not> is_digit (CHR ''Z'')" "\<not> is_digit (CHR ''+'')" "\<not> is_digit (CHR ''-'')"
  by (simp_all add: is_digit_def)

lemma pad_is_digit: "list_all is_digit (pad k n)"
  by (simp add: pad_def dec_is_digit list_all_iff[of _ "replicate _ _"])

lemma undec_zeros: "undec (replicate j (CHR ''0'') @ s) 0 = undec s 0"
  by (induction j) simp_all

lemma undec_pad [simp]: "undec (pad k n) 0 = n"
  by (simp add: pad_def undec_zeros undec_dec)

lemma length_dec: "n < 10 ^ k \<Longrightarrow> 0 < k \<Longrightarrow> length (dec n) \<le> k"
proof (induction n arbitrary: k rule: dec.induct)
  case (1 n)
  show ?case
  proof (cases "n < 10")
    case True
    then show ?thesis using 1(3) by (simp add: dec.simps[of n])
  next
    case False
    obtain k' where k: "k = Suc k'" using 1(3) by (cases k) auto
    then have "n div 10 < 10 ^ k'" using 1(2) by (simp add: less_mult_imp_div_less mult.commute)
    moreover from this have "0 < k'" using False by (cases k') auto
    ultimately show ?thesis using 1(1)[OF False, of k'] False by (simp add: dec.simps[of n] k)
  qed
qed

lemma length_pad: "n < 10 ^ k \<Longrightarrow> 0 < k \<Longrightarrow> length (pad k n) = k"
  using length_dec by (simp add: pad_def)

lemma digits_pad: "n < 10 ^ k \<Longrightarrow> 0 < k \<Longrightarrow> lo \<le> n \<Longrightarrow> n \<le> hi \<Longrightarrow> digits k lo hi (pad k n @ s) = Some (n, s)"
  by (simp add: digits_def length_pad pad_is_digit)

subsection \<open>RFC 3339\<close>

definition second :: int where "second = 1000000000"
definition day :: int where "day = 86400 * second"

text \<open>The fraction of a second without its trailing zeros, and nothing for none.\<close>

definition frac_text :: "nat \<Rightarrow> string" where
  "frac_text ns = (if ns = 0 then [] else CHR ''.'' # rev (dropWhile (\<lambda>c. c = CHR ''0'') (rev (pad 9 ns))))"

definition zone_text :: "int \<Rightarrow> string" where
  "zone_text off =
     (if off = 0 then ''Z''
      else let z = nat \<bar>off\<bar> div 60 in (if off \<le> -60 then ''-'' else ''+'') @ pad 2 (z div 60) @ '':'' @ pad 2 (z mod 60))"

definition time_text :: "(int \<Rightarrow> int) \<Rightarrow> int \<Rightarrow> string" where
  "time_text zone t =
     (let l = t + zone t * second; (y, m, d) = civil (l div day + unix_day); ns = l mod day; s = nat (ns div second)
      in pad 4 (nat y) @ ''-'' @ pad 2 (nat m) @ ''-'' @ pad 2 (nat d) @ ''T'' @ pad 2 (s div 3600) @ '':'' @ pad 2 (s div 60 mod 60)
         @ '':'' @ pad 2 (s mod 60) @ frac_text (nat (ns mod second)) @ zone_text (zone t))"

text \<open>\<^verbatim>\<open>MarshalJSON\<close> refuses a year outside 0 to 9999 and an offset of a day or more; the result is
  the text between the quotes.\<close>

definition time_MarshalJSON :: "(int \<Rightarrow> int) \<Rightarrow> int \<Rightarrow> go_error + string" where
  "time_MarshalJSON zone t =
     (let (y, _, _) = civil ((t + zone t * second) div day + unix_day) in
      if y < 0 \<or> 9999 < y then Inl (JsonError ''Time.MarshalJSON: year outside of range [0,9999]'')
      else if 24 * 3600 \<le> \<bar>zone t\<bar> then Inl (JsonError ''Time.MarshalJSON: timezone hour outside of range [0,23]'')
      else Inr (time_text zone t))"

definition parse_frac :: "string \<Rightarrow> nat \<times> string" where
  "parse_frac s =
     (case lit (CHR ''.'') s of
        None \<Rightarrow> (0, s)
      | Some r \<Rightarrow>
          let ds = takeWhile is_digit r in
          if ds = [] then (0, s) else (undec (take 9 ds) 0 * 10 ^ (9 - length ds), dropWhile is_digit r))"

definition parse_zone :: "string \<Rightarrow> int option" where
  "parse_zone s =
     (if s = ''Z'' then Some 0
      else case s of
        [] \<Rightarrow> None
      | sign # s \<Rightarrow> do {
          (hr, s) \<leftarrow> digits 2 0 23 s;
          s \<leftarrow> lit (CHR '':'') s;
          (mm, s) \<leftarrow> digits 2 0 59 s;
          if s \<noteq> [] \<or> sign \<noteq> CHR ''+'' \<and> sign \<noteq> CHR ''-'' then None
          else Some ((if sign = CHR ''-'' then -1 else 1) * int ((hr * 60 + mm) * 60))
        })"

definition parse_time :: "string \<Rightarrow> int option" where
  "parse_time s = do {
     (y, s) \<leftarrow> digits 4 0 9999 s;
     s \<leftarrow> lit (CHR ''-'') s;
     (m, s) \<leftarrow> digits 2 1 12 s;
     s \<leftarrow> lit (CHR ''-'') s;
     (d, s) \<leftarrow> digits 2 1 (nat (daysIn (int m) (int y))) s;
     s \<leftarrow> lit (CHR ''T'') s;
     (h, s) \<leftarrow> digits 2 0 23 s;
     s \<leftarrow> lit (CHR '':'') s;
     (mi, s) \<leftarrow> digits 2 0 59 s;
     s \<leftarrow> lit (CHR '':'') s;
     (sec, s) \<leftarrow> digits 2 0 59 s;
     let (ns, s) = parse_frac s;
     off \<leftarrow> parse_zone s;
     Some ((day_number (int y) (int m) (int d) - unix_day) * day + (int ((h * 60 + mi) * 60 + sec) - off) * second + int ns)
   }"

lemma undec_strip:
  "undec (rev (dropWhile (\<lambda>c. c = CHR ''0'') (rev ds))) v * 10 ^ (length ds - length (dropWhile (\<lambda>c. c = CHR ''0'') (rev ds)))
   = undec ds v"
proof (induction ds arbitrary: v rule: rev_induct)
  case (snoc c ds)
  have "length (dropWhile (\<lambda>c. c = CHR ''0'') (rev ds)) \<le> length ds" by (metis length_dropWhile_le length_rev)
  then show ?case using snoc.IH[of v] by (auto simp: undec_append Suc_diff_le)
qed simp

lemma parse_frac_text:
  assumes "ns < 10 ^ 9" "s = [] \<or> \<not> is_digit (hd s)" "s = [] \<or> hd s \<noteq> CHR ''.''"
  shows "parse_frac (frac_text ns @ s) = (ns, s)"
proof (cases "ns = 0")
  case True
  then show ?thesis using assms(3) by (cases s) (auto simp: frac_text_def parse_frac_def)
next
  case False
  define ds where "ds = rev (dropWhile (\<lambda>c. c = CHR ''0'') (rev (pad 9 ns)))"
  have v: "undec ds 0 * 10 ^ (9 - length ds) = ns"
    using undec_strip[of "pad 9 ns" 0] length_pad[OF assms(1)] by (simp add: ds_def)
  have "length ds \<le> 9" unfolding ds_def by (metis length_dropWhile_le length_rev length_pad[OF assms(1)] zero_less_numeral)
  moreover have "ds \<noteq> []" using v False by auto
  moreover have "list_all is_digit ds"
    using pad_is_digit[of 9 ns] by (auto simp: ds_def list_all_iff dest: set_dropWhileD)
  then have "takeWhile is_digit (ds @ s) = ds" "dropWhile is_digit (ds @ s) = s"
    using assms(2) by (cases s; auto simp: list_all_iff takeWhile_append2)+
  ultimately show ?thesis using False v by (simp add: frac_text_def parse_frac_def flip: ds_def)
qed

lemma parse_zone_text:
  assumes "\<bar>off\<bar> < 24 * 3600" "off mod 60 = 0"
  shows "parse_zone (zone_text off) = Some off"
proof (cases "off = 0")
  case True
  then show ?thesis by (simp add: zone_text_def parse_zone_def)
next
  case False
  define z where "z = nat \<bar>off\<bar> div 60"
  have z: "\<bar>off\<bar> = 60 * int z"
    using assms(2) by (auto simp: z_def zdiv_int abs_if nat_mult_distrib)
  have "z < 24 * 60" using assms(1) z by linarith
  then have h: "z div 60 \<le> 23" "z mod 60 \<le> 59" by auto
  have d: "digits 2 0 23 (pad 2 (z div 60) @ r) = Some (z div 60, r)" "digits 2 0 59 (pad 2 (z mod 60)) = Some (z mod 60, [])" for r
    using digits_pad[of "z div 60" 2 0 23 r] digits_pad[of "z mod 60" 2 0 59 "[]"] h by simp_all
  have hm: "int ((z div 60 * 60 + z mod 60) * 60) = \<bar>off\<bar>" using z by simp
  have sg: "off \<le> -60 \<longleftrightarrow> off < 0" using z False by presburger
  show ?thesis
    using False hm sg by (auto simp: zone_text_def parse_zone_def Let_def d simp flip: z_def)
qed

lemma parse_time_text:
  assumes "civil ((t + zone t * second) div day + unix_day) = (y, m, d)" "0 \<le> y" "y \<le> 9999"
    and "\<bar>zone t\<bar> < 24 * 3600" "zone t mod 60 = 0"
  shows "parse_time (time_text zone t) = Some t"
proof -
  define l where "l = t + zone t * second"
  define ns where "ns = l mod day"
  define s where "s = nat (ns div second)"
  note c = civil_valid[OF assms(1)[folded l_def]]
  have ns: "0 \<le> ns" "ns < day" by (simp_all add: ns_def day_def second_def)
  have s: "s < 86400" "ns = int s * second + ns mod second"
    using ns pos_imp_zdiv_nonneg_iff[of second ns] by (simp_all add: s_def day_def second_def nat_less_iff)
  have "s div 3600 = s div 60 div 60" by (simp flip: div_mult2_eq)
  then have hms: "s div 3600 \<le> 23" "s div 60 mod 60 \<le> 59" "s mod 60 \<le> 59" "(s div 3600 * 60 + s div 60 mod 60) * 60 + s mod 60 = s"
    using s(1) by (simp_all only: div_mult_mod_eq)
  have dm: "daysIn m y \<le> 31" by (simp add: daysIn_def)
  let ?z = "zone_text (zone t)"
  have fz: "parse_frac (frac_text (nat (ns mod second)) @ ?z) = (nat (ns mod second), ?z)"
    by (rule parse_frac_text) (auto simp: second_def zone_text_def Let_def nat_less_iff)
  have f: "digits 4 0 9999 (pad 4 (nat y) @ r) = Some (nat y, r)" "digits 2 1 12 (pad 2 (nat m) @ r) = Some (nat m, r)"
    "digits 2 1 (nat (daysIn m y)) (pad 2 (nat d) @ r) = Some (nat d, r)" "digits 2 0 23 (pad 2 (s div 3600) @ r) = Some (s div 3600, r)"
    "digits 2 0 59 (pad 2 (s div 60 mod 60) @ r) = Some (s div 60 mod 60, r)"
    "digits 2 0 59 (pad 2 (s mod 60) @ r) = Some (s mod 60, r)" for r
    by (rule digits_pad; use assms(2,3) c dm hms in \<open>simp add: nat_less_iff nat_mono\<close>)+
  have text_eq: "time_text zone t = pad 4 (nat y) @ ''-'' @ pad 2 (nat m) @ ''-'' @ pad 2 (nat d) @ ''T'' @ pad 2 (s div 3600) @ '':''
      @ pad 2 (s div 60 mod 60) @ '':'' @ pad 2 (s mod 60) @ frac_text (nat (ns mod second)) @ ?z"
    unfolding time_text_def Let_def l_def[symmetric] ns_def[symmetric] s_def[symmetric] assms(1)[folded l_def] prod.case ..
  have nat: "int (nat y) = y" "int (nat m) = m" "int (nat d) = d" "int (nat (ns mod second)) = ns mod second"
    using assms(2) c by (simp_all add: second_def)
  have "parse_time (time_text zone t) = Some ((day_number y m d - unix_day) * day + (int s - zone t) * second + ns mod second)"
    unfolding text_eq parse_time_def Let_def
    by (simp only: f fz nat parse_zone_text[OF assms(4,5)] hms(4) append.simps lit.simps prod.case if_True simp_thms Option.bind.simps)
  also have "day_number y m d - unix_day = l div day" using c(5) by simp
  also have "(l div day) * day + (int s - zone t) * second + ns mod second = t"
    using s(2) div_mult_mod_eq[of l day, folded ns_def] l_def by (simp only: left_diff_distrib)
  finally show ?thesis .
qed

text \<open>What \<^verbatim>\<open>MarshalJSON\<close> accepts is read back as the same instant, if the offset has no seconds
  (which the text cannot express).\<close>

lemma parse_marshal_time:
  assumes "time_MarshalJSON zone t = Inr x" "zone t mod 60 = 0"
  shows "parse_time x = Some t"
proof -
  obtain y m d where c: "civil ((t + zone t * second) div day + unix_day) = (y, m, d)"
    by (cases "civil ((t + zone t * second) div day + unix_day)")
  then have "x = time_text zone t" "0 \<le> y" "y \<le> 9999" "\<bar>zone t\<bar> < 24 * 3600"
    using assms(1) by (auto simp: time_MarshalJSON_def split: if_splits)
  then show ?thesis using parse_time_text[of t zone y m d, OF c] assms(2) by simp
qed

end
