(* ===== verification/Go_Duration.thy ===== *)
theory Go_Duration
  imports Go_Time
begin

text \<open>
  \<^verbatim>\<open>time.ParseDuration\<close> of the Go standard library, as \<^verbatim>\<open>cmd/main.go\<close> uses it: a duration in
  nanoseconds, or \<open>None\<close> when the text is refused (the operator only tests the error for nil).
  The sums are those of \<^verbatim>\<open>uint64\<close>. A fraction is computed in \<^verbatim>\<open>float64\<close>: a positive double is
  a pair of numerator and denominator rounded to 53 bits. Exponents are not bounded here; they
  leave the range of \<^verbatim>\<open>float64\<close> only for fractions far below a nanosecond, which are cut to 0
  in both.
\<close>

subsection \<open>Positive doubles\<close>

fun bit_len :: "nat \<Rightarrow> nat" where
  "bit_len n = (if n = 0 then 0 else Suc (bit_len (n div 2)))"

declare bit_len.simps [simp del]

definition half_even :: "nat \<Rightarrow> nat \<Rightarrow> nat" where
  "half_even n d = (let q = n div d; r = n mod d in if 2 * r < d \<or> (2 * r = d \<and> even q) then q else q + 1)"

definition times_two_to :: "int \<Rightarrow> nat \<times> nat \<Rightarrow> nat \<times> nat" where
  "times_two_to e x = (if 0 \<le> e then (fst x * 2 ^ nat e, snd x) else (fst x, snd x * 2 ^ nat (- e)))"

definition round53 :: "nat \<times> nat \<Rightarrow> nat \<times> nat" where
  "round53 x =
     (if fst x = 0 then (0, 1)
      else let e = int (bit_len (fst x)) - int (bit_len (snd x)) - 53;
               y = times_two_to (- e) x;
               e = (if 2 ^ 53 * snd y \<le> fst y then e + 1 else e);
               y = times_two_to (- e) x
           in times_two_to e (half_even (fst y) (snd y), 1))"

definition fmul :: "nat \<times> nat \<Rightarrow> nat \<times> nat \<Rightarrow> nat \<times> nat" where
  "fmul x y = round53 (fst x * fst y, snd x * snd y)"

definition fdiv :: "nat \<times> nat \<Rightarrow> nat \<times> nat \<Rightarrow> nat \<times> nat" where
  "fdiv x y = round53 (fst x * snd y, snd x * fst y)"

subsection \<open>ParseDuration\<close>

definition digit_val :: "char \<Rightarrow> nat" where
  "digit_val c = of_char c - 48"

fun leadingInt :: "nat \<Rightarrow> string \<Rightarrow> (nat \<times> string) option" where
  "leadingInt x [] = Some (x, [])"
| "leadingInt x (c # s) =
     (if \<not> is_digit c then Some (x, c # s)
      else if x > 2 ^ 63 div 10 then None
      else let x = x * 10 + digit_val c in if x > 2 ^ 63 then None else leadingInt x s)"

fun leadingFraction :: "nat \<Rightarrow> nat \<times> nat \<Rightarrow> bool \<Rightarrow> string \<Rightarrow> nat \<times> (nat \<times> nat) \<times> string" where
  "leadingFraction x scale overflow [] = (x, scale, [])"
| "leadingFraction x scale overflow (c # s) =
     (if \<not> is_digit c then (x, scale, c # s)
      else if overflow then leadingFraction x scale overflow s
      else if x > (2 ^ 63 - 1) div 10 then leadingFraction x scale True s
      else let y = x * 10 + digit_val c in
           if y > 2 ^ 63 then leadingFraction x scale True s
           else leadingFraction y (fmul scale (10, 1)) overflow s)"

text \<open>The micro sign and the Greek letter mu, in UTF-8, are accepted for \<^verbatim>\<open>u\<close>.\<close>

definition unitMap :: "(string \<times> nat) list" where
  "unitMap = [(''ns'', 1), (''us'', 1000), ([CHR 0xC2, CHR 0xB5, CHR ''s''], 1000), ([CHR 0xCE, CHR 0xBC, CHR ''s''], 1000),
     (''ms'', 1000000), (''s'', 1000000000), (''m'', 60000000000), (''h'', 3600000000000)]"

abbreviation unit_char :: "char \<Rightarrow> bool" where
  "unit_char c \<equiv> \<not> (c = CHR ''.'' \<or> is_digit c)"

text \<open>One number with its unit.\<close>

definition duration_item :: "string \<Rightarrow> (nat \<times> string) option" where
  "duration_item s =
     (if \<not> (s \<noteq> [] \<and> (hd s = CHR ''.'' \<or> is_digit (hd s))) then None
      else case leadingInt 0 s of
        None \<Rightarrow> None
      | Some (v, s1) \<Rightarrow>
          (let pre = (length s \<noteq> length s1);
               (f, scale, s2, post) =
                 (if s1 \<noteq> [] \<and> hd s1 = CHR ''.''
                  then (let (f, scale, s2) = leadingFraction 0 (1, 1) False (tl s1) in (f, scale, s2, length (tl s1) \<noteq> length s2))
                  else (0, (1, 1), s1, False))
           in if \<not> pre \<and> \<not> post then None
              else let u = takeWhile unit_char s2; s3 = dropWhile unit_char s2 in
              if u = [] then None
              else case map_of unitMap u of
                None \<Rightarrow> None
              | Some unit \<Rightarrow>
                  if v > 2 ^ 63 div unit then None
                  else let v = v * unit;
                           v = (if f > 0 then v + (case fmul (round53 (f, 1)) (fdiv (unit, 1) scale) of (n, d) \<Rightarrow> n div d) else v)
                       in if f > 0 \<and> v > 2 ^ 63 then None else Some (v, s3)))"

lemma leadingInt_length: "leadingInt x s = Some (v, r) \<Longrightarrow> length r \<le> length s"
  by (induction x s rule: leadingInt.induct) (auto simp: Let_def split: if_splits)

lemma leadingFraction_length: "leadingFraction x scale ov s = (f, sc, r) \<Longrightarrow> length r \<le> length s"
  by (induction x scale ov s rule: leadingFraction.induct) (auto simp: Let_def split: if_splits)

lemma dropWhile_shorter: "takeWhile P s \<noteq> [] \<Longrightarrow> length (dropWhile P s) < length s"
  by (cases s) (auto simp: le_imp_less_Suc length_dropWhile_le split: if_splits)

lemma duration_item_shorter:
  assumes "duration_item s = Some (v, r)"
  shows "length r < length s"
proof -
  obtain w s1 where 1: "leadingInt 0 s = Some (w, s1)"
    using assms by (auto simp: duration_item_def split: if_splits option.splits)
  have *: "length (dropWhile unit_char s2) < length s" if "length s2 \<le> length s1" "takeWhile unit_char s2 \<noteq> []" for s2
    using dropWhile_shorter[OF that(2)] leadingInt_length[OF 1] that(1) by linarith
  show ?thesis
  proof (cases "s1 \<noteq> [] \<and> hd s1 = CHR ''.''")
    case True
    obtain f sc s2 where 2: "leadingFraction 0 (1, 1) False (tl s1) = (f, sc, s2)" by (cases "leadingFraction 0 (1, 1) False (tl s1)")
    have "length s2 \<le> length s1" using leadingFraction_length[OF 2] by simp
    then show ?thesis using assms 1 2 True *[of s2] by (auto simp: duration_item_def Let_def split: if_splits option.splits)
  next
    case False
    then show ?thesis using assms 1 *[of s1] by (auto simp: duration_item_def Let_def split: if_splits option.splits)
  qed
qed

function duration_loop :: "nat \<Rightarrow> string \<Rightarrow> nat option" where
  "duration_loop d s =
     (if s = [] then Some d
      else case duration_item s of
        None \<Rightarrow> None
      | Some (v, r) \<Rightarrow> (let d = (d + v) mod 2 ^ 64 in if d > 2 ^ 63 then None else duration_loop d r))"
  by pat_completeness auto

termination
  by (relation "measure (\<lambda>(d, s). length s)") (auto dest: duration_item_shorter)

declare duration_loop.simps [simp del]

definition ParseDuration :: "string \<Rightarrow> int option" where
  "ParseDuration s =
     (let neg = (s \<noteq> [] \<and> hd s = CHR ''-'');
          s = (if s \<noteq> [] \<and> (hd s = CHR ''-'' \<or> hd s = CHR ''+'') then tl s else s)
      in if s = ''0'' then Some 0
         else if s = [] then None
         else case duration_loop 0 s of
           None \<Rightarrow> None
         | Some d \<Rightarrow> if neg then Some (- int d) else if d > 2 ^ 63 - 1 then None else Some (int d))"

subsection \<open>Durations in decimal\<close>

text \<open>A sequence of numbers with units, such as \<^verbatim>\<open>1h30m\<close>, and its length.\<close>

definition duration_text :: "(nat \<times> string) list \<Rightarrow> string" where
  "duration_text items = concat (map (\<lambda>(n, u). dec n @ u) items)"

definition unit_ns :: "string \<Rightarrow> nat" where
  "unit_ns u = (case map_of unitMap u of None \<Rightarrow> 0 | Some k \<Rightarrow> k)"

definition duration_ns :: "(nat \<times> string) list \<Rightarrow> nat" where
  "duration_ns items = sum_list (map (\<lambda>(n, u). n * unit_ns u) items)"

definition units_known :: "(nat \<times> string) list \<Rightarrow> bool" where
  "units_known items \<longleftrightarrow> list_all (\<lambda>(n, u). u \<in> set (map fst unitMap)) items"

lemma unitMap_cases:
  assumes "u \<in> set (map fst unitMap)"
  obtains k where "map_of unitMap u = Some k" "0 < k" "list_all unit_char u" "u \<noteq> []"
  using assms that by (auto simp: unitMap_def is_digit_def)

lemma leadingInt_dec: "n \<le> 2 ^ 63 \<Longrightarrow> leadingInt 0 (dec n @ r) = leadingInt n r"
proof (induction n arbitrary: r rule: dec.induct)
  case (1 n)
  have d: "is_digit (digit_char (n mod 10))" "digit_val (digit_char (n mod 10)) = n mod 10"
    by (simp_all add: is_digit_def digit_val_def of_char_digit)
  show ?case
  proof (cases "n < 10")
    case True
    then show ?thesis using 1(2) d by (simp add: dec.simps[of n])
  next
    case False
    have "leadingInt 0 (dec n @ r) = leadingInt (n div 10) (digit_char (n mod 10) # r)"
      using 1 False by (simp add: dec.simps[of n])
    also have "\<dots> = leadingInt n r" using div_le_mono[OF 1(2), of 10] 1(2) d by simp
    finally show ?thesis .
  qed
qed

lemma dec_head: "is_digit (hd (dec n))"
  using dec_is_digit[of n] by (cases "dec n") auto

lemma unit_split:
  assumes "list_all unit_char u" "r = [] \<or> \<not> unit_char (hd r)"
  shows "takeWhile unit_char (u @ r) = u \<and> dropWhile unit_char (u @ r) = r"
  using assms(1)
proof (induction u)
  case Nil
  then show ?case using assms(2) by (cases r) auto
qed auto

lemma duration_item_dec:
  assumes "u \<in> set (map fst unitMap)" "n * unit_ns u \<le> 2 ^ 63" "r = [] \<or> \<not> unit_char (hd r)"
  shows "duration_item (dec n @ u @ r) = Some (n * unit_ns u, r)"
proof -
  obtain k where k: "map_of unitMap u = Some k" "0 < k" "list_all unit_char u" "u \<noteq> []"
    by (rule unitMap_cases[OF assms(1)])
  have n: "n * k \<le> 2 ^ 63" using assms(2) k(1) by (simp add: unit_ns_def)
  then have "n \<le> 2 ^ 63" using k(2) by (metis mult_le_mono2 Suc_leI One_nat_def mult.right_neutral order_trans)
  have hd_u: "\<not> is_digit (hd u)" "hd u \<noteq> CHR ''.''" using k(3,4) by (cases u; auto)+
  have "leadingInt n (u @ r) = Some (n, u @ r)" using hd_u k(4) by (cases u) auto
  then have lead: "leadingInt 0 (dec n @ u @ r) = Some (n, u @ r)" using leadingInt_dec[OF \<open>n \<le> 2 ^ 63\<close>] by simp
  have le: "n \<le> 2 ^ 63 div k" using n k(2) by (simp add: less_eq_div_iff_mult_less_eq)
  have "hd (dec n @ u @ r) = hd (dec n)" "hd (u @ r) = hd u" using k(4) by simp_all
  then show ?thesis
    using lead le dec_head[of n] hd_u k unit_split[OF k(3) assms(3)]
    by (simp add: duration_item_def Let_def unit_ns_def)
qed

lemma duration_loop_text:
  assumes "units_known items" "d + duration_ns items \<le> 2 ^ 63"
  shows "duration_loop d (duration_text items) = Some (d + duration_ns items)"
  using assms
proof (induction items arbitrary: d)
  case Nil
  then show ?case by (simp add: duration_text_def duration_ns_def duration_loop.simps)
next
  case (Cons x items)
  obtain n u where x: "x = (n, u)" by (cases x)
  have u: "u \<in> set (map fst unitMap)" "units_known items" using Cons.prems(1) by (simp_all add: units_known_def x)
  have bound: "d + n * unit_ns u + duration_ns items \<le> 2 ^ 63" using Cons.prems(2) by (simp add: duration_ns_def x)
  have "duration_text items = [] \<or> \<not> unit_char (hd (duration_text items))"
    using dec_head by (cases items) (auto simp: duration_text_def)
  then have "duration_item (duration_text (x # items)) = Some (n * unit_ns u, duration_text items)"
    using duration_item_dec[OF u(1), of n] bound by (simp add: duration_text_def x)
  moreover have "duration_text (x # items) \<noteq> []" by (simp add: duration_text_def x)
  ultimately show ?case
    using bound Cons.IH[OF u(2) bound] by (subst duration_loop.simps) (simp add: Let_def duration_ns_def x)
qed

lemma ParseDuration_text:
  assumes "items \<noteq> []" "units_known items" "duration_ns items < 2 ^ 63"
  shows "ParseDuration (duration_text items) = Some (int (duration_ns items))"
    and "ParseDuration (''-'' @ duration_text items) = Some (- int (duration_ns items))"
proof -
  obtain n u rest where it: "items = (n, u) # rest" using assms(1) by (cases items) auto
  have hd: "is_digit (hd (duration_text items))" "duration_text items \<noteq> []"
    using dec_head[of n] by (simp_all add: duration_text_def it)
  then have "hd (duration_text items) \<noteq> CHR ''-''" "hd (duration_text items) \<noteq> CHR ''+''"
    by (auto simp: is_digit_def)
  moreover have "duration_text items \<noteq> ''0''"
  proof
    assume "duration_text items = ''0''"
    then have "length (duration_text items) = 1" by simp
    then have "length (dec n) + length u \<le> 1" by (simp add: duration_text_def it)
    moreover have "u \<noteq> []" using assms(2) unitMap_cases[of u] by (auto simp: units_known_def it)
    ultimately show False using dec_ne[of n] length_greater_0_conv[of "dec n"] length_greater_0_conv[of u] by linarith
  qed
  moreover have "duration_loop 0 (duration_text items) = Some (duration_ns items)"
    using duration_loop_text[OF assms(2), of 0] assms(3) by simp
  moreover have "\<not> duration_ns items > 2 ^ 63 - 1" using assms(3) by linarith
  ultimately show "ParseDuration (duration_text items) = Some (int (duration_ns items))"
    "ParseDuration (''-'' @ duration_text items) = Some (- int (duration_ns items))"
    using hd(2) unfolding ParseDuration_def by (simp_all only: Let_def append_Cons append_Nil list.sel if_True if_False option.case simp_thms list.distinct)
qed

end
