(* ===== verification/Operator_Main.thy ===== *)
theory Operator_Main
  imports Flow_Sources Go_Duration
begin

text \<open>
  \<^verbatim>\<open>cmd/main.go\<close> and the \<^verbatim>\<open>SetupWithManager\<close> methods of the two controllers: how the process
  is configured and started. The calls into \<^verbatim>\<open>controller-runtime\<close> are values of a datatype that
  the environment answers with an error or without; \<^verbatim>\<open>os.Getenv\<close> and what \<^verbatim>\<open>flag.Parse\<close>
  makes of the command line (it also knows the flags of other packages) are arguments.
\<close>

subsection \<open>Configuration\<close>

record Flags =
  fg_metricsAddr :: string
  fg_probeAddr :: string
  fg_enableLeaderElection :: bool
  fg_secureMetrics :: bool
  fg_enableHTTP2 :: bool
  fg_flowSource :: string
  fg_hubbleAddr :: string
  fg_snapshotInterval :: int

definition envDurationOrDefault :: "(string \<Rightarrow> string) \<Rightarrow> string \<Rightarrow> int \<Rightarrow> int" where
  "envDurationOrDefault getenv key def =
     (let v = getenv key in
      if v = [] then def
      else case ParseDuration v of None \<Rightarrow> def | Some d \<Rightarrow> d)"

definition flag_defaults :: "(string \<Rightarrow> string) \<Rightarrow> Flags" where
  "flag_defaults getenv =
     \<lparr>fg_metricsAddr = '':8080'', fg_probeAddr = '':8081'', fg_enableLeaderElection = False,
      fg_secureMetrics = False, fg_enableHTTP2 = False,
      fg_flowSource = envOrDefault getenv ''EGRESS_GUARDIAN_FLOW_SOURCE'' ''mock'',
      fg_hubbleAddr = envOrDefault getenv ''HUBBLE_RELAY_ADDRESS'' ''hubble-relay.kube-system.svc.cluster.local:80'',
      fg_snapshotInterval = envDurationOrDefault getenv ''EGRESS_GUARDIAN_SNAPSHOT_INTERVAL'' (30 * 1000000000)\<rparr>"

record tls_Config =
  tc_NextProtos :: "string list"

definition disableHTTP2 :: "tls_Config \<Rightarrow> tls_Config" where
  "disableHTTP2 c = c\<lparr>tc_NextProtos := [''http/1.1'']\<rparr>"

definition tlsOpts :: "Flags \<Rightarrow> (tls_Config \<Rightarrow> tls_Config) list" where
  "tlsOpts fl = (if \<not> fg_enableHTTP2 fl then [disableHTTP2] else [])"

record manager_Options =
  mo_Metrics_BindAddress :: string
  mo_Metrics_SecureServing :: bool
  mo_Metrics_TLSOpts :: "(tls_Config \<Rightarrow> tls_Config) list"
  mo_WebhookServer_TLSOpts :: "(tls_Config \<Rightarrow> tls_Config) list"
  mo_HealthProbeBindAddress :: string
  mo_LeaderElection :: bool
  mo_LeaderElectionID :: string

definition manager_options :: "Flags \<Rightarrow> manager_Options" where
  "manager_options fl =
     \<lparr>mo_Metrics_BindAddress = fg_metricsAddr fl, mo_Metrics_SecureServing = fg_secureMetrics fl,
      mo_Metrics_TLSOpts = tlsOpts fl, mo_WebhookServer_TLSOpts = tlsOpts fl,
      mo_HealthProbeBindAddress = fg_probeAddr fl, mo_LeaderElection = fg_enableLeaderElection fl,
      mo_LeaderElectionID = ''cce793cc.platform.io''\<rparr>"

subsection \<open>Start-up\<close>

text \<open>The calls, in the order of the source. A controller is completed with the kind it is for and
  the kinds it owns.\<close>

datatype startup_call =
    AddClientGoScheme
  | AddApiScheme
  | GetConfig
  | NewManager manager_Options
  | AddRunnable flow_source Accumulator
  | CompleteController (for_kind: string) (owned_kinds: "string list")
  | AddHealthzCheck string
  | AddReadyzCheck string
  | StartManager

type_synonym 's runtime = "startup_call \<Rightarrow> 's \<Rightarrow> go_error option \<times> 's"

definition Profile_SetupWithManager :: "'s runtime \<Rightarrow> 's \<Rightarrow> go_error option \<times> 's" where
  "Profile_SetupWithManager rt = rt (CompleteController ''EgressProfile'' [''EgressPolicyProposal''])"

definition Proposal_SetupWithManager :: "'s runtime \<Rightarrow> 's \<Rightarrow> go_error option \<times> 's" where
  "Proposal_SetupWithManager rt = rt (CompleteController ''EgressPolicyProposal'' [])"

text \<open>\<^verbatim>\<open>utilruntime.Must\<close> panics on an error; a failing call of \<^verbatim>\<open>main\<close> is logged and ends the process
  with status 1.\<close>

definition init_scheme :: "'s runtime \<Rightarrow> 's \<Rightarrow> unit outcome \<times> 's" where
  "init_scheme rt s =
     (case rt AddClientGoScheme s of
        (Some err, s) \<Rightarrow> (Panics, s)
      | (None, s) \<Rightarrow> (case rt AddApiScheme s of
          (Some err, s) \<Rightarrow> (Panics, s)
        | (None, s) \<Rightarrow> (Returns (), s)))"

definition or_exit :: "('s \<Rightarrow> go_error option \<times> 's) \<Rightarrow> ('s \<Rightarrow> nat outcome \<times> 's) \<Rightarrow> 's \<Rightarrow> nat outcome \<times> 's" where
  "or_exit call continue s = (case call s of (Some err, s) \<Rightarrow> (Returns 1, s) | (None, s) \<Rightarrow> continue s)"

definition main :: "(string \<Rightarrow> string) \<Rightarrow> (Flags \<Rightarrow> nat + Flags) \<Rightarrow> int \<Rightarrow> 's runtime \<Rightarrow> 's \<Rightarrow> nat outcome \<times> 's" where
  "main getenv parse now rt s =
     (case init_scheme rt s of
        (Panics, s) \<Rightarrow> (Panics, s)
      | (Returns _, s) \<Rightarrow>
     (case parse (flag_defaults getenv) of
        Inl status \<Rightarrow> (Returns status, s)
      | Inr fl \<Rightarrow>
          or_exit (rt GetConfig) (
          or_exit (rt (NewManager (manager_options fl))) (
          let src = choose_source (fg_flowSource fl) (fg_hubbleAddr fl) now;
              accum = main_accumulator (fg_snapshotInterval fl)
          in
          or_exit (rt (AddRunnable src accum)) (
          or_exit (Profile_SetupWithManager rt) (
          or_exit (Proposal_SetupWithManager rt) (
          or_exit (rt (AddHealthzCheck ''healthz'')) (
          or_exit (rt (AddReadyzCheck ''readyz'')) (
          or_exit (rt StartManager) (\<lambda>s. (Returns 0, s))))))))) s))"

subsection \<open>What the start-up does\<close>

text \<open>An environment that records the calls and lets some of them fail.\<close>

definition recording :: "(startup_call \<Rightarrow> go_error option) \<Rightarrow> startup_call list runtime" where
  "recording fails c calls = (fails c, calls @ [c])"

definition startup_calls :: "Flags \<Rightarrow> int \<Rightarrow> startup_call list" where
  "startup_calls fl now =
     [AddClientGoScheme, AddApiScheme, GetConfig, NewManager (manager_options fl),
      AddRunnable (if fg_flowSource fl = ''hubble'' then HubbleSource \<lparr>hs_Address = fg_hubbleAddr fl, hs_Namespace = []\<rparr>
                   else MockSource (NewMockFlowSource now))
        (NewAccumulator (24 * 3600 * 1000000000) (fg_snapshotInterval fl)),
      CompleteController ''EgressProfile'' [''EgressPolicyProposal''], CompleteController ''EgressPolicyProposal'' [],
      AddHealthzCheck ''healthz'', AddReadyzCheck ''readyz'', StartManager]"

text \<open>The calls up to and with the first failing one.\<close>

fun until_failure :: "('a \<Rightarrow> 'e option) \<Rightarrow> 'a list \<Rightarrow> 'a list" where
  "until_failure fails [] = []"
| "until_failure fails (c # cs) = c # (if fails c = None then until_failure fails cs else [])"

lemma recorded_chain:
  "foldr (\<lambda>c. or_exit (recording fails c)) cs (\<lambda>s. (Returns 0, s)) calls =
     (if \<exists>c \<in> set cs. fails c \<noteq> None then Returns 1 else Returns 0, calls @ until_failure fails cs)"
  by (induction cs arbitrary: calls) (auto simp: or_exit_def recording_def split: option.split)

lemma main_chain:
  "main getenv (\<lambda>_. Inr fl) now rt s =
     (case init_scheme rt s of (Panics, s) \<Rightarrow> (Panics, s)
      | (Returns _, s) \<Rightarrow> foldr (\<lambda>c. or_exit (rt c)) (drop 2 (startup_calls fl now)) (\<lambda>s. (Returns 0, s)) s)"
  by (simp add: main_def Profile_SetupWithManager_def Proposal_SetupWithManager_def startup_calls_def
    choose_source_def NewHubbleGRPCFlowSource_def main_accumulator_def Let_def split: prod.split outcome.split)

text \<open>Without the flag for it, servers do not offer HTTP/2.\<close>

lemma tlsOpts_no_http2: "tc_NextProtos (fold (\<lambda>opt c. opt c) (tlsOpts fl) c) = (if fg_enableHTTP2 fl then tc_NextProtos c else [''http/1.1''])"
  by (simp add: tlsOpts_def disableHTTP2_def)

subsection \<open>Properties\<close>

text \<open>C38: the start of the process. Whatever calls fail, the process makes its start-up calls in
  the fixed order up to the first that fails: the API types, the manager with the options of
  the flags, the accumulator with the chosen flow source and a window of 24 hours, the two
  controllers, the health checks, and the manager is started only after all of them. It
  panics when the types cannot be registered, ends with status 1 after any other failure and
  with status 0 when the manager returns without one.\<close>

theorem main_startup:
  assumes "parse (flag_defaults getenv) = Inr fl"
  shows "main getenv parse now (recording fails) [] =
    (if fails AddClientGoScheme \<noteq> None \<or> fails AddApiScheme \<noteq> None then Panics
     else if \<exists>c \<in> set (startup_calls fl now). fails c \<noteq> None then Returns 1 else Returns 0,
     until_failure fails (startup_calls fl now))"
proof -
  have "main getenv parse now (recording fails) [] = main getenv (\<lambda>_. Inr fl) now (recording fails) []"
    using assms by (simp add: main_def split: prod.split outcome.split)
  moreover have "startup_calls fl now = AddClientGoScheme # AddApiScheme # drop 2 (startup_calls fl now)"
    by (simp add: startup_calls_def)
  then have "set (startup_calls fl now) = {AddClientGoScheme, AddApiScheme} \<union> set (drop 2 (startup_calls fl now))"
    "until_failure fails (startup_calls fl now) = until_failure fails (AddClientGoScheme # AddApiScheme # drop 2 (startup_calls fl now))"
    by (metis list.simps(15) Un_insert_left sup_bot_left, metis)
  ultimately show ?thesis
    by (auto simp: main_chain recorded_chain init_scheme_def recording_def split: option.split)
qed

theorem main_startup_witness:
  "main (\<lambda>_. []) Inr 0 (recording (\<lambda>c. if c = AddReadyzCheck ''readyz'' then Some NotFound else None)) [] =
    (Returns 1, butlast (startup_calls (flag_defaults (\<lambda>_. [])) 0))"
  using main_startup[of Inr "\<lambda>_. []" "flag_defaults (\<lambda>_. [])" 0 "\<lambda>c. if c = AddReadyzCheck ''readyz'' then Some NotFound else None"]
  by (simp add: startup_calls_def)



end
