(* ===== verification/Mem_Cluster.thy ===== *)
theory Mem_Cluster
  imports Kube_Client
begin

text \<open>
  A concrete API server: lists of objects, a version counter, the events so far and a list
  of calls that fail, together with the files of the operator's container. It satisfies the client contracts, whatever calls are set to
  fail, so everything proved from them applies to it, and the witnesses run on it.
\<close>

subsection \<open>Stores of objects\<close>

definition obj_find :: "('a \<Rightarrow> objkey) \<Rightarrow> objkey \<Rightarrow> 'a list \<Rightarrow> 'a option" where
  "obj_find key k xs = find (\<lambda>x. key x = k) xs"

definition obj_put :: "('a \<Rightarrow> objkey) \<Rightarrow> 'a \<Rightarrow> 'a list \<Rightarrow> 'a list" where
  "obj_put key x xs = x # filter (\<lambda>y. key y \<noteq> key x) xs"

lemma obj_find_put [simp]: "obj_find key k (obj_put key x xs) = (if k = key x then Some x else obj_find key k xs)"
proof -
  have "find (\<lambda>y. key y = k) (filter (\<lambda>y. key y \<noteq> key x) xs) = find (\<lambda>y. key y = k) xs" if "k \<noteq> key x"
    using that by (induction xs) auto
  then show ?thesis by (auto simp: obj_find_def obj_put_def)
qed

lemma obj_find_key: "obj_find key k xs = Some x \<Longrightarrow> key x = k"
  by (auto simp: obj_find_def find_Some_iff)

subsection \<open>The cluster\<close>

datatype call = CGetConfigMap | CCreateConfigMap | CPatchConfigMap | CGetProfile | CPatchProfileStatus
  | CGetProposal | CCreateProposal | CPatchProposalStatus | CGetCNP | CCreateCNP | CUpdateCNP | CGetPod

record cluster =
  cl_ConfigMaps :: "ConfigMap list"
  cl_Profiles :: "EgressProfile list"
  cl_Proposals :: "EgressPolicyProposal list"
  cl_CNPs :: "Unstructured list"
  cl_Pods :: "(objkey \<times> Pod) list"
  cl_Events :: "Event list"
  cl_Next :: nat
  cl_Faults :: "(call \<times> objkey) list"
  cl_Files :: "(string \<times> string) list"
  cl_ReadOnly :: bool

definition empty_cluster :: cluster where
  "empty_cluster = \<lparr>cl_ConfigMaps = [], cl_Profiles = [], cl_Proposals = [], cl_CNPs = [], cl_Pods = [],
     cl_Events = [], cl_Next = 1, cl_Faults = [], cl_Files = [], cl_ReadOnly = False\<rparr>"

abbreviation cm_key :: "ConfigMap \<Rightarrow> objkey" where "cm_key cm \<equiv> meta_key (cm_Meta cm)"
abbreviation pr_key :: "EgressProfile \<Rightarrow> objkey" where "pr_key pr \<equiv> meta_key (pr_Meta pr)"
abbreviation xp_key :: "EgressPolicyProposal \<Rightarrow> objkey" where "xp_key xp \<equiv> meta_key (xp_Meta xp)"
abbreviation un_key :: "Unstructured \<Rightarrow> objkey" where "un_key u \<equiv> meta_key (un_Meta u)"

definition mem_view :: "cluster \<Rightarrow> api_view" where
  "mem_view s = \<lparr>av_ConfigMaps = (\<lambda>k. obj_find cm_key k (cl_ConfigMaps s)),
     av_Profiles = (\<lambda>k. obj_find pr_key k (cl_Profiles s)),
     av_Proposals = (\<lambda>k. obj_find xp_key k (cl_Proposals s)),
     av_CNPs = (\<lambda>k. obj_find un_key k (cl_CNPs s))\<rparr>"

definition mem_up :: "cluster \<Rightarrow> bool" where
  "mem_up s \<longleftrightarrow> cl_Faults s = []"

definition stamp :: "cluster \<Rightarrow> ObjectMeta \<Rightarrow> ObjectMeta" where
  "stamp s m = m\<lparr>om_ResourceVersion := dec (cl_Next s)\<rparr>"

definition born :: "cluster \<Rightarrow> ObjectMeta \<Rightarrow> ObjectMeta" where
  "born s m = stamp s (m\<lparr>om_UID := ''uid-'' @ dec (cl_Next s)\<rparr>)"

definition tick :: "cluster \<Rightarrow> cluster" where
  "tick s = s\<lparr>cl_Next := cl_Next s + 1\<rparr>"

definition mem_get :: "call \<Rightarrow> (objkey \<Rightarrow> 'a option) \<Rightarrow> cluster \<Rightarrow> objkey \<Rightarrow> (go_error + 'a) \<times> cluster" where
  "mem_get c look s k =
     (if (c, k) \<in> set (cl_Faults s) then Inl (ApiError ''fault'')
      else case look k of None \<Rightarrow> Inl NotFound | Some x \<Rightarrow> Inr x, s)"

text \<open>A write: fails when it is set to, or when the server refuses it.\<close>

definition mem_write :: "call \<Rightarrow> objkey \<Rightarrow> go_error option \<Rightarrow> cluster \<Rightarrow> cluster \<Rightarrow> go_error option \<times> cluster" where
  "mem_write c k refuse s s' =
     (if (c, k) \<in> set (cl_Faults s) then (Some (ApiError ''fault''), s)
      else case refuse of Some err \<Rightarrow> (Some err, s) | None \<Rightarrow> (None, tick s'))"

definition merge_list :: "ConfigMap \<Rightarrow> ConfigMap \<Rightarrow> ConfigMap \<Rightarrow> (string \<times> string) list" where
  "merge_list new base cur =
     (let keys = (\<lambda>cm. case cm_Data cm of None \<Rightarrow> [] | Some m \<Rightarrow> map fst m) in
      concat (map (\<lambda>k. case merge_data new base cur k of None \<Rightarrow> [] | Some v \<Rightarrow> [(k, v)])
        (keys new @ keys base @ keys cur)))"

definition mem_client :: "cluster kube_client" where
  "mem_client = \<lparr>
     kc_GetConfigMap = (\<lambda>s. mem_get CGetConfigMap (av_ConfigMaps (mem_view s)) s),
     kc_CreateConfigMap = (\<lambda>s cm. mem_write CCreateConfigMap (cm_key cm)
       (if obj_find cm_key (cm_key cm) (cl_ConfigMaps s) \<noteq> None then Some (ApiError ''AlreadyExists'') else None) s
       (s\<lparr>cl_ConfigMaps := obj_put cm_key (cm\<lparr>cm_Meta := born s (cm_Meta cm)\<rparr>) (cl_ConfigMaps s)\<rparr>)),
     kc_PatchConfigMap = (\<lambda>s cm base. case obj_find cm_key (cm_key cm) (cl_ConfigMaps s) of
         None \<Rightarrow> mem_write CPatchConfigMap (cm_key cm) (Some NotFound) s s
       | Some cur \<Rightarrow> mem_write CPatchConfigMap (cm_key cm) None s
          (s\<lparr>cl_ConfigMaps := obj_put cm_key (cur\<lparr>cm_Meta := stamp s (cm_Meta cur),
             cm_Data := Some (merge_list cm base cur)\<rparr>) (cl_ConfigMaps s)\<rparr>)),
     kc_GetProfile = (\<lambda>s. mem_get CGetProfile (av_Profiles (mem_view s)) s),
     kc_PatchProfileStatus = (\<lambda>s pr base. case obj_find pr_key (pr_key pr) (cl_Profiles s) of
         None \<Rightarrow> mem_write CPatchProfileStatus (pr_key pr) (Some NotFound) s s
       | Some cur \<Rightarrow> mem_write CPatchProfileStatus (pr_key pr) None s
          (s\<lparr>cl_Profiles := obj_put pr_key (cur\<lparr>pr_Meta := stamp s (pr_Meta cur),
             pr_Status := merge_profile_status (pr_Status pr) (pr_Status base) (pr_Status cur)\<rparr>) (cl_Profiles s)\<rparr>)),
     kc_GetProposal = (\<lambda>s. mem_get CGetProposal (av_Proposals (mem_view s)) s),
     kc_CreateProposal = (\<lambda>s xp. let xp' = xp\<lparr>xp_Meta := born s (xp_Meta xp)\<rparr> in
       (case mem_write CCreateProposal (xp_key xp)
         (if obj_find xp_key (xp_key xp) (cl_Proposals s) \<noteq> None then Some (ApiError ''AlreadyExists'') else None) s
         (s\<lparr>cl_Proposals := obj_put xp_key xp' (cl_Proposals s)\<rparr>) of
         (Some err, s') \<Rightarrow> (Inl err, s') | (None, s') \<Rightarrow> (Inr xp', s'))),
     kc_PatchProposalStatus = (\<lambda>s xp base. case obj_find xp_key (xp_key xp) (cl_Proposals s) of
         None \<Rightarrow> mem_write CPatchProposalStatus (xp_key xp) (Some NotFound) s s
       | Some cur \<Rightarrow> mem_write CPatchProposalStatus (xp_key xp) None s
          (s\<lparr>cl_Proposals := obj_put xp_key (cur\<lparr>xp_Meta := stamp s (xp_Meta cur),
             xp_Status := merge_proposal_status (xp_Status xp) (xp_Status base) (xp_Status cur)\<rparr>) (cl_Proposals s)\<rparr>)),
     kc_GetCNP = (\<lambda>s. mem_get CGetCNP (av_CNPs (mem_view s)) s),
     kc_CreateCNP = (\<lambda>s cnp. mem_write CCreateCNP (un_key cnp)
       (if obj_find un_key (un_key cnp) (cl_CNPs s) \<noteq> None then Some (ApiError ''AlreadyExists'') else None) s
       (s\<lparr>cl_CNPs := obj_put un_key (cnp\<lparr>un_Meta := born s (un_Meta cnp)\<rparr>) (cl_CNPs s)\<rparr>)),
     kc_UpdateCNP = (\<lambda>s cnp. mem_write CUpdateCNP (un_key cnp)
       (case obj_find un_key (un_key cnp) (cl_CNPs s) of
          None \<Rightarrow> Some NotFound
        | Some old \<Rightarrow> if om_ResourceVersion (un_Meta old) \<noteq> om_ResourceVersion (un_Meta cnp)
            then Some (ApiError ''Conflict'') else None) s
       (s\<lparr>cl_CNPs := obj_put un_key (cnp\<lparr>un_Meta := stamp s (un_Meta cnp)\<rparr>) (cl_CNPs s)\<rparr>)),
     kc_GetPod = (\<lambda>s. mem_get CGetPod (map_of (cl_Pods s)) s),
     kc_Eventf = (\<lambda>s ev. s\<lparr>cl_Events := cl_Events s @ [ev]\<rparr>)\<rparr>"

subsection \<open>It meets the contracts\<close>

lemma map_of_choice: "map_of (concat (map (\<lambda>k. case f k of None \<Rightarrow> [] | Some v \<Rightarrow> [(k, v)]) ks)) k = (if k \<in> set ks then f k else None)"
proof (induction ks)
  case (Cons a ks)
  then show ?case by (cases "f a") (auto split: if_splits)
qed simp

lemma merge_list_get: "map_of (merge_list new base cur) k = merge_data new base cur k"
proof -
  have none: "data_get (cm_Data cm) k = None" if "k \<notin> set (case cm_Data cm of None \<Rightarrow> [] | Some m \<Rightarrow> map fst m)" for cm :: ConfigMap
    using that by (auto simp: data_get_def map_of_eq_None_iff split: option.splits)
  show ?thesis
    unfolding merge_list_def Let_def map_of_choice
    using none[of new] none[of base] none[of cur] by (auto simp: merge_data_def)
qed

lemma meta_simps [simp]:
  "om_Name (born s m) = om_Name m" "om_Namespace (born s m) = om_Namespace m"
  "om_OwnerReferences (born s m) = om_OwnerReferences m" "om_Labels (born s m) = om_Labels m"
  "om_Name (stamp s m) = om_Name m" "om_Namespace (stamp s m) = om_Namespace m"
  "om_OwnerReferences (stamp s m) = om_OwnerReferences m" "om_Labels (stamp s m) = om_Labels m"
  by (simp_all add: born_def stamp_def)

lemma mem_view_tick [simp]: "mem_view (tick s) = mem_view s" "cl_Faults (tick s) = cl_Faults s"
  by (simp_all add: mem_view_def tick_def)

lemma mem_view_upd [simp]:
  "mem_view (s\<lparr>cl_ConfigMaps := obj_put cm_key cm (cl_ConfigMaps s)\<rparr>) =
     (mem_view s)\<lparr>av_ConfigMaps := (av_ConfigMaps (mem_view s))(cm_key cm := Some cm)\<rparr>"
  "mem_view (s\<lparr>cl_Profiles := obj_put pr_key pr (cl_Profiles s)\<rparr>) =
     (mem_view s)\<lparr>av_Profiles := (av_Profiles (mem_view s))(pr_key pr := Some pr)\<rparr>"
  "mem_view (s\<lparr>cl_Proposals := obj_put xp_key xp (cl_Proposals s)\<rparr>) =
     (mem_view s)\<lparr>av_Proposals := (av_Proposals (mem_view s))(xp_key xp := Some xp)\<rparr>"
  "mem_view (s\<lparr>cl_CNPs := obj_put un_key u (cl_CNPs s)\<rparr>) =
     (mem_view s)\<lparr>av_CNPs := (av_CNPs (mem_view s))(un_key u := Some u)\<rparr>"
  "mem_view (s\<lparr>cl_Events := es\<rparr>) = mem_view s"
  by (simp_all add: mem_view_def fun_upd_def)

lemma mem_view_look:
  "obj_find cm_key k (cl_ConfigMaps s) = av_ConfigMaps (mem_view s) k"
  "obj_find pr_key k (cl_Profiles s) = av_Profiles (mem_view s) k"
  "obj_find xp_key k (cl_Proposals s) = av_Proposals (mem_view s) k"
  "obj_find un_key k (cl_CNPs s) = av_CNPs (mem_view s) k"
  by (simp_all add: mem_view_def)

lemma mem_view_keyed:
  "av_ConfigMaps (mem_view s) k = Some cm \<Longrightarrow> cm_key cm = k"
  "av_Profiles (mem_view s) k = Some pr \<Longrightarrow> pr_key pr = k"
  "av_Proposals (mem_view s) k = Some xp \<Longrightarrow> xp_key xp = k"
  by (auto simp: mem_view_def dest: obj_find_key)

lemmas mem_calls = mem_client_def mem_get_def mem_write_def mem_view_look

text \<open>A call that leaves the view alone, or updates one key, updates at most that key.\<close>

lemma view_frame:
  fixes v v' :: api_view
  shows "v' = v \<or> (\<exists>x. v' = v\<lparr>av_ConfigMaps := (av_ConfigMaps v)(k := x)\<rparr>) \<Longrightarrow>
      \<exists>r. v' = v\<lparr>av_ConfigMaps := (av_ConfigMaps v)(k := r)\<rparr>"
    and "v' = v \<or> (\<exists>x. v' = v\<lparr>av_Profiles := (av_Profiles v)(k := x)\<rparr>) \<Longrightarrow>
      \<exists>r. v' = v\<lparr>av_Profiles := (av_Profiles v)(k := r)\<rparr>"
    and "v' = v \<or> (\<exists>x. v' = v\<lparr>av_Proposals := (av_Proposals v)(k := x)\<rparr>) \<Longrightarrow>
      \<exists>r. v' = v\<lparr>av_Proposals := (av_Proposals v)(k := r)\<rparr>"
    and "v' = v \<or> (\<exists>x. v' = v\<lparr>av_CNPs := (av_CNPs v)(k := x)\<rparr>) \<Longrightarrow>
      \<exists>r. v' = v\<lparr>av_CNPs := (av_CNPs v)(k := r)\<rparr>"
  by (metis fun_upd_triv api_view.surjective api_view.update_convs(1),
      metis fun_upd_triv api_view.surjective api_view.update_convs(2),
      metis fun_upd_triv api_view.surjective api_view.update_convs(3),
      metis fun_upd_triv api_view.surjective api_view.update_convs(4))

lemma mem_api_client: "api_client mem_client mem_view"
proof
  fix s cm base pr prbase xp xpbase cnp
  show "\<exists>r. mem_view (snd (kc_CreateConfigMap mem_client s cm)) =
      (mem_view s)\<lparr>av_ConfigMaps := (av_ConfigMaps (mem_view s))(cm_key cm := r)\<rparr>"
    "\<exists>r. mem_view (snd (kc_PatchConfigMap mem_client s cm base)) =
      (mem_view s)\<lparr>av_ConfigMaps := (av_ConfigMaps (mem_view s))(cm_key cm := r)\<rparr>"
    by (rule view_frame, auto simp: mem_calls split: option.splits dest!: mem_view_keyed)+
  show "\<exists>r. mem_view (snd (kc_PatchProfileStatus mem_client s pr prbase)) =
      (mem_view s)\<lparr>av_Profiles := (av_Profiles (mem_view s))(pr_key pr := r)\<rparr>"
    by (rule view_frame, auto simp: mem_calls split: option.splits dest!: mem_view_keyed)
  show "\<exists>r. mem_view (snd (kc_CreateProposal mem_client s xp)) =
      (mem_view s)\<lparr>av_Proposals := (av_Proposals (mem_view s))(xp_key xp := r)\<rparr>"
    "\<exists>r. mem_view (snd (kc_PatchProposalStatus mem_client s xp xpbase)) =
      (mem_view s)\<lparr>av_Proposals := (av_Proposals (mem_view s))(xp_key xp := r)\<rparr>"
    by (rule view_frame, auto simp: mem_calls Let_def split: option.splits dest!: mem_view_keyed)+
  show "\<exists>r. mem_view (snd (kc_CreateCNP mem_client s cnp)) =
      (mem_view s)\<lparr>av_CNPs := (av_CNPs (mem_view s))(un_key cnp := r)\<rparr>"
    "\<exists>r. mem_view (snd (kc_UpdateCNP mem_client s cnp)) =
      (mem_view s)\<lparr>av_CNPs := (av_CNPs (mem_view s))(un_key cnp := r)\<rparr>"
    by (rule view_frame, auto simp: mem_calls split: option.splits dest!: mem_view_keyed)+
qed (simp_all add: mem_calls)

lemma data_get_merge_list: "data_get (Some (merge_list new base cur)) = merge_data new base cur"
  by (rule ext) (simp add: data_get_def merge_list_get)

text \<open>Each write call: it fails and changes nothing, or has its effect.\<close>

lemma mem_create_cm:
  "fst (kc_CreateConfigMap mem_client s cm) = None \<longleftrightarrow>
     (CCreateConfigMap, cm_key cm) \<notin> set (cl_Faults s) \<and> av_ConfigMaps (mem_view s) (cm_key cm) = None"
  "fst (kc_CreateConfigMap mem_client s cm) = None \<Longrightarrow> mem_view (snd (kc_CreateConfigMap mem_client s cm)) =
     (mem_view s)\<lparr>av_ConfigMaps := (av_ConfigMaps (mem_view s))(cm_key cm := Some (cm\<lparr>cm_Meta := born s (cm_Meta cm)\<rparr>))\<rparr>"
  "fst (kc_CreateConfigMap mem_client s cm) = Some err \<Longrightarrow> snd (kc_CreateConfigMap mem_client s cm) = s"
  by (auto simp: mem_calls split: if_splits)

lemma mem_patch_cm:
  "fst (kc_PatchConfigMap mem_client s cm base) = None \<longleftrightarrow>
     (CPatchConfigMap, cm_key cm) \<notin> set (cl_Faults s) \<and> av_ConfigMaps (mem_view s) (cm_key cm) \<noteq> None"
  "fst (kc_PatchConfigMap mem_client s cm base) = None \<Longrightarrow> av_ConfigMaps (mem_view s) (cm_key cm) = Some cur \<Longrightarrow>
     av_ConfigMaps (mem_view (snd (kc_PatchConfigMap mem_client s cm base))) (cm_key cm) =
     Some (cur\<lparr>cm_Meta := stamp s (cm_Meta cur), cm_Data := Some (merge_list cm base cur)\<rparr>)"
  "fst (kc_PatchConfigMap mem_client s cm base) = Some err \<Longrightarrow> snd (kc_PatchConfigMap mem_client s cm base) = s"
  by (auto simp: mem_calls dest: mem_view_keyed split: if_splits option.splits)

lemma mem_patch_profile:
  "fst (kc_PatchProfileStatus mem_client s pr base) = None \<longleftrightarrow>
     (CPatchProfileStatus, pr_key pr) \<notin> set (cl_Faults s) \<and> av_Profiles (mem_view s) (pr_key pr) \<noteq> None"
  "fst (kc_PatchProfileStatus mem_client s pr base) = None \<Longrightarrow> av_Profiles (mem_view s) (pr_key pr) = Some cur \<Longrightarrow>
     av_Profiles (mem_view (snd (kc_PatchProfileStatus mem_client s pr base))) (pr_key pr) =
     Some (cur\<lparr>pr_Meta := stamp s (pr_Meta cur),
       pr_Status := merge_profile_status (pr_Status pr) (pr_Status base) (pr_Status cur)\<rparr>)"
  "fst (kc_PatchProfileStatus mem_client s pr base) = Some err \<Longrightarrow> snd (kc_PatchProfileStatus mem_client s pr base) = s"
  by (auto simp: mem_calls dest: mem_view_keyed split: if_splits option.splits)

lemma mem_create_proposal:
  "(\<exists>xp'. fst (kc_CreateProposal mem_client s xp) = Inr xp') \<longleftrightarrow>
     (CCreateProposal, xp_key xp) \<notin> set (cl_Faults s) \<and> av_Proposals (mem_view s) (xp_key xp) = None"
  "fst (kc_CreateProposal mem_client s xp) = Inr xp' \<Longrightarrow> xp' = xp\<lparr>xp_Meta := born s (xp_Meta xp)\<rparr> \<and>
     av_Proposals (mem_view s) (xp_key xp) = None \<and>
     av_Proposals (mem_view (snd (kc_CreateProposal mem_client s xp))) (xp_key xp) = Some xp'"
  "fst (kc_CreateProposal mem_client s xp) = Inl err \<Longrightarrow> snd (kc_CreateProposal mem_client s xp) = s"
  by (auto simp: mem_calls Let_def split: if_splits)

lemma mem_patch_proposal:
  "fst (kc_PatchProposalStatus mem_client s xp base) = None \<longleftrightarrow>
     (CPatchProposalStatus, xp_key xp) \<notin> set (cl_Faults s) \<and> av_Proposals (mem_view s) (xp_key xp) \<noteq> None"
  "fst (kc_PatchProposalStatus mem_client s xp base) = None \<Longrightarrow> av_Proposals (mem_view s) (xp_key xp) = Some cur \<Longrightarrow>
     av_Proposals (mem_view (snd (kc_PatchProposalStatus mem_client s xp base))) (xp_key xp) =
     Some (cur\<lparr>xp_Meta := stamp s (xp_Meta cur),
       xp_Status := merge_proposal_status (xp_Status xp) (xp_Status base) (xp_Status cur)\<rparr>)"
  "fst (kc_PatchProposalStatus mem_client s xp base) = Some err \<Longrightarrow> snd (kc_PatchProposalStatus mem_client s xp base) = s"
  by (auto simp: mem_calls dest: mem_view_keyed split: if_splits option.splits)

lemma mem_create_cnp:
  "fst (kc_CreateCNP mem_client s u) = None \<longleftrightarrow>
     (CCreateCNP, un_key u) \<notin> set (cl_Faults s) \<and> av_CNPs (mem_view s) (un_key u) = None"
  "fst (kc_CreateCNP mem_client s u) = None \<Longrightarrow>
     av_CNPs (mem_view (snd (kc_CreateCNP mem_client s u))) (un_key u) = Some (u\<lparr>un_Meta := born s (un_Meta u)\<rparr>)"
  "fst (kc_CreateCNP mem_client s u) = Some err \<Longrightarrow> snd (kc_CreateCNP mem_client s u) = s"
  by (auto simp: mem_calls split: if_splits)

lemma mem_update_cnp:
  "fst (kc_UpdateCNP mem_client s u) = None \<longleftrightarrow> (CUpdateCNP, un_key u) \<notin> set (cl_Faults s) \<and>
     (\<exists>old. av_CNPs (mem_view s) (un_key u) = Some old \<and> om_ResourceVersion (un_Meta u) = om_ResourceVersion (un_Meta old))"
  "fst (kc_UpdateCNP mem_client s u) = None \<Longrightarrow>
     av_CNPs (mem_view (snd (kc_UpdateCNP mem_client s u))) (un_key u) = Some (u\<lparr>un_Meta := stamp s (un_Meta u)\<rparr>)"
  "fst (kc_UpdateCNP mem_client s u) = Some err \<Longrightarrow> snd (kc_UpdateCNP mem_client s u) = s"
  by (auto simp: mem_calls split: if_splits option.splits)

lemma mem_gets:
  "fst (kc_GetConfigMap mem_client s k) = (if (CGetConfigMap, k) \<in> set (cl_Faults s) then Inl (ApiError ''fault'')
     else case av_ConfigMaps (mem_view s) k of None \<Rightarrow> Inl NotFound | Some x \<Rightarrow> Inr x)"
  "fst (kc_GetProfile mem_client s k) = (if (CGetProfile, k) \<in> set (cl_Faults s) then Inl (ApiError ''fault'')
     else case av_Profiles (mem_view s) k of None \<Rightarrow> Inl NotFound | Some x \<Rightarrow> Inr x)"
  "fst (kc_GetProposal mem_client s k) = (if (CGetProposal, k) \<in> set (cl_Faults s) then Inl (ApiError ''fault'')
     else case av_Proposals (mem_view s) k of None \<Rightarrow> Inl NotFound | Some x \<Rightarrow> Inr x)"
  "fst (kc_GetCNP mem_client s k) = (if (CGetCNP, k) \<in> set (cl_Faults s) then Inl (ApiError ''fault'')
     else case av_CNPs (mem_view s) k of None \<Rightarrow> Inl NotFound | Some x \<Rightarrow> Inr x)"
  by (simp_all add: mem_calls)

lemma mem_merge_client: "merge_client mem_client mem_view"
proof (rule merge_client.intro[OF mem_api_client], unfold_locales, goal_cases)
  case (1 s cm)
  then show ?case using mem_create_cm(1,2)[of s cm] by simp
next
  case (2 s cm err)
  then show ?case by (simp add: mem_create_cm(3))
next
  case (3 s cm base)
  then obtain cur where "av_ConfigMaps (mem_view s) (cm_key cm) = Some cur"
    by (auto simp: mem_patch_cm(1))
  then show ?case using mem_patch_cm(2)[OF 3] by (simp add: data_get_merge_list)
next
  case (4 s cm base err)
  then show ?case by (simp add: mem_patch_cm(3))
next
  case (5 s pr prbase)
  then obtain cur where "av_Profiles (mem_view s) (pr_key pr) = Some cur"
    by (auto simp: mem_patch_profile(1))
  then show ?case using mem_patch_profile(2)[OF 5] by simp
next
  case (6 s pr prbase err)
  then show ?case by (simp add: mem_patch_profile(3))
next
  case (7 s xp xp')
  then show ?case using mem_create_proposal(2)[OF 7] by simp
next
  case (8 s xp err)
  then show ?case by (simp add: mem_create_proposal(3))
next
  case (9 s xp xpbase)
  then obtain cur where "av_Proposals (mem_view s) (xp_key xp) = Some cur"
    by (auto simp: mem_patch_proposal(1))
  then show ?case using mem_patch_proposal(2)[OF 9] by simp
next
  case (10 s xp xpbase err)
  then show ?case by (simp add: mem_patch_proposal(3))
next
  case (11 s cnp)
  then show ?case using mem_create_cnp(1,2)[of s cnp] by simp
next
  case (12 s cnp err)
  then show ?case by (simp add: mem_create_cnp(3))
next
  case (13 s cnp)
  then show ?case using mem_update_cnp(1,2)[of s cnp] by auto
next
  case (14 s cnp err)
  then show ?case by (simp add: mem_update_cnp(3))
qed (auto simp: mem_gets dest: mem_view_keyed split: if_splits option.splits)

lemma mem_fresh_client: "fresh_client mem_client mem_view"
  by (rule fresh_client.intro[OF mem_merge_client], unfold_locales)
    (auto simp: mem_gets split: if_splits option.splits)

lemma mem_faults_stay:
  "cl_Faults (snd (kc_GetConfigMap mem_client s k)) = cl_Faults s" "cl_Faults (snd (kc_GetProfile mem_client s k)) = cl_Faults s"
  "cl_Faults (snd (kc_GetProposal mem_client s k)) = cl_Faults s" "cl_Faults (snd (kc_GetCNP mem_client s k)) = cl_Faults s"
  "cl_Faults (snd (kc_CreateConfigMap mem_client s cm)) = cl_Faults s"
  "cl_Faults (snd (kc_PatchConfigMap mem_client s cm base)) = cl_Faults s"
  "cl_Faults (snd (kc_PatchProfileStatus mem_client s pr prbase)) = cl_Faults s"
  "cl_Faults (snd (kc_CreateProposal mem_client s xp)) = cl_Faults s"
  "cl_Faults (snd (kc_PatchProposalStatus mem_client s xp xpbase)) = cl_Faults s"
  "cl_Faults (snd (kc_CreateCNP mem_client s cnp)) = cl_Faults s"
  "cl_Faults (snd (kc_UpdateCNP mem_client s cnp)) = cl_Faults s" "cl_Faults (kc_Eventf mem_client s ev) = cl_Faults s"
  by (auto simp: mem_calls Let_def split: option.split)

interpretation mem: reliable_client mem_client mem_view mem_up
  by (rule reliable_client.intro[OF mem_fresh_client], unfold_locales)
    (auto simp: mem_up_def mem_faults_stay mem_gets mem_create_cm(1) mem_create_proposal(1) mem_create_cnp(1)
      mem_patch_cm(1) mem_patch_profile(1) mem_patch_proposal(1) mem_update_cnp(1))

end
