(* ===== verification/Go_Json.thy ===== *)
theory Go_Json
  imports Go_Time
begin

text \<open>
  What the operator uses of the standard package \<^verbatim>\<open>encoding/json\<close> (Go 1.21): the scanner and the
  printer for JSON text, with the quoting of strings. A value keeps a string and a number as
  the literal of the text, since \<^verbatim>\<open>Unmarshal\<close> decides by the target type what to do with it.
\<close>

subsection \<open>Strings\<close>

abbreviation DQ :: char where "DQ \<equiv> CHR 0x22"
abbreviation BS :: char where "BS \<equiv> CHR 0x5C"

abbreviation byte_of :: "char \<Rightarrow> nat" where "byte_of c \<equiv> of_char c"

text \<open>\<^verbatim>\<open>utf8.DecodeRune\<close>: the number of bytes of the first rune, 0 when they are not valid UTF-8.\<close>

fun in_bytes :: "nat \<Rightarrow> nat \<Rightarrow> string \<Rightarrow> bool" where
  "in_bytes lo hi [] = False"
| "in_bytes lo hi (c # s) \<longleftrightarrow> lo \<le> byte_of c \<and> byte_of c \<le> hi"

fun rune_len :: "string \<Rightarrow> nat" where
  "rune_len [] = 0"
| "rune_len (c # s) =
     (let b = byte_of c in
      if b < 0x80 then 1
      else if b < 0xC2 \<or> 0xF4 < b then 0
      else if b < 0xE0 then if in_bytes 0x80 0xBF s then 2 else 0
      else if b < 0xF0 then
        if in_bytes (if b = 0xE0 then 0xA0 else 0x80) (if b = 0xED then 0x9F else 0xBF) s
          \<and> in_bytes 0x80 0xBF (tl s) then 3 else 0
      else
        if in_bytes (if b = 0xF0 then 0x90 else 0x80) (if b = 0xF4 then 0x8F else 0xBF) s
          \<and> in_bytes 0x80 0xBF (tl s) \<and> in_bytes 0x80 0xBF (tl (tl s)) then 4 else 0)"

fun valid_utf8 :: "string \<Rightarrow> bool" where
  "valid_utf8 [] = True"
| "valid_utf8 (c # s) \<longleftrightarrow> rune_len (c # s) \<noteq> 0 \<and> valid_utf8 (drop (rune_len (c # s) - 1) s)"

text \<open>\<^verbatim>\<open>utf8.EncodeRune\<close>.\<close>

definition encode_rune :: "nat \<Rightarrow> string" where
  "encode_rune r = map char_of
     (if r < 0x80 then [r]
      else if r < 0x800 then [0xC0 + r div 0x40, 0x80 + r mod 0x40]
      else if r < 0x10000 then [0xE0 + r div 0x1000, 0x80 + r div 0x40 mod 0x40, 0x80 + r mod 0x40]
      else [0xF0 + r div 0x40000, 0x80 + r div 0x1000 mod 0x40, 0x80 + r div 0x40 mod 0x40, 0x80 + r mod 0x40 :: nat])"

definition RuneError :: string where
  "RuneError = encode_rune 0xFFFD"

definition hexd :: "nat \<Rightarrow> char" where
  "hexd n = char_of (if n < 10 then 48 + n else 87 + n)"

definition is_hex :: "char \<Rightarrow> bool" where
  "is_hex c \<longleftrightarrow> is_digit c \<or> 97 \<le> byte_of c \<and> byte_of c \<le> 102 \<or> 65 \<le> byte_of c \<and> byte_of c \<le> 70"

definition hex_val :: "char \<Rightarrow> nat" where
  "hex_val c = (let b = byte_of c in if b < 58 then b - 48 else if b < 97 then b - 55 else b - 87)"

definition u4 :: "string \<Rightarrow> nat" where
  "u4 s = foldl (\<lambda>v c. v * 16 + hex_val c) 0 (take 4 s)"

text \<open>The printer's treatment of one ASCII byte (HTML characters are escaped).\<close>

definition esc :: "char \<Rightarrow> string" where
  "esc c =
     (if c = DQ \<or> c = BS then [BS, c]
      else if c = CHR 0x0A then [BS, CHR ''n'']
      else if c = CHR 0x0D then [BS, CHR ''r'']
      else if c = CHR 0x09 then [BS, CHR ''t'']
      else if byte_of c < 32 \<or> c = CHR ''<'' \<or> c = CHR ''>'' \<or> c = CHR ''&''
        then BS # ''u00'' @ [hexd (byte_of c div 16), hexd (byte_of c mod 16)]
      else [c])"

fun quote :: "string \<Rightarrow> string" where
  "quote [] = []"
| "quote (c # s) =
     (if byte_of c < 0x80 then esc c @ quote s
      else let n = rune_len (c # s) in
        if n = 0 then BS # ''ufffd'' @ quote s
        else (if take n (c # s) = encode_rune 0x2028 then BS # ''u2028''
              else if take n (c # s) = encode_rune 0x2029 then BS # ''u2029''
              else take n (c # s)) @ quote (drop (n - 1) s))"

text \<open>A string literal, after its opening quote: its text up to the closing quote, and the rest.\<close>

fun scan_str :: "string \<Rightarrow> (string \<times> string) option" where
  "scan_str [] = None"
| "scan_str (c # s) =
     (if c = DQ then Some ([], s)
      else if c = BS then
        (case s of
           [] \<Rightarrow> None
         | e # s \<Rightarrow>
             if e \<in> set ''bfnrt/'' \<union> {DQ, BS} \<or> e = CHR ''u'' \<and> 4 \<le> length s \<and> list_all is_hex (take 4 s)
             then map_option (\<lambda>(raw, r). (c # e # raw, r)) (scan_str s) else None)
      else if byte_of c < 32 then None
      else map_option (\<lambda>(raw, r). (c # raw, r)) (scan_str s))"

definition unesc :: "char \<Rightarrow> char" where
  "unesc e = (if e = CHR ''b'' then CHR 0x08 else if e = CHR ''f'' then CHR 0x0C else if e = CHR ''n'' then CHR 0x0A
     else if e = CHR ''r'' then CHR 0x0D else if e = CHR ''t'' then CHR 0x09 else e)"

text \<open>The value of a scanned literal: surrogate pairs are joined, half pairs and invalid bytes
  replaced.\<close>

fun unquote :: "string \<Rightarrow> string" where
  "unquote [] = []"
| "unquote (c # s) =
     (if c = BS then
        (case s of
           [] \<Rightarrow> []
         | e # s \<Rightarrow>
             if e = CHR ''u'' then
               let r = u4 s; s = drop 4 s in
               if 0xD800 \<le> r \<and> r < 0xE000 then
                 let r1 = u4 (drop 2 s) in
                 if r < 0xDC00 \<and> take 2 s = BS # ''u'' \<and> 0xDC00 \<le> r1 \<and> r1 < 0xE000
                 then encode_rune ((r - 0xD800) * 0x400 + (r1 - 0xDC00) + 0x10000) @ unquote (drop 6 s)
                 else RuneError @ unquote s
               else encode_rune r @ unquote s
             else unesc e # unquote s)
      else if byte_of c < 0x80 then c # unquote s
      else let n = rune_len (c # s) in
        if n = 0 then RuneError @ unquote s else take n (c # s) @ unquote (drop (n - 1) s))"

text \<open>The bytes of a valid rune: none but the first decides its length, and all are above ASCII.\<close>

lemma in_bytesE:
  assumes "in_bytes lo hi s"
  obtains d r where "s = d # r" "lo \<le> byte_of d" "byte_of d \<le> hi"
  using assms by (cases s) auto

lemma rune_split:
  assumes "0x80 \<le> byte_of c" "rune_len (c # s) = n" "n \<noteq> 0"
  obtains a r where "s = a @ r" "length a = n - 1" "\<And>d. d \<in> set a \<Longrightarrow> 0x80 \<le> byte_of d"
    "\<And>r'. rune_len (c # a @ r') = n"
proof -
  have b: "\<not> byte_of c < 0x80" "\<not> (byte_of c < 0xC2 \<or> 0xF4 < byte_of c)"
    using assms by (auto simp: Let_def split: if_splits)
  let ?b3 = "in_bytes (if byte_of c = 0xE0 then 0xA0 else 0x80) (if byte_of c = 0xED then 0x9F else 0xBF)"
  let ?b4 = "in_bytes (if byte_of c = 0xF0 then 0x90 else 0x80) (if byte_of c = 0xF4 then 0x8F else 0xBF)"
  consider "byte_of c < 0xE0" "in_bytes 0x80 0xBF s" "n = 2"
    | "\<not> byte_of c < 0xE0" "byte_of c < 0xF0" "?b3 s" "in_bytes 0x80 0xBF (tl s)" "n = 3"
    | "\<not> byte_of c < 0xE0" "\<not> byte_of c < 0xF0" "?b4 s" "in_bytes 0x80 0xBF (tl s)" "in_bytes 0x80 0xBF (tl (tl s))" "n = 4"
    using assms(2,3) b unfolding rune_len.simps Let_def by (simp only: if_False split: if_split_asm) auto
  then show thesis
  proof cases
    case 1
    obtain d r where "s = d # r" "0x80 \<le> byte_of d" using 1(2) by (rule in_bytesE)
    then show thesis using 1 b by (intro that[of "[d]" r]) (auto simp: Let_def)
  next
    case 2
    obtain d r where s: "s = d # r" "0x80 \<le> byte_of d" using 2(3) by (rule in_bytesE) (auto split: if_splits)
    obtain d' r' where s': "r = d' # r'" "0x80 \<le> byte_of d'" using 2(4) unfolding s list.sel by (rule in_bytesE)
    show thesis using 2 b s s' by (intro that[of "[d, d']" r']) (auto simp: Let_def)
  next
    case 3
    obtain d r where s: "s = d # r" "0x80 \<le> byte_of d" using 3(3) by (rule in_bytesE) (auto split: if_splits)
    obtain d' r' where s': "r = d' # r'" "0x80 \<le> byte_of d'" using 3(4) unfolding s list.sel by (rule in_bytesE)
    obtain d'' r'' where s'': "r' = d'' # r''" "0x80 \<le> byte_of d''" using 3(5) unfolding s s' list.sel by (rule in_bytesE)
    show thesis using 3 b s s' s'' by (intro that[of "[d, d', d'']" r'']) (auto simp: Let_def)
  qed
qed

declare rune_len.simps(2) [simp del]

lemma hexd_val: "n < 16 \<Longrightarrow> is_hex (hexd n) \<and> hex_val (hexd n) = n"
  by (auto simp: is_hex_def hexd_def hex_val_def is_digit_def Let_def)

lemma is_hex_plain: "is_hex c \<Longrightarrow> 32 \<le> byte_of c \<and> c \<noteq> DQ \<and> c \<noteq> BS"
  by (auto simp: is_hex_def is_digit_def)

abbreviation cons_raw :: "string \<Rightarrow> (string \<times> string) option \<Rightarrow> (string \<times> string) option" where
  "cons_raw a \<equiv> map_option (\<lambda>(raw, r). (a @ raw, r))"

lemma cons_raw_cons_raw: "cons_raw a (cons_raw b x) = cons_raw (a @ b) x"
  by (cases x) auto

lemma scan_str_plain:
  "list_all (\<lambda>c. 32 \<le> byte_of c \<and> c \<noteq> DQ \<and> c \<noteq> BS) a \<Longrightarrow> scan_str (a @ s) = cons_raw a (scan_str s)"
proof (induction a)
  case (Cons c a)
  then show ?case by (cases "scan_str s") auto
qed (simp add: option.map_id0)

lemma scan_str_u:
  assumes "length h = 4" "list_all is_hex h"
  shows "scan_str (BS # CHR ''u'' # h @ s) = cons_raw (BS # CHR ''u'' # h) (scan_str s)"
proof -
  have "scan_str (h @ s) = cons_raw h (scan_str s)"
    by (rule scan_str_plain) (use assms(2) is_hex_plain in \<open>auto simp: list_all_iff\<close>)
  then show ?thesis using assms by (cases "scan_str s") auto
qed

lemma high_plain: "0x80 \<le> byte_of d \<Longrightarrow> 32 \<le> byte_of d \<and> d \<noteq> DQ \<and> d \<noteq> BS"
  by auto

lemma rune_len_ascii: "byte_of c < 0x80 \<Longrightarrow> rune_len (c # s) = 1"
  by (simp add: rune_len.simps)

lemma esc_cases:
  obtains (short) "c = DQ \<or> c = BS \<or> c \<in> {CHR 0x0A, CHR 0x0D, CHR 0x09}"
    | (hex) "esc c = BS # CHR ''u'' # ''00'' @ [hexd (byte_of c div 16), hexd (byte_of c mod 16)]"
    | (plain) "esc c = [c]" "32 \<le> byte_of c" "c \<noteq> DQ" "c \<noteq> BS"
proof (cases "c = DQ \<or> c = BS \<or> c \<in> {CHR 0x0A, CHR 0x0D, CHR 0x09}")
  case False
  show thesis
  proof (cases "byte_of c < 32 \<or> c = CHR ''<'' \<or> c = CHR ''>'' \<or> c = CHR ''&''")
    case True
    then show thesis using False by (intro hex) (simp add: esc_def)
  next
    case plain_c: False
    then show thesis using False by (intro plain) (simp_all add: esc_def)
  qed
qed (rule short)

lemma scan_esc:
  assumes "byte_of c < 0x80"
  shows "scan_str (esc c @ s) = cons_raw (esc c) (scan_str s)"
proof -
  show ?thesis
  proof (cases c rule: esc_cases)
    case short
    then show ?thesis by (elim disjE insertE emptyE) (cases "scan_str s"; simp add: esc_def)+
  next
    case hex
    have "list_all is_hex (''00'' @ [hexd (byte_of c div 16), hexd (byte_of c mod 16)])"
      using assms hexd_val[of "byte_of c div 16"] hexd_val[of "byte_of c mod 16"] by (simp add: is_hex_def)
    then show ?thesis using scan_str_u[of "''00'' @ [hexd (byte_of c div 16), hexd (byte_of c mod 16)]" s] by (simp add: hex)
  next
    case plain
    then show ?thesis using scan_str_plain[of "[c]" s] by simp
  qed
qed

lemma scan_quote: "scan_str (quote s @ DQ # r) = Some (quote s, r)"
proof (induction s rule: quote.induct)
  case (2 c s)
  show ?case
  proof (cases "byte_of c < 0x80")
    case True
    then show ?thesis using 2(1) scan_esc[OF True, of "quote s @ DQ # r"] by simp
  next
    case False
    define n where "n = rune_len (c # s)"
    show ?thesis
    proof (cases "n = 0")
      case True
      then show ?thesis using 2(2)[OF False n_def True] False scan_str_u[of "''fffd''" "quote s @ DQ # r"]
        by (simp add: n_def is_hex_def is_digit_def)
    next
      case n: False
      have hi: "0x80 \<le> byte_of c" using False by simp
      obtain a r0 where a: "s = a @ r0" "length a = n - 1" "\<And>d. d \<in> set a \<Longrightarrow> 0x80 \<le> byte_of d" "\<And>r'. rune_len (c # a @ r') = n"
        by (rule rune_split[OF hi n_def[symmetric] n]) blast
      define x where "x = (if take n (c # s) = encode_rune 0x2028 then BS # ''u2028''
              else if take n (c # s) = encode_rune 0x2029 then BS # ''u2029'' else take n (c # s))"
      have q: "quote (c # s) = x @ quote (drop (n - 1) s)" using False n by (simp add: x_def Let_def flip: n_def)
      have "take n (c # s) = c # a" using a n by (cases n) simp_all
      then have "list_all (\<lambda>c. 32 \<le> byte_of c \<and> c \<noteq> DQ \<and> c \<noteq> BS) (take n (c # s))"
        using a(3) False by (simp add: list_all_iff high_plain)
      then have "scan_str (x @ y) = cons_raw x (scan_str y)" for y
        using scan_str_plain[of "take n (c # s)" y] scan_str_u[of "''2028''" y] scan_str_u[of "''2029''" y]
        by (simp add: x_def is_hex_def is_digit_def)
      then show ?thesis using 2(3)[OF False n_def n] unfolding q by simp
    qed
  qed
qed simp

lemma encode_ascii: "byte_of c < 0x80 \<Longrightarrow> encode_rune (byte_of c) = [c]"
  by (simp add: encode_rune_def)

lemma unquote_u:
  assumes "u4 h = v" "length h = 4" "v < 0xD800 \<or> 0xE000 \<le> v"
  shows "unquote (BS # CHR ''u'' # h @ s) = encode_rune v @ unquote s"
proof -
  have "u4 (h @ s) = v" using assms(1,2) by (simp add: u4_def)
  then show ?thesis using assms by (auto simp: Let_def)
qed

lemma unquote_esc:
  assumes "byte_of c < 0x80"
  shows "unquote (esc c @ s) = c # unquote s"
proof -
  show ?thesis
  proof (cases c rule: esc_cases)
    case short
    then show ?thesis by (auto simp: esc_def unesc_def)
  next
    case hex
    have "u4 (''00'' @ [hexd (byte_of c div 16), hexd (byte_of c mod 16)]) = byte_of c"
      using assms hexd_val[of "byte_of c div 16"] hexd_val[of "byte_of c mod 16"] by (simp add: u4_def hex_val_def[of "CHR ''0''"] Let_def)
    then show ?thesis
      using unquote_u[of "''00'' @ [hexd (byte_of c div 16), hexd (byte_of c mod 16)]" "byte_of c" s] assms encode_ascii[OF assms]
      by (simp add: hex)
  next
    case plain
    then show ?thesis using assms by simp
  qed
qed

text \<open>A string of valid UTF-8 survives quoting and unquoting.\<close>

lemma unquote_quote: "valid_utf8 s \<Longrightarrow> unquote (quote s) = s"
proof (induction s rule: quote.induct)
  case (2 c s)
  show ?case
  proof (cases "byte_of c < 0x80")
    case True
    then show ?thesis using 2(1) 2(4) unquote_esc[OF True, of "quote s"] by (simp add: rune_len_ascii)
  next
    case False
    define n where "n = rune_len (c # s)"
    have n: "n \<noteq> 0" using 2(4) by (simp add: n_def)
    have hi: "0x80 \<le> byte_of c" using False by simp
    obtain a r0 where a: "s = a @ r0" "length a = n - 1" "\<And>d. d \<in> set a \<Longrightarrow> 0x80 \<le> byte_of d" "\<And>r'. rune_len (c # a @ r') = n"
      by (rule rune_split[OF hi n_def[symmetric] n]) blast
    have t: "take n (c # s) = c # a" "drop (n - 1) s = r0" using a n by (cases n; simp)+
    have "c \<noteq> BS" using False by auto
    then have plain: "unquote (c # a @ y) = c # a @ unquote y" for y
      using False a(2,4) n by (cases n) (simp_all add: Let_def)
    have IH: "unquote (quote r0) = r0" using 2(3)[OF False n_def n] 2(4) t(2) by (simp flip: n_def)
    have u: "unquote (BS # ''u2028'' @ y) = encode_rune 0x2028 @ unquote y" "unquote (BS # ''u2029'' @ y) = encode_rune 0x2029 @ unquote y" for y
      using unquote_u[of "''2028''" "0x2028" y] unquote_u[of "''2029''" "0x2029" y] by (simp_all add: u4_def hex_val_def Let_def)
    define x where "x = (if c # a = encode_rune 0x2028 then BS # ''u2028'' else if c # a = encode_rune 0x2029 then BS # ''u2029'' else c # a)"
    have q: "quote (c # s) = x @ quote r0" using False n t by (simp add: x_def Let_def flip: n_def)
    consider "x = BS # ''u2028''" "c # a = encode_rune 0x2028" | "x = BS # ''u2029''" "c # a = encode_rune 0x2029" | "x = c # a"
      unfolding x_def by metis
    then have "unquote (x @ y) = (c # a) @ unquote y" for y
      by cases (simp_all only: append.simps plain u[simplified append.simps])
    then show ?thesis using IH a(1) unfolding q by simp
  qed
qed simp

subsection \<open>Values\<close>

datatype json = JNull | JBool bool | JNumber string | JString string | JArray "json list" | JObject "(string \<times> json) list"

definition skip :: "string \<Rightarrow> string" where
  "skip s = dropWhile (\<lambda>c. c \<in> {CHR 0x20, CHR 0x09, CHR 0x0D, CHR 0x0A}) s"

text \<open>A number literal: an optional sign, an integer without leading zeros, an optional fraction and
  an optional exponent.\<close>

definition scan_digits :: "string \<Rightarrow> (string \<times> string) option" where
  "scan_digits s = (let ds = takeWhile is_digit s in if ds = [] then None else Some (ds, dropWhile is_digit s))"

definition scan_int :: "string \<Rightarrow> (string \<times> string) option" where
  "scan_int s = (case lit (CHR ''0'') s of Some r \<Rightarrow> Some (''0'', r) | None \<Rightarrow> scan_digits s)"

definition scan_frac :: "string \<Rightarrow> (string \<times> string) option" where
  "scan_frac s = (case lit (CHR ''.'') s of None \<Rightarrow> Some ([], s)
     | Some r \<Rightarrow> map_option (\<lambda>(ds, r). (CHR ''.'' # ds, r)) (scan_digits r))"

definition scan_exp :: "string \<Rightarrow> (string \<times> string) option" where
  "scan_exp s =
     (case s of
        [] \<Rightarrow> Some ([], [])
      | e # r \<Rightarrow>
          if e \<noteq> CHR ''e'' \<and> e \<noteq> CHR ''E'' then Some ([], s)
          else let sign = takeWhile (\<lambda>c. c = CHR ''+'' \<or> c = CHR ''-'') (take 1 r) in
            map_option (\<lambda>(ds, r). (e # sign @ ds, r)) (scan_digits (drop (length sign) r)))"

definition scan_num :: "string \<Rightarrow> (string \<times> string) option" where
  "scan_num s = do {
     let sign = takeWhile (\<lambda>c. c = CHR ''-'') (take 1 s);
     (i, s) \<leftarrow> scan_int (drop (length sign) s);
     (f, s) \<leftarrow> scan_frac s;
     (e, s) \<leftarrow> scan_exp s;
     Some (sign @ i @ f @ e, s)
   }"

definition jscalar :: "string \<Rightarrow> (json \<times> string) option" where
  "jscalar s =
     (if HasPrefix s [DQ] then map_option (\<lambda>(raw, r). (JString raw, r)) (scan_str (tl s))
      else if HasPrefix s ''null'' then Some (JNull, drop 4 s)
      else if HasPrefix s ''true'' then Some (JBool True, drop 4 s)
      else if HasPrefix s ''false'' then Some (JBool False, drop 5 s)
      else map_option (\<lambda>(n, r). (JNumber n, r)) (scan_num s))"

text \<open>Values, the elements of an array and the members of an object, each with what follows. \<open>d\<close> is
  the nesting that is still allowed (the scanner refuses more than 10000 levels); the fuel is
  only there for the recursion, see \<open>jvalue_fuel\<close>.\<close>

fun jvalue :: "nat \<Rightarrow> nat \<Rightarrow> string \<Rightarrow> (json \<times> string) option"
  and jelems :: "nat \<Rightarrow> nat \<Rightarrow> string \<Rightarrow> (json list \<times> string) option"
  and jmembers :: "nat \<Rightarrow> nat \<Rightarrow> string \<Rightarrow> ((string \<times> json) list \<times> string) option" where
  "jvalue 0 d s = None"
| "jvalue (Suc k) d s =
     (case skip s of
        [] \<Rightarrow> None
      | c # r \<Rightarrow>
          if c = CHR ''['' then
            if d = 0 then None
            else (case lit (CHR '']'') (skip r) of
                    Some r \<Rightarrow> Some (JArray [], r)
                  | None \<Rightarrow> map_option (\<lambda>(js, r). (JArray js, r)) (jelems k (d - 1) r))
          else if c = CHR ''{'' then
            if d = 0 then None
            else (case lit (CHR ''}'') (skip r) of
                    Some r \<Rightarrow> Some (JObject [], r)
                  | None \<Rightarrow> map_option (\<lambda>(ms, r). (JObject ms, r)) (jmembers k (d - 1) r))
          else jscalar (c # r))"
| "jelems 0 d s = None"
| "jelems (Suc k) d s = do {
     (j, r) \<leftarrow> jvalue k d s;
     case skip r of
       [] \<Rightarrow> None
     | c # r \<Rightarrow>
         if c = CHR '','' then map_option (\<lambda>(js, r). (j # js, r)) (jelems k d r)
         else if c = CHR '']'' then Some ([j], r) else None
   }"
| "jmembers 0 d s = None"
| "jmembers (Suc k) d s = do {
     r \<leftarrow> lit DQ (skip s);
     (raw, r) \<leftarrow> scan_str r;
     r \<leftarrow> lit (CHR '':'') (skip r);
     (j, r) \<leftarrow> jvalue k d r;
     case skip r of
       [] \<Rightarrow> None
     | c # r \<Rightarrow>
         if c = CHR '','' then map_option (\<lambda>(ms, r). ((raw, j) # ms, r)) (jmembers k d r)
         else if c = CHR ''}'' then Some ([(raw, j)], r) else None
   }"

text \<open>A whole text is one value with white space around it.\<close>

definition json_parse :: "string \<Rightarrow> json option" where
  "json_parse s =
     (case jvalue (2 * length s + 1) 10000 s of
        Some (j, r) \<Rightarrow> if skip r = [] then Some j else None
      | None \<Rightarrow> None)"

fun join :: "string list \<Rightarrow> string" where
  "join [] = []"
| "join [x] = x"
| "join (x # y # xs) = x @ '','' @ join (y # xs)"

fun jprint :: "json \<Rightarrow> string" where
  "jprint JNull = ''null''"
| "jprint (JBool b) = (if b then ''true'' else ''false'')"
| "jprint (JNumber n) = n"
| "jprint (JString raw) = DQ # raw @ [DQ]"
| "jprint (JArray js) = ''['' @ join (map jprint js) @ '']''"
| "jprint (JObject ms) = ''{'' @ join (map (\<lambda>(k, j). DQ # k @ [DQ] @ '':'' @ jprint j) ms) @ ''}''"

subsection \<open>Printing and parsing\<close>

definition follows :: "string \<Rightarrow> bool" where
  "follows r \<longleftrightarrow> r = [] \<or> hd r \<in> {CHR '','', CHR '']'', CHR ''}''}"

definition str_ok :: "string \<Rightarrow> bool" where
  "str_ok raw \<longleftrightarrow> (\<forall>r. scan_str (raw @ DQ # r) = Some (raw, r))"

definition num_ok :: "string \<Rightarrow> bool" where
  "num_ok n \<longleftrightarrow> n \<noteq> [] \<and> (is_digit (hd n) \<or> hd n = CHR ''-'') \<and> (\<forall>r. follows r \<longrightarrow> scan_num (n @ r) = Some (n, r))"

text \<open>A value that prints to what it is, with at most \<open>d\<close> levels.\<close>

fun jok :: "nat \<Rightarrow> json \<Rightarrow> bool" where
  "jok d (JNumber n) = num_ok n"
| "jok d (JString raw) = str_ok raw"
| "jok d (JArray js) \<longleftrightarrow> d \<noteq> 0 \<and> (\<forall>j\<in>set js. jok (d - 1) j)"
| "jok d (JObject ms) \<longleftrightarrow> d \<noteq> 0 \<and> (\<forall>(k, j)\<in>set ms. str_ok k \<and> jok (d - 1) j)"
| "jok d j = True"

lemma skip_simps [simp]:
  "skip (CHR '','' # s) = CHR '','' # s" "skip (CHR '']'' # s) = CHR '']'' # s" "skip (CHR ''}'' # s) = CHR ''}'' # s"
  "skip (CHR ''['' # s) = CHR ''['' # s" "skip (CHR ''{'' # s) = CHR ''{'' # s" "skip (DQ # s) = DQ # s" "skip (CHR '':'' # s) = CHR '':'' # s"
  "skip [] = []" "skip (CHR ''n'' # s) = CHR ''n'' # s" "skip (CHR ''t'' # s) = CHR ''t'' # s" "skip (CHR ''f'' # s) = CHR ''f'' # s"
  by (simp_all add: skip_def)

lemma num_char:
  assumes "is_digit c \<or> c = CHR ''-''"
  shows "c \<notin> {CHR 0x20, CHR 0x09, CHR 0x0D, CHR 0x0A, DQ, CHR ''['', CHR ''{'', CHR '']'', CHR ''n'', CHR ''t'', CHR ''f''}"
  using assms by (auto simp: is_digit_def)

lemma num_head:
  assumes "num_ok n"
  obtains c cs where "n = c # cs" "is_digit c \<or> c = CHR ''-''" "\<And>r. skip (n @ r) = n @ r" "\<And>r. lit (CHR '']'') (n @ r) = None"
proof -
  obtain c cs where n: "n = c # cs" "is_digit c \<or> c = CHR ''-''" using assms by (cases n) (auto simp: num_ok_def)
  then show thesis using num_char[OF n(2)] by (intro that[of c cs]) (simp_all add: skip_def)
qed

lemma jprint_head: "jok d j \<Longrightarrow> skip (jprint j @ r) = jprint j @ r \<and> lit (CHR '']'') (jprint j @ r) = None"
  by (cases j) (simp_all, metis num_head)

lemma jvalue_number:
  assumes "num_ok n" "follows r"
  shows "jvalue (Suc k) d (n @ r) = Some (JNumber n, r)"
proof -
  obtain c cs where n: "n = c # cs" "is_digit c \<or> c = CHR ''-''" "skip (n @ r) = n @ r"
    using num_head[OF assms(1)] by metis
  have "scan_num (n @ r) = Some (n, r)" using assms by (simp add: num_ok_def)
  then show ?thesis using n(3) num_char[OF n(2)] by (simp add: n(1) jscalar_def HasPrefix_def)
qed

abbreviation prints :: "json \<Rightarrow> nat \<Rightarrow> bool" where
  "prints j d \<equiv> \<forall>f r. 2 * length (jprint j) + 1 \<le> f \<longrightarrow> follows r \<longrightarrow> jvalue f d (jprint j @ r) = Some (j, r)"

lemma jelems_print:
  assumes "js \<noteq> []" "\<forall>j\<in>set js. prints j d" "2 * length (join (map jprint js)) + 2 \<le> f"
  shows "jelems f d (join (map jprint js) @ CHR '']'' # r) = Some (js, r)"
  using assms
proof (induction js arbitrary: f)
  case (Cons j js)
  obtain k where f: "f = Suc k" using Cons.prems(3) by (cases f) auto
  show ?case
  proof (cases js)
    case Nil
    then show ?thesis using Cons.prems(2,3) f by (simp add: follows_def)
  next
    case (Cons j' js')
    then have "jelems k d (join (map jprint js) @ CHR '']'' # r) = Some (js, r)"
      using Cons.prems(2,3) f by (intro Cons.IH) simp_all
    moreover have "jvalue k d (jprint j @ CHR '','' # join (map jprint js) @ CHR '']'' # r) =
        Some (j, CHR '','' # join (map jprint js) @ CHR '']'' # r)"
      using Cons.prems(2,3) f Cons by (simp add: follows_def)
    ultimately show ?thesis using Cons f by simp
  qed
qed simp

lemma jmembers_print:
  assumes "ms \<noteq> []" "\<forall>(k, j)\<in>set ms. str_ok k \<and> prints j d"
    and "2 * length (join (map (\<lambda>(k, j). DQ # k @ [DQ] @ '':'' @ jprint j) ms)) + 2 \<le> f"
  shows "jmembers f d (join (map (\<lambda>(k, j). DQ # k @ [DQ] @ '':'' @ jprint j) ms) @ CHR ''}'' # r) = Some (ms, r)"
  using assms
proof (induction ms arbitrary: f)
  case (Cons m ms)
  let ?p = "\<lambda>(k, j). DQ # k @ [DQ] @ '':'' @ jprint j"
  obtain key j where m: "m = (key, j)" by (cases m)
  obtain k where f: "f = Suc k" using Cons.prems(3) by (cases f) auto
  have key: "scan_str (key @ DQ # x) = Some (key, x)" for x using Cons.prems(2) by (simp add: m str_ok_def)
  show ?case
  proof (cases ms)
    case Nil
    then show ?thesis using Cons.prems(2,3) f by (simp add: m key follows_def)
  next
    case (Cons m' ms')
    then have "jmembers k d (join (map ?p ms) @ CHR ''}'' # r) = Some (ms, r)"
      using Cons.prems(2,3) f by (intro Cons.IH) simp_all
    moreover have "jvalue k d (jprint j @ CHR '','' # join (map ?p ms) @ CHR ''}'' # r) =
        Some (j, CHR '','' # join (map ?p ms) @ CHR ''}'' # r)"
      using Cons.prems(2,3) f Cons by (simp add: m follows_def)
    ultimately show ?thesis using Cons f by (simp add: m key)
  qed
qed simp

lemma jvalue_print: "jok d j \<Longrightarrow> prints j d"
proof (induction j arbitrary: d)
  case (JArray js)
  show ?case
  proof (intro allI impI)
    fix f r
    assume "2 * length (jprint (JArray js)) + 1 \<le> f" "follows r"
    then obtain k where f: "f = Suc k" "2 * length (join (map jprint js)) + 2 \<le> k" by (cases f) auto
    show "jvalue f d (jprint (JArray js) @ r) = Some (JArray js, r)"
    proof (cases js)
      case Nil
      then show ?thesis using JArray.prems f by simp
    next
      case (Cons j js')
      have "lit (CHR '']'') (skip (join (map jprint js) @ CHR '']'' # r)) = None"
        using jprint_head[of "d - 1" j] JArray.prems Cons by (cases js') simp_all
      moreover have "jelems k (d - 1) (join (map jprint js) @ CHR '']'' # r) = Some (js, r)"
        by (rule jelems_print[OF _ _ f(2)]) (use Cons JArray in auto)
      ultimately show ?thesis using JArray.prems f(1) by simp
    qed
  qed
next
  case (JObject ms)
  show ?case
  proof (intro allI impI)
    fix f r
    assume "2 * length (jprint (JObject ms)) + 1 \<le> f" "follows r"
    then obtain k where f: "f = Suc k" "2 * length (join (map (\<lambda>(k, j). DQ # k @ [DQ] @ '':'' @ jprint j) ms)) + 2 \<le> k" by (cases f) auto
    show "jvalue f d (jprint (JObject ms) @ r) = Some (JObject ms, r)"
    proof (cases ms)
      case Nil
      then show ?thesis using JObject.prems f by simp
    next
      case (Cons m ms')
      have "lit (CHR ''}'') (skip (join (map (\<lambda>(k, j). DQ # k @ [DQ] @ '':'' @ jprint j) ms) @ CHR ''}'' # r)) = None"
        using Cons by (cases ms') (simp_all split: prod.split)
      moreover have "jmembers k (d - 1) (join (map (\<lambda>(k, j). DQ # k @ [DQ] @ '':'' @ jprint j) ms) @ CHR ''}'' # r) = Some (ms, r)"
        by (rule jmembers_print[OF _ _ f(2)]) (use Cons JObject in fastforce)+
      ultimately show ?thesis using JObject.prems f(1) by simp
    qed
  qed
next
  case (JNumber n)
  show ?case
  proof (intro allI impI)
    fix f r
    assume "2 * length (jprint (JNumber n)) + 1 \<le> f" "follows r"
    then show "jvalue f d (jprint (JNumber n) @ r) = Some (JNumber n, r)"
      using jvalue_number[of n r] JNumber by (cases f) simp_all
  qed
next
  case (JString raw)
  show ?case
  proof (intro allI impI)
    fix f r
    assume "2 * length (jprint (JString raw)) + 1 \<le> f" "follows r"
    then show "jvalue f d (jprint (JString raw) @ r) = Some (JString raw, r)"
      using JString by (cases f) (simp_all add: str_ok_def jscalar_def HasPrefix_def)
  qed
next
  case JNull
  have "jvalue f d (''null'' @ r) = Some (JNull, r)" if "f \<noteq> 0" for f r using that by (cases f) (simp_all add: jscalar_def HasPrefix_def)
  then show ?case by simp
next
  case (JBool b)
  have "jvalue f d (''true'' @ r) = Some (JBool True, r) \<and> jvalue f d (''false'' @ r) = Some (JBool False, r)" if "f \<noteq> 0" for f r
    using that by (cases f) (simp_all add: jscalar_def HasPrefix_def)
  then show ?case by simp
qed

lemma json_parse_print:
  assumes "jok 10000 j"
  shows "json_parse (jprint j) = Some j"
  using jvalue_print[OF assms, rule_format, of "2 * length (jprint j) + 1" "[]"]
  by (simp add: json_parse_def follows_def)

subsection \<open>The fuel is enough\<close>

lemma skip_length: "length (skip s) \<le> length s"
  unfolding skip_def by (rule length_dropWhile_le)

lemma lit_length: "lit c s = Some r \<Longrightarrow> length s = Suc (length r)"
  by (cases s) (auto split: if_splits)

lemma scan_str_length: "scan_str s = Some (raw, r) \<Longrightarrow> length r < length s"
proof (induction s arbitrary: raw r rule: scan_str.induct)
  case (2 c s)
  show ?case
  proof (cases "c = BS")
    case True
    then obtain e s' raw' where "s = e # s'" "e \<in> set ''bfnrt/'' \<union> {DQ, BS} \<or> e = CHR ''u'' \<and> 4 \<le> length s' \<and> list_all is_hex (take 4 s')"
      "scan_str s' = Some (raw', r)" using 2(3) by (auto split: list.splits if_splits)
    then show ?thesis using 2(1)[of e s' raw' r] True by simp
  next
    case False
    then show ?thesis using 2(2)[of _ r] 2(3) by (auto split: if_splits)
  qed
qed simp

lemma scan_digits_length: "scan_digits s = Some (ds, r) \<Longrightarrow> length r < length s"
proof -
  assume "scan_digits s = Some (ds, r)"
  then have "ds \<noteq> []" "ds @ r = s" by (auto simp: scan_digits_def Let_def split: if_splits)
  then show ?thesis by auto
qed

lemma scan_num_length: "scan_num s = Some (n, r) \<Longrightarrow> length r < length s"
proof -
  assume "scan_num s = Some (n, r)"
  then obtain k i s1 f s2 e where 1: "scan_int (drop k s) = Some (i, s1)" "scan_frac s1 = Some (f, s2)" "scan_exp s2 = Some (e, r)"
    by (auto simp: scan_num_def Let_def bind_eq_Some_conv)
  have "length s1 < length (drop k s)"
    using 1(1) scan_digits_length lit_length by (fastforce simp: scan_int_def split: option.splits)
  moreover have "length s2 \<le> length s1"
    using 1(2) scan_digits_length lit_length by (fastforce simp: scan_frac_def split: option.splits)
  moreover have "length r \<le> length s2"
    using 1(3) by (fastforce simp: scan_exp_def Let_def split: list.splits if_splits dest: scan_digits_length)
  ultimately show ?thesis by simp
qed

lemma jscalar_length:
  assumes "jscalar (c # x) = Some (j, r)"
  shows "length r \<le> length x"
proof -
  consider raw where "scan_str x = Some (raw, r)" | n where "scan_num (c # x) = Some (n, r)" | "r = drop 3 x" | "r = drop 4 x"
    using assms unfolding jscalar_def by (force split: if_split_asm)
  then show ?thesis by cases (auto dest: scan_str_length scan_num_length)
qed

lemma parse_length:
  "(jvalue f d s = Some (j, r) \<longrightarrow> length r < length s)
   \<and> (jelems f d s = Some (js, r) \<longrightarrow> length r < length s) \<and> (jmembers f d s = Some (ms, r) \<longrightarrow> length r < length s)"
proof (induction f arbitrary: d s j js ms r)
  case (Suc k)
  have v: "length r < length s" if parsed: "jvalue (Suc k) d s = Some (j, r)" for d s j r
  proof -
    obtain c x where x: "skip s = c # x" using parsed by (cases "skip s") auto
    have "length x < length s" using skip_length[of s] x by simp
    moreover have "length r \<le> length x"
    proof (cases "c = CHR ''['' \<or> c = CHR ''{''")
      case True
      then show ?thesis
        using parsed x Suc.IH[of _ x] lit_length skip_length[of x]
        by (fastforce split: if_splits option.splits)
    next
      case False
      then show ?thesis
        using parsed x jscalar_length[of c x j r] by simp
    qed
    ultimately show ?thesis by simp
  qed
  have e: "length r < length s" if parsed: "jelems (Suc k) d s = Some (js, r)"
  proof -
    obtain j x where x: "jvalue k d s = Some (j, x)" using parsed by (cases "jvalue k d s") auto
    obtain c y where y: "skip x = c # y" using parsed x by (cases "skip x") auto
    have "r = y \<or> (\<exists>js. jelems k d y = Some (js, r))" using parsed x y by (auto split: if_splits)
    then have "length r \<le> length y" by (metis Suc.IH less_imp_le order_refl)
    moreover have "length x < length s" using Suc.IH x by blast
    ultimately show ?thesis using skip_length[of x] y by simp
  qed
  have m: "length r < length s" if parsed: "jmembers (Suc k) d s = Some (ms, r)"
  proof -
    obtain r1 raw r2 r3 j x where x: "lit DQ (skip s) = Some r1" "scan_str r1 = Some (raw, r2)" "lit (CHR '':'') (skip r2) = Some r3"
      "jvalue k d r3 = Some (j, x)"
      using parsed by (auto simp: bind_eq_Some_conv)
    obtain c y where y: "skip x = c # y" using parsed x by (cases "skip x") auto
    have "r = y \<or> (\<exists>ms. jmembers k d y = Some (ms, r))" using parsed x y by (auto split: if_splits)
    then have "length r \<le> length y" by (metis Suc.IH less_imp_le order_refl)
    moreover have "length x < length r3" using Suc.IH x(4) by blast
    ultimately show ?thesis
      using skip_length[of x] skip_length[of s] skip_length[of r2] lit_length[OF x(1)] lit_length[OF x(3)] scan_str_length[OF x(2)] y by simp
  qed
  show ?case using v e m by blast
qed simp

lemma jvalue_length: "jvalue f d s = Some (j, r) \<Longrightarrow> length r < length s"
  using parse_length by blast

text \<open>More fuel than twice the text changes nothing.\<close>

lemma jvalue_fuel_all:
  "(\<forall>f g. 2 * length s + 1 \<le> f \<longrightarrow> 2 * length s + 1 \<le> g \<longrightarrow> jvalue f d s = jvalue g d s)
   \<and> (\<forall>f g. 2 * length s + 2 \<le> f \<longrightarrow> 2 * length s + 2 \<le> g \<longrightarrow> jelems f d s = jelems g d s \<and> jmembers f d s = jmembers g d s)"
proof (induction s arbitrary: d rule: length_induct)
  case (1 s)
  have sub: "jelems f d x = jelems g d x \<and> jmembers f d x = jmembers g d x"
    if "length x < length s" "2 * length x + 2 \<le> f" "2 * length x + 2 \<le> g" for f g d x
    using 1 that by blast
  have v: "jvalue f d s = jvalue g d s" if fg: "2 * length s + 1 \<le> f" "2 * length s + 1 \<le> g" for f g d
  proof -
    obtain k l where k: "f = Suc k" "g = Suc l" "2 * length s \<le> k" "2 * length s \<le> l"
      using fg by (cases f; cases g) auto
    show ?thesis
    proof (cases "skip s")
      case (Cons c x)
      then have "length x < length s" using skip_length[of s] by simp
      then show ?thesis using sub[of x k l "d - 1"] k by (simp add: Cons del: One_nat_def split: option.split)
    qed (simp add: k)
  qed
  have e: "jelems f d s = jelems g d s" if fg: "2 * length s + 2 \<le> f" "2 * length s + 2 \<le> g" for f g
  proof -
    obtain k l where k: "f = Suc k" "g = Suc l" "2 * length s + 1 \<le> k" "2 * length s + 1 \<le> l"
      using fg by (cases f; cases g) auto
    have "jelems k d y = jelems l d y" if "jvalue l d s = Some (j, x)" "skip x = c # y" for j x c y
      using sub[of y k l d] jvalue_length[of l d s j x] skip_length[of x] that k by simp
    then show ?thesis
      using v[OF k(3,4), of d] unfolding k(1,2) jelems.simps by (auto intro!: Option.bind_cong split: list.split)
  qed
  have m: "jmembers f d s = jmembers g d s" if fg: "2 * length s + 2 \<le> f" "2 * length s + 2 \<le> g" for f g
  proof -
    obtain k l where k: "f = Suc k" "g = Suc l" "2 * length s + 1 \<le> k" "2 * length s + 1 \<le> l"
      using fg by (cases f; cases g) auto
    have "jvalue k d r = jvalue l d r \<and> (\<forall>j x c y. jvalue l d r = Some (j, x) \<longrightarrow> skip x = c # y \<longrightarrow> jmembers k d y = jmembers l d y)"
      if "lit DQ (skip s) = Some r1" "scan_str r1 = Some (raw, r2)" "lit (CHR '':'') (skip r2) = Some r" for r1 raw r2 r
    proof -
      have r: "length r < length s"
        using lit_length[OF that(1)] scan_str_length[OF that(2)] lit_length[OF that(3)] skip_length[of s] skip_length[of r2] by simp
      moreover have "jmembers k d y = jmembers l d y" if "jvalue l d r = Some (j, x)" "skip x = c # y" for j x c y
        using sub[of y k l d] jvalue_length[of l d r j x] skip_length[of x] that k r by simp
      ultimately show ?thesis using 1[rule_format, of r d] k by simp
    qed
    then show ?thesis
      unfolding k(1,2) jmembers.simps by (auto intro!: Option.bind_cong split: list.split)
  qed
  show ?case using v e m by blast
qed

lemma jvalue_fuel: "2 * length s + 1 \<le> f \<Longrightarrow> jvalue f d s = jvalue (2 * length s + 1) d s"
  using jvalue_fuel_all by blast

end
