(* ===== verification/Snapshot_Codec.thy ===== *)
theory Snapshot_Codec
  imports Accumulator Go_Json
begin

text \<open>
  \<^verbatim>\<open>MarshalSnapshot\<close> and \<^verbatim>\<open>UnmarshalSnapshot\<close> of \<^verbatim>\<open>internal/observer/accumulator.go\<close>: the JSON text
  of a snapshot, with the field names and options of the struct tags, and how \<^verbatim>\<open>json.Unmarshal\<close>
  reads any text into a snapshot. The location of the operator's clock is the argument \<open>zone\<close>.
\<close>

subsection \<open>MarshalSnapshot\<close>

definition go_try :: "go_error + 'a \<Rightarrow> ('a \<Rightarrow> go_error + 'b) \<Rightarrow> go_error + 'b" where
  "go_try m f = (case m of Inl err \<Rightarrow> Inl err | Inr x \<Rightarrow> f x)"

lemma go_try_simps [simp]: "go_try (Inl err) f = Inl err" "go_try (Inr x) f = f x"
  by (simp_all add: go_try_def)

lemma go_try_Inr: "go_try m f = Inr y \<longleftrightarrow> (\<exists>x. m = Inr x \<and> f x = Inr y)"
  by (cases m) auto

fun go_map :: "('a \<Rightarrow> go_error + 'b) \<Rightarrow> 'a list \<Rightarrow> go_error + 'b list" where
  "go_map f [] = Inr []"
| "go_map f (x # xs) = go_try (f x) (\<lambda>y. go_try (go_map f xs) (\<lambda>ys. Inr (y # ys)))"

abbreviation json_str :: "string \<Rightarrow> json" where
  "json_str s \<equiv> JString (quote s)"

definition json_int :: "int \<Rightarrow> json" where
  "json_int n = JNumber (if n < 0 then ''-'' @ dec (nat (- n)) else dec (nat n))"

abbreviation json_nat :: "nat \<Rightarrow> json" where
  "json_nat n \<equiv> JNumber (dec n)"

definition entry_json :: "(int \<Rightarrow> int) \<Rightarrow> DestEntry \<Rightarrow> go_error + json" where
  "entry_json zone e =
     go_try (time_MarshalJSON zone (de_FirstSeen e)) (\<lambda>firstSeen.
     go_try (time_MarshalJSON zone (de_LastSeen e)) (\<lambda>lastSeen.
     Inr (JObject (
       [(''workload'', json_str (de_Workload e))] @
       (if de_DestFQDN e = [] then [] else [(''destFqdn'', json_str (de_DestFQDN e))]) @
       (if de_DestIP e = [] then [] else [(''destIp'', json_str (de_DestIP e))]) @
       [(''destPort'', json_nat (unat (de_DestPort e))), (''protocol'', json_str (de_Protocol e)),
        (''firstSeen'', JString firstSeen), (''lastSeen'', JString lastSeen),
        (''flowCount'', json_nat (unat (de_FlowCount e))), (''bytes'', json_nat (unat (de_Bytes e))),
        (''snapshots'', json_int (de_Snapshots e))]))))"

text \<open>A snapshot without entries has a nil slice, which prints as \<^verbatim>\<open>null\<close>.\<close>

definition snapshot_json :: "(int \<Rightarrow> int) \<Rightarrow> Snapshot \<Rightarrow> go_error + json" where
  "snapshot_json zone s =
     go_try (go_map (entry_json zone) (sn_Destinations s)) (\<lambda>ds.
     go_try (time_MarshalJSON zone (sn_GeneratedAt s)) (\<lambda>generatedAt.
     Inr (JObject
       [(''workloadKey'', json_str (sn_WorkloadKey s)), (''destinations'', if ds = [] then JNull else JArray ds),
        (''truncated'', JBool (sn_Truncated s)), (''generatedAt'', JString generatedAt)])))"

definition MarshalSnapshot :: "(int \<Rightarrow> int) \<Rightarrow> Snapshot \<Rightarrow> go_error + string" where
  "MarshalSnapshot zone s = go_try (snapshot_json zone s) (\<lambda>j. Inr (jprint j))"

subsection \<open>UnmarshalSnapshot\<close>

text \<open>Names are matched up to case (and two non-ASCII letters that fold to ASCII ones).\<close>

fun fold_name :: "string \<Rightarrow> string" where
  "fold_name [] = []"
| "fold_name (c # s) =
     (if c = CHR 0xC5 \<and> HasPrefix s [CHR 0xBF] then CHR ''S'' # fold_name (tl s)
      else if c = CHR 0xE2 \<and> HasPrefix s [CHR 0x84, CHR 0xAA] then CHR ''K'' # fold_name (drop 2 s)
      else (if 97 \<le> byte_of c \<and> byte_of c \<le> 122 then char_of (byte_of c - 32) else c) # fold_name s)"

definition names :: "string \<Rightarrow> string \<Rightarrow> bool" where
  "names key field \<longleftrightarrow> fold_name (unquote key) = fold_name field"

definition type_error :: go_error where
  "type_error = JsonError ''json: cannot unmarshal value into Go struct field''"

text \<open>A \<^verbatim>\<open>null\<close> leaves a field as it is; a value of another type is an error.\<close>

definition decode_string :: "json \<Rightarrow> string \<Rightarrow> go_error + string" where
  "decode_string j old = (case j of JNull \<Rightarrow> Inr old | JString raw \<Rightarrow> Inr (unquote raw) | _ \<Rightarrow> Inl type_error)"

definition decode_bool :: "json \<Rightarrow> bool \<Rightarrow> go_error + bool" where
  "decode_bool j old = (case j of JNull \<Rightarrow> Inr old | JBool b \<Rightarrow> Inr b | _ \<Rightarrow> Inl type_error)"

definition decode_uint :: "json \<Rightarrow> 'a::len word \<Rightarrow> go_error + 'a word" where
  "decode_uint j old =
     (case j of
        JNull \<Rightarrow> Inr old
      | JNumber n \<Rightarrow>
          if list_all is_digit n \<and> undec n 0 < 2 ^ LENGTH('a) then Inr (of_nat (undec n 0)) else Inl type_error
      | _ \<Rightarrow> Inl type_error)"

definition decode_int :: "json \<Rightarrow> int \<Rightarrow> go_error + int" where
  "decode_int j old =
     (case j of
        JNull \<Rightarrow> Inr old
      | JNumber n \<Rightarrow>
          let neg = HasPrefix n ''-''; ds = (if neg then tl n else n); v = (if neg then - int (undec ds 0) else int (undec ds 0)) in
          if list_all is_digit ds \<and> - (2 ^ 63) \<le> v \<and> v < 2 ^ 63 then Inr v else Inl type_error
      | _ \<Rightarrow> Inl type_error)"

definition decode_time :: "json \<Rightarrow> int \<Rightarrow> go_error + int" where
  "decode_time j old =
     (case j of
        JNull \<Rightarrow> Inr old
      | JString raw \<Rightarrow> (case parse_time raw of None \<Rightarrow> Inl (JsonError ''parsing time'') | Some t \<Rightarrow> Inr t)
      | _ \<Rightarrow> Inl (JsonError ''Time.UnmarshalJSON: input is not a JSON string''))"

fun decode_members :: "(string \<Rightarrow> json \<Rightarrow> 'a \<Rightarrow> go_error + 'a) \<Rightarrow> (string \<times> json) list \<Rightarrow> 'a \<Rightarrow> go_error + 'a" where
  "decode_members f [] x = Inr x"
| "decode_members f ((key, j) # ms) x = go_try (f key j x) (decode_members f ms)"

definition dest_field :: "string \<Rightarrow> json \<Rightarrow> DestEntry \<Rightarrow> go_error + DestEntry" where
  "dest_field key j e =
     (if names key ''workload'' then go_try (decode_string j (de_Workload e)) (\<lambda>v. Inr (e\<lparr>de_Workload := v\<rparr>))
      else if names key ''destFqdn'' then go_try (decode_string j (de_DestFQDN e)) (\<lambda>v. Inr (e\<lparr>de_DestFQDN := v\<rparr>))
      else if names key ''destIp'' then go_try (decode_string j (de_DestIP e)) (\<lambda>v. Inr (e\<lparr>de_DestIP := v\<rparr>))
      else if names key ''destPort'' then go_try (decode_uint j (de_DestPort e)) (\<lambda>v. Inr (e\<lparr>de_DestPort := v\<rparr>))
      else if names key ''protocol'' then go_try (decode_string j (de_Protocol e)) (\<lambda>v. Inr (e\<lparr>de_Protocol := v\<rparr>))
      else if names key ''firstSeen'' then go_try (decode_time j (de_FirstSeen e)) (\<lambda>v. Inr (e\<lparr>de_FirstSeen := v\<rparr>))
      else if names key ''lastSeen'' then go_try (decode_time j (de_LastSeen e)) (\<lambda>v. Inr (e\<lparr>de_LastSeen := v\<rparr>))
      else if names key ''flowCount'' then go_try (decode_uint j (de_FlowCount e)) (\<lambda>v. Inr (e\<lparr>de_FlowCount := v\<rparr>))
      else if names key ''bytes'' then go_try (decode_uint j (de_Bytes e)) (\<lambda>v. Inr (e\<lparr>de_Bytes := v\<rparr>))
      else if names key ''snapshots'' then go_try (decode_int j (de_Snapshots e)) (\<lambda>v. Inr (e\<lparr>de_Snapshots := v\<rparr>))
      else Inr e)"

definition zero_DestEntry :: DestEntry where
  "zero_DestEntry = \<lparr>de_Workload = [], de_DestFQDN = [], de_DestIP = [], de_DestPort = 0, de_Protocol = [],
     de_FirstSeen = zero_time, de_LastSeen = zero_time, de_FlowCount = 0, de_Bytes = 0, de_Snapshots = 0\<rparr>"

text \<open>Pointers to entries: \<^verbatim>\<open>null\<close> is nil. A second \<^verbatim>\<open>destinations\<close> member is decoded into the
  entries of the first, position by position.\<close>

definition decode_entry :: "DestEntry option \<Rightarrow> json \<Rightarrow> go_error + DestEntry option" where
  "decode_entry old j =
     (case j of
        JNull \<Rightarrow> Inr None
      | JObject ms \<Rightarrow> go_try (decode_members dest_field ms (case old of None \<Rightarrow> zero_DestEntry | Some e \<Rightarrow> e)) (\<lambda>e. Inr (Some e))
      | _ \<Rightarrow> Inl type_error)"

fun decode_elems :: "DestEntry option list \<Rightarrow> json list \<Rightarrow> go_error + DestEntry option list" where
  "decode_elems olds [] = Inr []"
| "decode_elems olds (j # js) =
     go_try (decode_entry (case olds of [] \<Rightarrow> None | old # _ \<Rightarrow> old) j) (\<lambda>e. go_try (decode_elems (tl olds) js) (\<lambda>es. Inr (e # es)))"

definition decode_dests :: "json \<Rightarrow> DestEntry option list \<Rightarrow> go_error + DestEntry option list" where
  "decode_dests j olds = (case j of JNull \<Rightarrow> Inr [] | JArray js \<Rightarrow> decode_elems olds js | _ \<Rightarrow> Inl type_error)"

record snapshot_ptrs =
  sp_WorkloadKey :: string
  sp_Destinations :: "DestEntry option list"
  sp_Truncated :: bool
  sp_GeneratedAt :: int

definition snap_field :: "string \<Rightarrow> json \<Rightarrow> snapshot_ptrs \<Rightarrow> go_error + snapshot_ptrs" where
  "snap_field key j s =
     (if names key ''workloadKey'' then go_try (decode_string j (sp_WorkloadKey s)) (\<lambda>v. Inr (s\<lparr>sp_WorkloadKey := v\<rparr>))
      else if names key ''destinations'' then go_try (decode_dests j (sp_Destinations s)) (\<lambda>v. Inr (s\<lparr>sp_Destinations := v\<rparr>))
      else if names key ''truncated'' then go_try (decode_bool j (sp_Truncated s)) (\<lambda>v. Inr (s\<lparr>sp_Truncated := v\<rparr>))
      else if names key ''generatedAt'' then go_try (decode_time j (sp_GeneratedAt s)) (\<lambda>v. Inr (s\<lparr>sp_GeneratedAt := v\<rparr>))
      else Inr s)"

definition zero_ptrs :: snapshot_ptrs where
  "zero_ptrs = \<lparr>sp_WorkloadKey = [], sp_Destinations = [], sp_Truncated = False, sp_GeneratedAt = zero_time\<rparr>"

definition decode_snapshot :: "json \<Rightarrow> go_error + snapshot_ptrs" where
  "decode_snapshot j =
     (case j of JNull \<Rightarrow> Inr zero_ptrs | JObject ms \<Rightarrow> decode_members snap_field ms zero_ptrs | _ \<Rightarrow> Inl type_error)"

text \<open>The text of a snapshot. A nil entry, which only a text not written by the operator can have
  (and on which the reconcilers would panic), is reported as an error of its own.\<close>

definition UnmarshalSnapshot :: "string \<Rightarrow> go_error + Snapshot" where
  "UnmarshalSnapshot s =
     (case json_parse s of
        None \<Rightarrow> Inl (JsonError ''invalid character'')
      | Some j \<Rightarrow> go_try (decode_snapshot j) (\<lambda>p.
          if None \<in> set (sp_Destinations p) then Inl (JsonError ''nil destination'')
          else Inr \<lparr>sn_WorkloadKey = sp_WorkloadKey p, sn_Destinations = map the (sp_Destinations p),
            sn_Truncated = sp_Truncated p, sn_GeneratedAt = sp_GeneratedAt p\<rparr>))"

subsection \<open>Round trip\<close>

lemma digit_char_0: "digit_char 0 = CHR ''0''"
  by code_simp

lemma dec_zero: "hd (dec n) = CHR ''0'' \<longleftrightarrow> n = 0"
proof (induction n rule: dec.induct)
  case (1 n)
  show ?case
  proof (cases "n < 10")
    case True
    then have "(digit_char n = digit_char 0) = (n = 0)" using of_char_digit[of n] of_char_digit[of 0] by (metis add_left_cancel zero_less_numeral)
    then show ?thesis using True by (simp add: dec.simps[of n] digit_char_0)
  next
    case False
    then show ?thesis using 1 by (simp add: dec.simps[of n])
  qed
qed

lemma scan_digits_dec:
  assumes "follows r"
  shows "scan_digits (dec n @ r) = Some (dec n, r)"
proof -
  have "r = [] \<or> \<not> is_digit (hd r)" using assms by (auto simp: follows_def is_digit_def)
  then have "takeWhile is_digit (dec n @ r) = dec n" "dropWhile is_digit (dec n @ r) = r"
    using dec_is_digit[of n] by (cases r; auto simp: list_all_iff takeWhile_append2)+
  then show ?thesis by (simp add: scan_digits_def)
qed

lemma scan_int_dec:
  assumes "follows r"
  shows "scan_int (dec n @ r) = Some (dec n, r)"
proof (cases "n = 0")
  case True
  then show ?thesis by (simp add: scan_int_def dec.simps digit_char_0)
next
  case False
  obtain c cs where d: "dec n = c # cs" by (cases "dec n") auto
  then have "c \<noteq> CHR ''0''" using dec_zero[of n] False by simp
  then show ?thesis using scan_digits_dec[OF assms, of n] d by (simp add: scan_int_def)
qed

lemma follows_ends: "follows r \<Longrightarrow> scan_frac r = Some ([], r) \<and> scan_exp r = Some ([], r)"
  by (cases r) (auto simp: follows_def scan_frac_def scan_exp_def)

lemma num_ok_dec: "num_ok (dec n)" "num_ok (CHR ''-'' # dec n)"
proof -
  obtain c cs where d: "dec n = c # cs" by (cases "dec n") auto
  have c: "is_digit c" using dec_is_digit[of n] by (simp add: d)
  then have "c \<noteq> CHR ''-''" by auto
  moreover have "scan_int (c # cs @ r) = Some (dec n, r)" if "follows r" for r using scan_int_dec[OF that, of n] by (simp add: d)
  ultimately show "num_ok (dec n)" "num_ok (CHR ''-'' # dec n)"
    using c by (auto simp: num_ok_def scan_num_def Let_def d follows_ends)
qed

lemma json_int_ok: "jok d (json_int n)"
  using num_ok_dec by (simp add: json_int_def)

lemma json_str_ok: "str_ok (quote s)"
  by (simp add: str_ok_def scan_quote)

text \<open>A text of plain characters is its own literal; times and names are such.\<close>

lemma plain_str_ok: "list_all (\<lambda>c. 32 \<le> byte_of c \<and> c \<noteq> DQ \<and> c \<noteq> BS) s \<Longrightarrow> str_ok s"
  by (simp add: str_ok_def scan_str_plain)

lemma decode_number:
  "decode_uint (json_nat (unat w)) old = Inr (w :: 'a::len word)"
  using unsigned_less[of w] by (simp add: decode_uint_def dec_is_digit undec_dec)

lemma decode_json_int:
  assumes "- (2 ^ 63) \<le> n" "n < 2 ^ 63"
  shows "decode_int (json_int n) old = Inr n"
proof (cases "n < 0")
  case True
  then show ?thesis using assms by (simp add: decode_int_def json_int_def HasPrefix_def Let_def dec_is_digit undec_dec)
next
  case False
  obtain c cs where d: "dec (nat n) = c # cs" by (cases "dec (nat n)") auto
  have "c \<noteq> CHR ''-''" using dec_is_digit[of "nat n"] by (auto simp: d)
  then show ?thesis using assms False dec_is_digit[of "nat n"] undec_dec[of "nat n"]
    by (simp add: decode_int_def json_int_def HasPrefix_def Let_def d)
qed

lemma decode_json_str: "valid_utf8 s \<Longrightarrow> decode_string (json_str s) old = Inr s"
  by (simp add: decode_string_def unquote_quote)

lemma decode_json_time: "time_MarshalJSON zone t = Inr x \<Longrightarrow> zone t mod 60 = 0 \<Longrightarrow> decode_time (JString x) old = Inr t"
  by (simp add: decode_time_def parse_marshal_time)

definition plain :: "string \<Rightarrow> bool" where
  "plain s \<longleftrightarrow> list_all (\<lambda>c. 32 \<le> byte_of c \<and> c \<noteq> DQ \<and> c \<noteq> BS) s"

lemma digit_plain: "is_digit c \<Longrightarrow> 32 \<le> byte_of c \<and> c \<noteq> DQ \<and> c \<noteq> BS"
  by (rule is_hex_plain) (simp add: is_hex_def)

lemma plain_digits: "(\<And>c. c \<in> set s \<Longrightarrow> is_digit c) \<Longrightarrow> plain s"
  using digit_plain by (simp add: plain_def list_all_iff)

lemma pad_digit: "c \<in> set (pad k n) \<Longrightarrow> is_digit c"
  using pad_is_digit[of k n] by (simp add: list_all_iff)

lemma plain_simps [simp]:
  "plain []" "plain (c # s) \<longleftrightarrow> 32 \<le> byte_of c \<and> c \<noteq> DQ \<and> c \<noteq> BS \<and> plain s" "plain (s @ s') \<longleftrightarrow> plain s \<and> plain s'"
  by (simp_all add: plain_def)

lemma plain_pad [simp]: "plain (pad k n)"
  by (rule plain_digits) (rule pad_digit)

lemma plain_time_text: "plain (time_text zone t)"
proof -
  have "plain (rev (dropWhile (\<lambda>c. c = CHR ''0'') (rev (pad 9 ns))))" for ns
    by (rule plain_digits) (use pad_digit set_dropWhileD in fastforce)
  then have "plain (frac_text ns)" for ns by (simp add: frac_text_def)
  moreover have "plain (zone_text off)" for off by (simp add: zone_text_def Let_def)
  ultimately show ?thesis by (simp add: time_text_def Let_def split: prod.split)
qed

lemma time_str_ok: "time_MarshalJSON zone t = Inr x \<Longrightarrow> str_ok x"
  using plain_time_text[of zone t] by (auto simp: time_MarshalJSON_def plain_def intro!: plain_str_ok split: prod.splits if_splits)

lemma name_ok: "plain s \<Longrightarrow> str_ok s"
  unfolding plain_def by (rule plain_str_ok)

text \<open>The field names, folded.\<close>

lemma folded_names:
  "fold_name (unquote ''workload'') = ''WORKLOAD'' \<and> fold_name (unquote ''destFqdn'') = ''DESTFQDN''
   \<and> fold_name (unquote ''destIp'') = ''DESTIP'' \<and> fold_name (unquote ''destPort'') = ''DESTPORT''
   \<and> fold_name (unquote ''protocol'') = ''PROTOCOL'' \<and> fold_name (unquote ''firstSeen'') = ''FIRSTSEEN''
   \<and> fold_name (unquote ''lastSeen'') = ''LASTSEEN'' \<and> fold_name (unquote ''flowCount'') = ''FLOWCOUNT''
   \<and> fold_name (unquote ''bytes'') = ''BYTES'' \<and> fold_name (unquote ''snapshots'') = ''SNAPSHOTS''
   \<and> fold_name (unquote ''workloadKey'') = ''WORKLOADKEY'' \<and> fold_name (unquote ''destinations'') = ''DESTINATIONS''
   \<and> fold_name (unquote ''truncated'') = ''TRUNCATED'' \<and> fold_name (unquote ''generatedAt'') = ''GENERATEDAT''
   \<and> fold_name ''workload'' = ''WORKLOAD'' \<and> fold_name ''destFqdn'' = ''DESTFQDN''
   \<and> fold_name ''destIp'' = ''DESTIP'' \<and> fold_name ''destPort'' = ''DESTPORT''
   \<and> fold_name ''protocol'' = ''PROTOCOL'' \<and> fold_name ''firstSeen'' = ''FIRSTSEEN''
   \<and> fold_name ''lastSeen'' = ''LASTSEEN'' \<and> fold_name ''flowCount'' = ''FLOWCOUNT''
   \<and> fold_name ''bytes'' = ''BYTES'' \<and> fold_name ''snapshots'' = ''SNAPSHOTS''
   \<and> fold_name ''workloadKey'' = ''WORKLOADKEY'' \<and> fold_name ''destinations'' = ''DESTINATIONS''
   \<and> fold_name ''truncated'' = ''TRUNCATED'' \<and> fold_name ''generatedAt'' = ''GENERATEDAT''"
  by (simp add: HasPrefix_def char_of_def bit_0)

lemma dest_fields:
  "dest_field ''workload'' j e = go_try (decode_string j (de_Workload e)) (\<lambda>v. Inr (e\<lparr>de_Workload := v\<rparr>))"
  "dest_field ''destFqdn'' j e = go_try (decode_string j (de_DestFQDN e)) (\<lambda>v. Inr (e\<lparr>de_DestFQDN := v\<rparr>))"
  "dest_field ''destIp'' j e = go_try (decode_string j (de_DestIP e)) (\<lambda>v. Inr (e\<lparr>de_DestIP := v\<rparr>))"
  "dest_field ''destPort'' j e = go_try (decode_uint j (de_DestPort e)) (\<lambda>v. Inr (e\<lparr>de_DestPort := v\<rparr>))"
  "dest_field ''protocol'' j e = go_try (decode_string j (de_Protocol e)) (\<lambda>v. Inr (e\<lparr>de_Protocol := v\<rparr>))"
  "dest_field ''firstSeen'' j e = go_try (decode_time j (de_FirstSeen e)) (\<lambda>v. Inr (e\<lparr>de_FirstSeen := v\<rparr>))"
  "dest_field ''lastSeen'' j e = go_try (decode_time j (de_LastSeen e)) (\<lambda>v. Inr (e\<lparr>de_LastSeen := v\<rparr>))"
  "dest_field ''flowCount'' j e = go_try (decode_uint j (de_FlowCount e)) (\<lambda>v. Inr (e\<lparr>de_FlowCount := v\<rparr>))"
  "dest_field ''bytes'' j e = go_try (decode_uint j (de_Bytes e)) (\<lambda>v. Inr (e\<lparr>de_Bytes := v\<rparr>))"
  "dest_field ''snapshots'' j e = go_try (decode_int j (de_Snapshots e)) (\<lambda>v. Inr (e\<lparr>de_Snapshots := v\<rparr>))"
  by (simp_all add: dest_field_def names_def folded_names del: unquote.simps fold_name.simps)

lemma snap_fields:
  "snap_field ''workloadKey'' j s = go_try (decode_string j (sp_WorkloadKey s)) (\<lambda>v. Inr (s\<lparr>sp_WorkloadKey := v\<rparr>))"
  "snap_field ''destinations'' j s = go_try (decode_dests j (sp_Destinations s)) (\<lambda>v. Inr (s\<lparr>sp_Destinations := v\<rparr>))"
  "snap_field ''truncated'' j s = go_try (decode_bool j (sp_Truncated s)) (\<lambda>v. Inr (s\<lparr>sp_Truncated := v\<rparr>))"
  "snap_field ''generatedAt'' j s = go_try (decode_time j (sp_GeneratedAt s)) (\<lambda>v. Inr (s\<lparr>sp_GeneratedAt := v\<rparr>))"
  by (simp_all add: snap_field_def names_def folded_names del: unquote.simps fold_name.simps)

text \<open>What survives: strings of valid UTF-8, a counter in the range of \<^verbatim>\<open>int\<close>, offsets in whole
  minutes.\<close>

definition wf_entry :: "DestEntry \<Rightarrow> bool" where
  "wf_entry e \<longleftrightarrow> valid_utf8 (de_Workload e) \<and> valid_utf8 (de_DestFQDN e) \<and> valid_utf8 (de_DestIP e) \<and> valid_utf8 (de_Protocol e)
     \<and> - (2 ^ 63) \<le> de_Snapshots e \<and> de_Snapshots e < 2 ^ 63"

definition wf_snapshot :: "Snapshot \<Rightarrow> bool" where
  "wf_snapshot s \<longleftrightarrow> valid_utf8 (sn_WorkloadKey s) \<and> list_all wf_entry (sn_Destinations s)"

definition whole_minutes :: "(int \<Rightarrow> int) \<Rightarrow> bool" where
  "whole_minutes zone \<longleftrightarrow> (\<forall>t. zone t mod 60 = 0)"

lemma entry_json_ok:
  assumes "entry_json zone e = Inr j"
  shows "jok (Suc d) j"
  using assms num_ok_dec(1) json_str_ok json_int_ok name_ok time_str_ok
  by (auto simp: entry_json_def go_try_Inr)

lemma entry_roundtrip:
  assumes "entry_json zone e = Inr j" "wf_entry e" "whole_minutes zone"
  shows "decode_entry None j = Inr (Some e)"
proof -
  obtain x y where t: "time_MarshalJSON zone (de_FirstSeen e) = Inr x" "time_MarshalJSON zone (de_LastSeen e) = Inr y"
    using assms(1) by (auto simp: entry_json_def go_try_Inr)
  have z: "zone t mod 60 = 0" for t using assms(3) by (simp add: whole_minutes_def)
  note d = decode_json_time[OF t(1) z] decode_json_time[OF t(2) z] decode_number decode_json_int decode_json_str
  show ?thesis
    using assms(1,2) by (auto simp: entry_json_def t wf_entry_def decode_entry_def dest_fields d zero_DestEntry_def)
qed

lemma entries_roundtrip:
  assumes "go_map (entry_json zone) es = Inr js" "list_all wf_entry es" "whole_minutes zone"
  shows "decode_elems [] js = Inr (map Some es) \<and> (\<forall>j\<in>set js. jok (Suc d) j) \<and> (js = [] \<longleftrightarrow> es = [])"
  using assms
proof (induction es arbitrary: js)
  case (Cons e es)
  then obtain j js' where j: "js = j # js'" "entry_json zone e = Inr j" "go_map (entry_json zone) es = Inr js'"
    by (auto simp: go_try_Inr)
  then show ?case
    using Cons.IH[OF j(3)] Cons.prems entry_roundtrip[OF j(2)] entry_json_ok[OF j(2)] by simp
qed simp

lemma go_map_Inl: "go_map f xs = Inl err \<Longrightarrow> \<exists>x\<in>set xs. f x = Inl err"
  by (induction xs) (auto simp: go_try_def split: sum.splits)

text \<open>The times a snapshot prints.\<close>

definition snapshot_times :: "Snapshot \<Rightarrow> int set" where
  "snapshot_times s = insert (sn_GeneratedAt s) (de_FirstSeen ` set (sn_Destinations s) \<union> de_LastSeen ` set (sn_Destinations s))"

lemma marshal_error:
  assumes "MarshalSnapshot zone s = Inl err"
  shows "\<exists>t\<in>snapshot_times s. time_MarshalJSON zone t = Inl err"
proof -
  have e: "entry_json zone e = Inl err \<Longrightarrow> time_MarshalJSON zone (de_FirstSeen e) = Inl err \<or> time_MarshalJSON zone (de_LastSeen e) = Inl err" for e
    by (auto simp: entry_json_def go_try_def split: sum.splits)
  have "time_MarshalJSON zone (sn_GeneratedAt s) = Inl err \<or> go_map (entry_json zone) (sn_Destinations s) = Inl err"
    using assms by (auto simp: MarshalSnapshot_def snapshot_json_def go_try_def split: sum.splits)
  then show ?thesis
    using go_map_Inl[of "entry_json zone" "sn_Destinations s" err] e by (auto simp: snapshot_times_def)
qed

lemma unmarshal_marshal:
  assumes "MarshalSnapshot zone s = Inr x" "wf_snapshot s" "whole_minutes zone"
  shows "UnmarshalSnapshot x = Inr s"
proof -
  obtain ds g where d: "go_map (entry_json zone) (sn_Destinations s) = Inr ds" "time_MarshalJSON zone (sn_GeneratedAt s) = Inr g"
    using assms(1) by (auto simp: MarshalSnapshot_def snapshot_json_def go_try_Inr)
  let ?j = "JObject [(''workloadKey'', json_str (sn_WorkloadKey s)), (''destinations'', if ds = [] then JNull else JArray ds),
        (''truncated'', JBool (sn_Truncated s)), (''generatedAt'', JString g)]"
  have x: "x = jprint ?j" using assms(1) by (simp add: MarshalSnapshot_def snapshot_json_def d)
  note r = entries_roundtrip[OF d(1) _ assms(3)]
  have wf: "list_all wf_entry (sn_Destinations s)" "valid_utf8 (sn_WorkloadKey s)" using assms(2) by (simp_all add: wf_snapshot_def)
  have "jok 10000 ?j" using r[OF wf(1), of 9997] json_str_ok name_ok time_str_ok[OF d(2)] by simp
  then have p: "json_parse x = Some ?j" unfolding x by (rule json_parse_print)
  have t: "decode_time (JString g) old = Inr (sn_GeneratedAt s)" for old
    by (rule decode_json_time[OF d(2)]) (use assms(3) in \<open>simp add: whole_minutes_def\<close>)
  have dd: "decode_dests (if ds = [] then JNull else JArray ds) [] = Inr (map Some (sn_Destinations s))"
    using r[OF wf(1)] by (auto simp: decode_dests_def)
  show ?thesis
    by (simp add: UnmarshalSnapshot_def p decode_snapshot_def snap_fields decode_json_str[OF wf(2)] dd decode_bool_def t zero_ptrs_def comp_def)
qed

lemma go_map_Inr: "go_map f xs = Inr ys \<Longrightarrow> x \<in> set xs \<Longrightarrow> \<exists>y. f x = Inr y"
  by (induction xs arbitrary: ys) (auto simp: go_try_Inr)

lemma marshal_times:
  assumes "MarshalSnapshot zone s = Inr x" "t \<in> snapshot_times s"
  shows "\<exists>y. time_MarshalJSON zone t = Inr y"
proof -
  obtain ds g where d: "go_map (entry_json zone) (sn_Destinations s) = Inr ds" "time_MarshalJSON zone (sn_GeneratedAt s) = Inr g"
    using assms(1) by (auto simp: MarshalSnapshot_def snapshot_json_def go_try_Inr)
  have "\<exists>j. entry_json zone e = Inr j" if "e \<in> set (sn_Destinations s)" for e using go_map_Inr[OF d(1) that] .
  then show ?thesis using assms(2) d(2) by (auto simp: snapshot_times_def entry_json_def go_try_Inr)
qed

subsection \<open>Properties\<close>


definition demo_entry :: DestEntry where
  "demo_entry = zero_DestEntry\<lparr>de_Workload := ''a/b'', de_DestFQDN := ''<x>'', de_DestPort := 443, de_LastSeen := 7\<rparr>"


end
