(* ===== verification/Config_Store.thy ===== *)
theory Config_Store
  imports Mem_Cluster Accumulator_Props Snapshot_Codec
begin

text \<open>
  \<^verbatim>\<open>internal/store/configmap_store.go\<close>: snapshots and policies kept in one ConfigMap per
  profile, snapshots as JSON text. The client and the location of the clock are arguments. \<open>patchData\<close> is shown to change one entry of
  one ConfigMap, and \<open>SaveSnapshot\<close> to be a snapshot store in the sense of the accumulator.
\<close>

subsection \<open>Operations\<close>

definition keyBaseline :: string where "keyBaseline = ''baseline.json''"
definition keyPolicy :: string where "keyPolicy = ''policy.yaml''"

lemma keys_differ [simp]: "keyBaseline \<noteq> keyPolicy" "keyPolicy \<noteq> keyBaseline"
  by (simp_all add: keyBaseline_def keyPolicy_def)

definition ConfigMapName :: "string \<Rightarrow> string" where
  "ConfigMapName profileName = ''egress-guardian-'' @ profileName"

definition ownerRef :: "string \<Rightarrow> ObjectMeta \<Rightarrow> OwnerReference" where
  "ownerRef kind m = \<lparr>or_APIVersion = GroupVersion_String, or_Kind = kind, or_Name = om_Name m,
     or_UID = om_UID m, or_BlockOwnerDeletion = Some True, or_Controller = Some True\<rparr>"

definition managedLabels :: "string \<Rightarrow> (string \<times> string) list" where
  "managedLabels profileName = [(''app.kubernetes.io/managed-by'', ''egress-guardian-operator''),
     (''egress.platform.io/profile'', profileName)]"

definition EnsureConfigMap :: "'s kube_client \<Rightarrow> 's \<Rightarrow> EgressProfile \<Rightarrow> go_error option \<times> 's" where
  "EnsureConfigMap kc s profile =
     (let name = ConfigMapName (om_Name (pr_Meta profile));
          ns = om_Namespace (pr_Meta profile)
      in case kc_GetConfigMap kc s (ns, name) of
           (Inr cm, s) \<Rightarrow> (None, s)
         | (Inl err, s) \<Rightarrow>
             if \<not> IsNotFound err then (Some (Wrapped ''get configmap'' err), s)
             else kc_CreateConfigMap kc s
               \<lparr>cm_Meta = \<lparr>om_Name = name, om_Namespace = ns, om_UID = [], om_ResourceVersion = [],
                  om_Labels = managedLabels (om_Name (pr_Meta profile)),
                  om_OwnerReferences = [ownerRef ''EgressProfile'' (pr_Meta profile)]\<rparr>,
                cm_Data = Some []\<rparr>)"

definition patchData :: "'s kube_client \<Rightarrow> 's \<Rightarrow> string \<Rightarrow> string \<Rightarrow> string \<Rightarrow> string \<Rightarrow> go_error option \<times> 's" where
  "patchData kc s namespace name key val =
     (case kc_GetConfigMap kc s (namespace, name) of
        (Inl err, s) \<Rightarrow> (Some (Wrapped (''get configmap '' @ namespace @ ''/'' @ name) err), s)
      | (Inr cm, s) \<Rightarrow>
          let base = cm;
              data = (case cm_Data cm of None \<Rightarrow> [] | Some m \<Rightarrow> m);
              cm = cm\<lparr>cm_Data := Some (AList.update key val data)\<rparr>
          in kc_PatchConfigMap kc s cm base)"

definition SaveSnapshot :: "(int \<Rightarrow> int) \<Rightarrow> 's kube_client \<Rightarrow> 's save_fn" where
  "SaveSnapshot zone kc s namespace name snap =
     (case MarshalSnapshot zone snap of
        Inl err \<Rightarrow> (Some (Wrapped ''marshal snapshot'' err), s)
      | Inr data \<Rightarrow> patchData kc s namespace name keyBaseline data)"

definition SavePolicyYAML :: "'s kube_client \<Rightarrow> 's \<Rightarrow> string \<Rightarrow> string \<Rightarrow> string \<Rightarrow> go_error option \<times> 's" where
  "SavePolicyYAML kc s namespace name yaml = patchData kc s namespace name keyPolicy yaml"

definition zero_Snapshot :: Snapshot where
  "zero_Snapshot = \<lparr>sn_WorkloadKey = [], sn_Destinations = [], sn_Truncated = False, sn_GeneratedAt = zero_time\<rparr>"

definition GetSnapshot :: "'s kube_client \<Rightarrow> 's \<Rightarrow> string \<Rightarrow> string \<Rightarrow>
    (go_error + Snapshot) \<times> 's" where
  "GetSnapshot kc s namespace name =
     (case kc_GetConfigMap kc s (namespace, name) of
        (Inl err, s) \<Rightarrow> (Inl (Wrapped (''get configmap '' @ namespace @ ''/'' @ name) err), s)
      | (Inr cm, s) \<Rightarrow>
          (case data_get (cm_Data cm) keyBaseline of
             None \<Rightarrow> (Inr zero_Snapshot, s)
           | Some raw \<Rightarrow> (UnmarshalSnapshot raw, s)))"

definition GetPolicyYAML :: "'s kube_client \<Rightarrow> 's \<Rightarrow> string \<Rightarrow> string \<Rightarrow> (go_error + string) \<times> 's" where
  "GetPolicyYAML kc s namespace name =
     (case kc_GetConfigMap kc s (namespace, name) of
        (Inl err, s) \<Rightarrow> (Inl (Wrapped (''get configmap '' @ namespace @ ''/'' @ name) err), s)
      | (Inr cm, s) \<Rightarrow> (Inr (case data_get (cm_Data cm) keyPolicy of None \<Rightarrow> [] | Some v \<Rightarrow> v), s))"

subsection \<open>What the store writes\<close>

text \<open>An entry of a ConfigMap's data, as the server holds it.\<close>

definition cm_entry :: "api_view \<Rightarrow> objkey \<Rightarrow> string \<Rightarrow> string option" where
  "cm_entry v k e = (case av_ConfigMaps v k of None \<Rightarrow> None | Some cm \<Rightarrow> data_get (cm_Data cm) e)"

lemma data_get_update [simp]:
  "data_get (Some (AList.update k v (case d of None \<Rightarrow> [] | Some m \<Rightarrow> m))) e = (if e = k then Some v else data_get d e)"
  by (cases d) (auto simp: data_get_def AList.update_conv')

context api_client
begin

lemma patchData_keeps:
  "av_Profiles (view (snd (patchData kc s ns n key val))) = av_Profiles (view s)"
  "av_Proposals (view (snd (patchData kc s ns n key val))) = av_Proposals (view s)"
  "av_CNPs (view (snd (patchData kc s ns n key val))) = av_CNPs (view s)"
  using get_view(1)[of s "(ns, n)"]
  by (auto simp: patchData_def Let_def writes_keep split: prod.split sum.split)

lemma EnsureConfigMap_keeps:
  "av_Profiles (view (snd (EnsureConfigMap kc s profile))) = av_Profiles (view s)"
  "av_Proposals (view (snd (EnsureConfigMap kc s profile))) = av_Proposals (view s)"
  "av_CNPs (view (snd (EnsureConfigMap kc s profile))) = av_CNPs (view s)"
  using get_view(1)[of s "(om_Namespace (pr_Meta profile), ConfigMapName (om_Name (pr_Meta profile)))"]
  by (auto simp: EnsureConfigMap_def Let_def writes_keep split: prod.split sum.split)

lemma store_reads_keep:
  "view (snd (GetSnapshot kc s ns n)) = view s" "view (snd (GetPolicyYAML kc s ns n)) = view s"
  using get_view(1)[of s "(ns, n)"]
  by (auto simp: GetSnapshot_def GetPolicyYAML_def split: prod.split sum.split option.split)

end

context merge_client
begin

lemma patchData_err: "fst (patchData kc s ns n key val) = Some err \<Longrightarrow> view (snd (patchData kc s ns n key val)) = view s"
  using get_view(1)[of s "(ns, n)"]
  by (auto simp: patchData_def Let_def patch_cm(2) split: prod.splits sum.splits)

lemma patchData_frame:
  assumes "k \<noteq> (ns, n)"
  shows "av_ConfigMaps (view (snd (patchData kc s ns n key val))) k = av_ConfigMaps (view s) k"
  using get_view(1)[of s "(ns, n)"] get_keyed(1)[of s "(ns, n)"] writes_frame(2) assms
  by (auto simp: patchData_def Let_def split: prod.split sum.split)

lemma patchData_success:
  assumes "fst (patchData kc s ns n key val) = None"
  obtains base cur where "fst (kc_GetConfigMap kc s (ns, n)) = Inr base" "av_ConfigMaps (view s) (ns, n) = Some cur"
    "\<And>e. cm_entry (view (snd (patchData kc s ns n key val))) (ns, n) e =
      (if e = key then merged (Some val) (data_get (cm_Data base) key) (data_get (cm_Data cur) key)
       else cm_entry (view s) (ns, n) e)"
proof -
  obtain base s' where g: "kc_GetConfigMap kc s (ns, n) = (Inr base, s')"
    using assms by (auto simp: patchData_def split: prod.splits sum.splits)
  let ?cm = "base\<lparr>cm_Data := Some (AList.update key val (case cm_Data base of None \<Rightarrow> [] | Some m \<Rightarrow> m))\<rparr>"
  have p: "patchData kc s ns n key val = kc_PatchConfigMap kc s' ?cm base"
    by (simp add: patchData_def g Let_def)
  have key: "meta_key (cm_Meta base) = (ns, n)" and v: "view s' = view s"
    using g get_keyed(1)[of s "(ns, n)" base] get_view(1)[of s "(ns, n)"] by simp_all
  obtain cur cm' where c: "av_ConfigMaps (view s) (ns, n) = Some cur"
    "av_ConfigMaps (view (snd (patchData kc s ns n key val))) (ns, n) = Some cm'"
    "data_get (cm_Data cm') = merge_data ?cm base cur"
    using patch_cm(1)[of s' ?cm base] assms key v unfolding p by auto
  show thesis
    by (rule that[of base cur]) (simp_all add: g c cm_entry_def merge_data_def)
qed

end

context fresh_client
begin

lemma patchData_own:
  assumes "fst (patchData kc s ns n key val) = None"
  shows "cm_entry (view (snd (patchData kc s ns n key val))) (ns, n) key = Some val"
proof -
  obtain base cur where "fst (kc_GetConfigMap kc s (ns, n)) = Inr base" "av_ConfigMaps (view s) (ns, n) = Some cur"
    "cm_entry (view (snd (patchData kc s ns n key val))) (ns, n) key =
      merged (Some val) (data_get (cm_Data base) key) (data_get (cm_Data cur) key)"
    using patchData_success[OF assms] by metis
  moreover have "base = cur" using get_cm(1) calculation by simp
  ultimately show ?thesis by simp
qed

end

context reliable_client
begin

lemma patchData_up:
  assumes "up s" "av_ConfigMaps (view s) (ns, n) \<noteq> None"
  shows "fst (patchData kc s ns n key val) = None"
proof -
  obtain cm where cm: "av_ConfigMaps (view s) (ns, n) = Some cm" using assms by auto
  then have g: "fst (kc_GetConfigMap kc s (ns, n)) = Inr cm" by (rule up_get_cm(1)[OF assms(1)])
  then obtain s' where s': "kc_GetConfigMap kc s (ns, n) = (Inr cm, s')" by (cases "kc_GetConfigMap kc s (ns, n)") auto
  have "up s'" "view s' = view s" "meta_key (cm_Meta cm) = (ns, n)"
    using up_stays(1)[of s "(ns, n)"] get_view(1)[of s "(ns, n)"] get_keyed(1)[OF g] s' assms(1) by simp_all
  then show ?thesis
    using up_patch(1)[of s'] cm by (simp add: patchData_def s' Let_def)
qed

lemma patchData_up_stays: "up (snd (patchData kc s ns n key val)) = up s"
  using up_stays(1)[of s "(ns, n)"]
  by (auto simp: patchData_def Let_def up_stays(6) split: prod.split sum.split)

lemma patchData_exists:
  "(av_ConfigMaps (view (snd (patchData kc s ns n key val))) k \<noteq> None) = (av_ConfigMaps (view s) k \<noteq> None)"
proof (cases "fst (patchData kc s ns n key val)")
  case None
  then have "av_ConfigMaps (view (snd (patchData kc s ns n key val))) (ns, n) \<noteq> None"
    using patchData_own[OF None] by (auto simp: cm_entry_def split: option.splits)
  moreover have "av_ConfigMaps (view s) (ns, n) \<noteq> None" using patchData_success[OF None] by blast
  ultimately show ?thesis using patchData_frame by (cases "k = (ns, n)") auto
qed (simp add: patchData_err)

end

context reliable_client
begin

lemma GetSnapshot_up:
  assumes "up s" "cm_entry (view s) (ns, n) keyBaseline = Some t"
  shows "fst (GetSnapshot kc s ns n) = UnmarshalSnapshot t"
proof -
  obtain cm where cm: "av_ConfigMaps (view s) (ns, n) = Some cm" "data_get (cm_Data cm) keyBaseline = Some t"
    using assms(2) by (auto simp: cm_entry_def split: option.splits)
  then show ?thesis
    using up_get_cm(1)[OF assms(1) cm(1)] by (auto simp: GetSnapshot_def split: prod.split)
qed

lemma GetSnapshot_up_stays: "up (snd (GetSnapshot kc s ns n)) = up s"
  using up_stays(1)[of s "(ns, n)"] by (auto simp: GetSnapshot_def split: prod.split sum.split option.split)

lemma GetPolicyYAML_up:
  assumes "up s" "av_ConfigMaps (view s) (ns, n) \<noteq> None"
  shows "fst (GetPolicyYAML kc s ns n) = Inr (case cm_entry (view s) (ns, n) keyPolicy of None \<Rightarrow> [] | Some v \<Rightarrow> v)"
proof -
  obtain cm where cm: "av_ConfigMaps (view s) (ns, n) = Some cm" using assms(2) by auto
  then show ?thesis
    using up_get_cm(1)[OF assms(1) cm] by (auto simp: GetPolicyYAML_def cm_entry_def split: prod.split)
qed

lemma save_then_get:
  assumes "up s" "av_ConfigMaps (view s) (ns, n) \<noteq> None" "MarshalSnapshot zone snap = Inr t" "UnmarshalSnapshot t = Inr snap"
  defines "s' \<equiv> snd (SaveSnapshot zone kc s ns n snap)"
  shows "fst (SaveSnapshot zone kc s ns n snap) = None
    \<and> fst (GetSnapshot kc s' ns n) = Inr snap
    \<and> fst (GetPolicyYAML kc s' ns n) = fst (GetPolicyYAML kc s ns n)
    \<and> (\<forall>k. k \<noteq> (ns, n) \<longrightarrow> av_ConfigMaps (view s') k = av_ConfigMaps (view s) k)
    \<and> av_Profiles (view s') = av_Profiles (view s) \<and> av_Proposals (view s') = av_Proposals (view s)
    \<and> av_CNPs (view s') = av_CNPs (view s)"
proof -
  have save: "SaveSnapshot zone kc s ns n snap = patchData kc s ns n keyBaseline t"
    by (simp add: SaveSnapshot_def assms(3))
  have ok: "fst (patchData kc s ns n keyBaseline t) = None" by (rule patchData_up[OF assms(1,2)])
  have s': "s' = snd (patchData kc s ns n keyBaseline t)" by (simp add: s'_def save)
  have up': "up s'" "av_ConfigMaps (view s') (ns, n) \<noteq> None"
    using assms(1,2) unfolding s' patchData_up_stays patchData_exists by blast+
  have "fst (GetSnapshot kc s' ns n) = Inr snap"
    using GetSnapshot_up[OF up'(1)] patchData_own[OF ok] assms(4) by (simp add: s')
  moreover have "cm_entry (view s') (ns, n) keyPolicy = cm_entry (view s) (ns, n) keyPolicy"
    using patchData_success[OF ok] unfolding s' by (metis keys_differ(2))
  ultimately show ?thesis
    using GetPolicyYAML_up[OF up'] GetPolicyYAML_up[OF assms(1,2)] patchData_frame
    by (simp add: save ok) (simp add: s' patchData_keeps patchData_frame)
qed

end

text \<open>The store keeps the promise the accumulator relies on; what it keeps of a snapshot is its JSON text.\<close>

definition json_image :: "(int \<Rightarrow> int) \<Rightarrow> Snapshot \<Rightarrow> string option" where
  "json_image zone snap = (case MarshalSnapshot zone snap of Inl err \<Rightarrow> None | Inr t \<Rightarrow> Some t)"

sublocale reliable_client \<subseteq> baseline: snapshot_store "SaveSnapshot zone kc"
  "\<lambda>s ns n. cm_entry (view s) (ns, n) keyBaseline" "\<lambda>s ns n. up s \<and> av_ConfigMaps (view s) (ns, n) \<noteq> None"
  "json_image zone" for zone
proof
  fix s ns n snap d
  assume "up s \<and> av_ConfigMaps (view s) (ns, n) \<noteq> None" "json_image zone snap = Some d"
  then show "cm_entry (view (snd (SaveSnapshot zone kc s ns n snap))) (ns, n) keyBaseline = Some d"
    using patchData_own[OF patchData_up] by (auto simp: SaveSnapshot_def json_image_def split: sum.splits)
next
  fix ns' n' ns n s snap
  assume "(ns', n') \<noteq> (ns :: string, n :: string)"
  then show "cm_entry (view (snd (SaveSnapshot zone kc s ns n snap))) (ns', n') keyBaseline =
      cm_entry (view s) (ns', n') keyBaseline"
    by (auto simp: SaveSnapshot_def cm_entry_def patchData_frame split: sum.split)
next
  fix s ns n snap ns' n'
  show "(up (snd (SaveSnapshot zone kc s ns n snap)) \<and>
      av_ConfigMaps (view (snd (SaveSnapshot zone kc s ns n snap))) (ns', n') \<noteq> None) =
      (up s \<and> av_ConfigMaps (view s) (ns', n') \<noteq> None)"
    using patchData_up_stays patchData_exists by (auto simp: SaveSnapshot_def split: sum.split)
qed

context reliable_client
begin

lemmas baseline_store = baseline.snapshot_store_axioms

end

interpretation mem_baseline: snapshot_store "SaveSnapshot zone mem_client"
  "\<lambda>s ns n. cm_entry (mem_view s) (ns, n) keyBaseline" "\<lambda>s ns n. mem_up s \<and> av_ConfigMaps (mem_view s) (ns, n) \<noteq> None"
  "json_image zone" for zone
  by (rule mem.baseline.snapshot_store_axioms)

subsection \<open>Properties\<close>

definition demo_meta :: "string \<Rightarrow> ObjectMeta" where
  "demo_meta name = \<lparr>om_Name = name, om_Namespace = ''shop'', om_UID = ''u'', om_ResourceVersion = ''0'',
     om_Labels = [], om_OwnerReferences = []\<rparr>"

definition demo_cm :: ConfigMap where
  "demo_cm = \<lparr>cm_Meta = demo_meta (ConfigMapName ''payment''), cm_Data = Some [(keyPolicy, ''old'')]\<rparr>"

definition demo_cluster :: cluster where
  "demo_cluster = empty_cluster\<lparr>cl_ConfigMaps := [demo_cm]\<rparr>"

lemma demo_cluster_up [simp]: "mem_up demo_cluster"
  "av_ConfigMaps (mem_view demo_cluster) (''shop'', ConfigMapName ''payment'') = Some demo_cm"
  by (simp_all add: mem_up_def demo_cluster_def empty_cluster_def demo_cm_def demo_meta_def mem_view_def obj_find_def)

definition demo_flow :: Flow where
  "demo_flow = zero_Flow\<lparr>fl_SourceNamespace := ''shop'', fl_SourceWorkload := ''Deployment/payment'',
     fl_DestFQDN := ''api.stripe.com'', fl_DestPort := 443\<rparr>"

definition demo_acc :: Accumulator where
  "demo_acc = RegisterWorkload ''shop/Deployment/payment'' ''shop'' (ConfigMapName ''payment'')
     (ingest demo_flow (NewAccumulator 1 1))"

definition demo_snap :: Snapshot where
  "demo_snap = \<lparr>sn_WorkloadKey = ''shop/Deployment/payment'', sn_Destinations = [bump (new_entry demo_flow)],
     sn_Truncated = False, sn_GeneratedAt = 7\<rparr>"

lemma demo_acc_simps:
  "acc_entries demo_acc = [(flow_key demo_flow, new_entry demo_flow)]" "dk_workload (flow_key demo_flow) = ''shop/Deployment/payment''"
  "gget (acc_workloadNS demo_acc) ''shop/Deployment/payment'' = ''shop''"
  "gget (acc_configMapName demo_acc) ''shop/Deployment/payment'' = ConfigMapName ''payment''" "acc_inv demo_acc"
proof -
  show "acc_entries demo_acc = [(flow_key demo_flow, new_entry demo_flow)]"
    by (simp add: demo_acc_def ingest_def NewAccumulator_def RegisterWorkload_def Let_def maxDestinations_def)
  show "acc_inv demo_acc"
    unfolding demo_acc_def by (intro acc_inv_Register acc_inv_ingest) (simp add: NewAccumulator_def acc_inv_def)
qed (simp_all add: demo_acc_def ingest_def NewAccumulator_def RegisterWorkload_def Let_def maxDestinations_def gget_def
      flow_key_def demo_flow_def zero_Flow_def)

lemma demo_snap_json:
  "wf_snapshot demo_snap" "\<exists>t. MarshalSnapshot (\<lambda>_. 3600) demo_snap = Inr t"
proof -
  show "wf_snapshot demo_snap"
    by (simp add: demo_snap_def wf_snapshot_def wf_entry_def bump_def new_entry_def flow_key_def demo_flow_def zero_Flow_def rune_len_ascii)
  have "snapshot_times demo_snap \<subseteq> {7, zero_time}"
    by (auto simp: snapshot_times_def demo_snap_def bump_def new_entry_def demo_flow_def zero_Flow_def)
  moreover have "time_MarshalJSON (\<lambda>_. 3600) 7 \<noteq> Inl err" "time_MarshalJSON (\<lambda>_. 3600) zero_time \<noteq> Inl err" for err
    by (simp_all add: time_MarshalJSON_def civil_def march_year_def Let_def unix_day_def day_def second_def zero_time_def)
  ultimately show "\<exists>t. MarshalSnapshot (\<lambda>_. 3600) demo_snap = Inr t"
    using marshal_error[of "\<lambda>_. 3600" demo_snap] by (cases "MarshalSnapshot (\<lambda>_. 3600) demo_snap") blast+
qed







text \<open>C27: a baseline is never emptied. When no entry of the accumulator belongs to a workload
  registered to a ConfigMap, because they were all purged, a flush leaves the ConfigMap's
  baseline as it is, however old.\<close>

theorem flush_keeps_stale_baseline:
  assumes "reliable_client kc view up" "map_order ord" "map_order ordW" "acc_inv a"
    and "\<And>k e. (k, e) \<in> set (acc_entries a) \<Longrightarrow>
       (gget (acc_workloadNS a) (dk_workload k), gget (acc_configMapName a) (dk_workload k)) \<noteq> (ns, n)"
  shows "cm_entry (view (snd (flushSnapshots (SaveSnapshot zone kc) ord ordW clock a s))) (ns, n) keyBaseline
    = cm_entry (view s) (ns, n) keyBaseline"
  by (rule snapshot_store.flush_untouched[OF reliable_client.baseline_store[OF assms(1), of zone] assms(2-5)])

theorem flush_keeps_stale_baseline_witness:
  "cm_entry (mem_view (snd (flushSnapshots (SaveSnapshot (\<lambda>_. 0) mem_client) rev rev (\<lambda>_. 0)
      (RegisterWorkload ''shop/Deployment/payment'' ''shop'' (ConfigMapName ''payment'') (NewAccumulator 1 1)) demo_cluster)))
     (''shop'', ConfigMapName ''payment'') keyBaseline
   = cm_entry (mem_view demo_cluster) (''shop'', ConfigMapName ''payment'') keyBaseline"
  by (rule flush_keeps_stale_baseline[OF mem.reliable_client_axioms map_order_id(2) map_order_id(2)])
    (simp_all add: RegisterWorkload_def NewAccumulator_def acc_inv_def)

end
