(* ===== verification/Profile_Controller.thy ===== *)
theory Profile_Controller
  imports Config_Store Wildcard
begin

text \<open>
  \<^verbatim>\<open>internal/controller/egressprofile_controller.go\<close>: one pass of the profile reconciler. The
  world is the client's state and, when the reconciler has one, the accumulator; the clock
  reading is an argument. \<open>reconcile_result\<close> is \<^verbatim>\<open>ctrl.Result\<close>, its
  delay in seconds.
\<close>

subsection \<open>Operations\<close>

record reconcile_result =
  rr_RequeueAfter :: nat

abbreviation requeue_after :: "nat \<Rightarrow> reconcile_result" where
  "requeue_after n \<equiv> \<lparr>rr_RequeueAfter = n\<rparr>"

fun setCondition :: "Condition list \<Rightarrow> Condition \<Rightarrow> Condition list" where
  "setCondition [] cond = [cond]"
| "setCondition (c # cs) cond = (if cd_Type c = cd_Type cond then cond # cs else c # setCondition cs cond)"

fun countRisk_loop :: "DestEntry list \<Rightarrow> nat \<times> nat \<times> nat \<Rightarrow> nat \<times> nat \<times> nat" where
  "countRisk_loop [] (low, medium, high) = (low, medium, high)"
| "countRisk_loop (d # ds) (low, medium, high) = countRisk_loop ds
     (if de_DestFQDN d = [] \<and> isPublicIPSimple (de_DestIP d) then (low, medium, high + 1)
      else if de_FlowCount d \<ge> 5 \<and> de_Snapshots d \<ge> 2 then (low + 1, medium, high)
      else (low, medium + 1, high))"

definition countRisk :: "Snapshot \<Rightarrow> nat \<times> nat \<times> nat" where
  "countRisk snap = countRisk_loop (sn_Destinations snap) (0, 0, 0)"

definition zero_ProposalStatus :: EgressPolicyProposalStatus where
  "zero_ProposalStatus = \<lparr>xt_Phase = [], xt_ConfidenceScore = 0, xt_RiskLevel = [], xt_PolicyConfigMapRef = [],
     xt_ExcludedDestinations = [], xt_Conditions = [], xt_Message = []\<rparr>"

definition new_proposal :: "EgressProfile \<Rightarrow> EgressPolicyProposal" where
  "new_proposal profile =
     (let m = pr_Meta profile;
          policyName = pc_GeneratedPolicyName (ps_Policy (pr_Spec profile));
          policyName = (if policyName = [] then om_Name m @ ''-egress-allowlist'' else policyName)
      in \<lparr>xp_Meta = \<lparr>om_Name = om_Name m @ ''-proposal'', om_Namespace = om_Namespace m, om_UID = [],
            om_ResourceVersion = [], om_Labels = managedLabels (om_Name m),
            om_OwnerReferences = [ownerRef ''EgressProfile'' m]\<rparr>,
          xp_Spec = \<lparr>xs_ProfileRef_Name = om_Name m,
            xs_GeneratedPolicy = \<lparr>gp_Type = ''CiliumNetworkPolicy'', gp_Name = policyName\<rparr>,
            xs_Approval = \<lparr>ap_Approved = False, ap_ApprovedBy = [], ap_ApprovedAt = None\<rparr>\<rparr>,
          xp_Status = zero_ProposalStatus\<rparr>)"

definition ensureProposal :: "'s kube_client \<Rightarrow> 's \<Rightarrow> EgressProfile \<Rightarrow> (go_error + EgressPolicyProposal) \<times> 's" where
  "ensureProposal kc s profile =
     (let m = pr_Meta profile; proposalName = om_Name m @ ''-proposal'' in
      case kc_GetProposal kc s (om_Namespace m, proposalName) of
        (Inr proposal, s) \<Rightarrow> (Inr proposal, s)
      | (Inl err, s) \<Rightarrow>
          if \<not> IsNotFound err then (Inl err, s)
          else case kc_CreateProposal kc s (new_proposal profile) of
            (Inl err, s) \<Rightarrow> (Inl (Wrapped ''create EgressPolicyProposal'' err), s)
          | (Inr proposal, s) \<Rightarrow>
              (Inr proposal, kc_Eventf kc s \<lparr>ev_Object = meta_key m, ev_Type = ''Normal'', ev_Reason = ''ProposalCreated'',
                 ev_Message = ''Created EgressPolicyProposal '' @ proposalName\<rparr>))"

text \<open>The switch on the proposal's phase.\<close>

definition profile_phase :: "EgressMode \<Rightarrow> ProposalPhase \<Rightarrow> EgressPhase" where
  "profile_phase mode p =
     (if p = ProposalPhaseApplied then PhaseEnforced
      else if p = ProposalPhasePendingApproval \<or> p = ProposalPhaseApproved then
        if mode = ModeEnforce then PhaseAwaitingApproval else PhaseProposed
      else PhaseProposed)"

definition workload_key :: "EgressProfile \<Rightarrow> string" where
  "workload_key profile = om_Namespace (pr_Meta profile) @ ''/'' @ tr_Kind (ps_TargetRef (pr_Spec profile)) @ ''/'' @
     tr_Name (ps_TargetRef (pr_Spec profile))"

text \<open>The status computed from the snapshot, the phase and the clock.\<close>

definition profile_status :: "int \<Rightarrow> Snapshot \<Rightarrow> EgressPhase \<Rightarrow> string \<Rightarrow> string \<Rightarrow> EgressProfileStatus \<Rightarrow> EgressProfileStatus" where
  "profile_status now snap phase cmName proposalRef st =
     (let (low, medium, high) = countRisk snap in
      st\<lparr>pt_Phase := phase, pt_ObservedDestinationsCount := length (sn_Destinations snap),
         pt_Truncated := sn_Truncated snap, pt_LastObservationTime := Some now,
         pt_BaselineConfigMapRef := cmName, pt_ProposalRef := proposalRef,
         pt_RiskSummary := \<lparr>rs_Low = low, rs_Medium = medium, rs_High = high\<rparr>,
         pt_Message := (if high > 0 then dec high @ '' destination(s) High exclue(s) de la proposition.'' else pt_Message st),
         pt_Conditions := setCondition (pt_Conditions st)
           \<lparr>cd_Type = ''Ready'', cd_Status = ''True'', cd_Reason = ''Reconciled'', cd_Message = phase,
            cd_LastTransitionTime = now\<rparr>\<rparr>)"

definition Profile_Reconcile :: "int \<Rightarrow> 's kube_client \<Rightarrow> objkey \<Rightarrow>
    Accumulator option \<Rightarrow> 's \<Rightarrow> (reconcile_result \<times> go_error option) \<times> Accumulator option \<times> 's" where
  "Profile_Reconcile now kc req acc s =
     (case kc_GetProfile kc s req of
        (Inl err, s) \<Rightarrow>
          if IsNotFound err then ((requeue_after 0, None), acc, s) else ((requeue_after 0, Some err), acc, s)
      | (Inr profile, s) \<Rightarrow>
      (case EnsureConfigMap kc s profile of
        (Some err, s) \<Rightarrow> ((requeue_after 10, Some err), acc, s)
      | (None, s) \<Rightarrow>
      (let ns = om_Namespace (pr_Meta profile);
           cmName = ConfigMapName (om_Name (pr_Meta profile));
           acc = map_option (RegisterWorkload (workload_key profile) ns cmName) acc;
           (r, s) = GetSnapshot kc s ns cmName;
           snap = (case r of Inl err \<Rightarrow> zero_Snapshot | Inr snap \<Rightarrow> snap);
           mode = ps_Mode (pr_Spec profile);
           (outcome, s) =
             (if mode = ModeSuggest \<or> mode = ModeEnforce then
                case ensureProposal kc s profile of
                  (Inl err, s) \<Rightarrow> (Inl err, s)
                | (Inr proposal, s) \<Rightarrow>
                    (Inr (profile_phase mode (xt_Phase (xp_Status proposal)), om_Name (xp_Meta proposal)), s)
              else (Inr (PhaseObserving, pt_ProposalRef (pr_Status profile)), s))
       in case outcome of
            Inl err \<Rightarrow> ((requeue_after 15, Some err), acc, s)
          | Inr (phase, proposalRef) \<Rightarrow>
              (let profile' = profile\<lparr>pr_Status := profile_status now snap phase cmName proposalRef (pr_Status profile)\<rparr> in
               case kc_PatchProfileStatus kc s profile' profile of
                 (Some err, s) \<Rightarrow> ((requeue_after 10, Some err), acc, s)
               | (None, s) \<Rightarrow> ((requeue_after 30, None), acc, s)))))"

end
