(* ===== verification/Gitops_Export.thy ===== *)
theory Gitops_Export
  imports Mem_Cluster
begin

text \<open>
  \<^verbatim>\<open>internal/gitops/exporter.go\<close>: the policy file written for GitOps. The operating system's
  calls are arguments; \<^verbatim>\<open>filepath.Join\<close> is modelled as the library computes it. A policy name
  without a slash stays in the configured directory, a name with \<^verbatim>\<open>..\<close> leaves it.
\<close>

subsection \<open>filepath.Join\<close>

text \<open>The components of a path, between slashes.\<close>

fun split_path :: "string \<Rightarrow> string list" where
  "split_path [] = [[]]"
| "split_path (c # cs) =
     (if c = CHR ''/'' then [] # split_path cs
      else case split_path cs of [] \<Rightarrow> [[c]] | w # ws \<Rightarrow> (c # w) # ws)"

fun join_path :: "string list \<Rightarrow> string" where
  "join_path [] = []"
| "join_path [w] = w"
| "join_path (w # ws) = w @ ''/'' @ join_path ws"

text \<open>One component is handled at a time, given those kept so far: an empty one and a dot are
  dropped, two dots remove the last one kept, or stay when there is none and the path is not
  rooted.\<close>

fun clean_step :: "bool \<Rightarrow> string list \<Rightarrow> string \<Rightarrow> string list" where
  "clean_step rooted out w =
     (if w = [] \<or> w = ''.'' then out
      else if w = ''..'' then
        if out \<noteq> [] \<and> last out \<noteq> ''..'' then butlast out
        else if rooted then out else out @ [w]
      else out @ [w])"

definition clean_comps :: "string \<Rightarrow> string list" where
  "clean_comps path = foldl (clean_step (HasPrefix path ''/'')) [] (split_path path)"

definition path_Clean :: "string \<Rightarrow> string" where
  "path_Clean path =
     (if path = [] then ''.''
      else if HasPrefix path ''/'' then ''/'' @ join_path (clean_comps path)
      else if clean_comps path = [] then ''.'' else join_path (clean_comps path))"

definition path_Join :: "string \<Rightarrow> string \<Rightarrow> string" where
  "path_Join a b =
     (if a \<noteq> [] then path_Clean (a @ ''/'' @ b)
      else if b \<noteq> [] then path_Clean b else [])"

subsection \<open>ExportPolicy\<close>

record 's os_calls =
  os_MkdirAll :: "'s \<Rightarrow> string \<Rightarrow> go_error option \<times> 's"
  os_WriteFile :: "'s \<Rightarrow> string \<Rightarrow> string \<Rightarrow> go_error option \<times> 's"

definition ExportPolicy :: "'s os_calls \<Rightarrow> 's \<Rightarrow> string \<Rightarrow> string \<Rightarrow> string \<Rightarrow> go_error option \<times> 's" where
  "ExportPolicy os s outputPath name policyYAML =
     (case os_MkdirAll os s outputPath of
        (Some err, s) \<Rightarrow> (Some (Wrapped (''create output dir '' @ outputPath) err), s)
      | (None, s) \<Rightarrow>
          let dest = path_Join outputPath (name @ ''.yaml'')
          in os_WriteFile os s dest policyYAML)"

subsection \<open>The environment of the operator\<close>

text \<open>System calls do not touch the cluster.\<close>

locale operator_env = api_client +
  fixes os :: "'s os_calls"
  assumes os_view: "view (snd (os_MkdirAll os s d)) = view s" "view (snd (os_WriteFile os s f text)) = view s"
begin

lemma ExportPolicy_view: "view (snd (ExportPolicy os s outputPath name text)) = view s"
  using os_view(1)[of s outputPath] os_view(2)
  by (auto simp: ExportPolicy_def Let_def split: prod.split option.split)

end

definition mem_os :: "cluster os_calls" where
  "mem_os = \<lparr>os_MkdirAll = (\<lambda>s d. (if cl_ReadOnly s then Some (OsError ''EROFS'') else None, s)),
     os_WriteFile = (\<lambda>s f text. if cl_ReadOnly s then (Some (OsError ''EROFS''), s)
       else (None, s\<lparr>cl_Files := AList.update f text (cl_Files s)\<rparr>))\<rparr>"

interpretation mem_env: operator_env mem_client mem_view mem_os
  by unfold_locales (auto simp: mem_os_def mem_view_def)

subsection \<open>Where the file goes\<close>

lemma split_path_ne [simp]: "split_path s \<noteq> []"
  by (induction s) (auto split: list.split)

lemma split_path_append: "split_path (a @ ''/'' @ b) = split_path a @ split_path b"
  by (induction a) (auto split: list.split)

lemma split_path_word: "CHR ''/'' \<notin> set w \<Longrightarrow> split_path w = [w]"
  by (induction w) auto

lemma HasPrefix_slash_append: "a \<noteq> [] \<Longrightarrow> HasPrefix (a @ b) ''/'' = HasPrefix a ''/''"
  by (cases a) (simp_all add: HasPrefix_def)

lemma clean_comps_append:
  "a \<noteq> [] \<Longrightarrow> clean_comps (a @ ''/'' @ b) = foldl (clean_step (HasPrefix a ''/'')) (clean_comps a) (split_path b)"
  unfolding clean_comps_def HasPrefix_slash_append split_path_append foldl_append ..

lemma yaml_name: "name @ ''.yaml'' \<noteq> []" "name @ ''.yaml'' \<noteq> ''.''" "name @ ''.yaml'' \<noteq> ''..''"
  by (auto dest: arg_cong[of _ _ length])

lemma join_path_snoc: "join_path (ws @ [w]) = (if ws = [] then w else join_path ws @ ''/'' @ w)"
  by (induction ws rule: join_path.induct) auto

definition file_under :: "string \<Rightarrow> string \<Rightarrow> string" where
  "file_under dir file = (if clean_comps dir = [] then if HasPrefix dir ''/'' then ''/'' @ file else file
     else path_Clean dir @ ''/'' @ file)"

lemma path_Join_word:
  assumes "dir \<noteq> []" "CHR ''/'' \<notin> set w" "w \<noteq> []" "w \<noteq> ''.''" "w \<noteq> ''..''"
  shows "path_Join dir w = file_under dir w"
proof -
  have c: "clean_comps (dir @ ''/'' @ w) = clean_comps dir @ [w]"
    unfolding clean_comps_append[OF assms(1)] using assms by (simp add: split_path_word)
  show ?thesis
    unfolding path_Join_def path_Clean_def file_under_def c join_path_snoc HasPrefix_slash_append[OF assms(1)]
    using assms(1) by simp
qed

lemma path_Join_up:
  assumes "dir \<noteq> []" "clean_comps dir = ds @ [d]" "d \<noteq> ''..''" "CHR ''/'' \<notin> set w" "w \<noteq> []" "w \<noteq> ''.''" "w \<noteq> ''..''"
  shows "clean_comps (dir @ ''/'' @ ''../'' @ w) = ds @ [w]"
proof -
  have "split_path (''../'' @ w) = [''..'', w]"
    using split_path_append[of "''..''" w] assms(4) by (simp add: split_path_word)
  then show ?thesis
    unfolding clean_comps_append[OF assms(1)] using assms by (simp add: last_append)
qed

text \<open>A policy name without a slash is written to \<^verbatim>\<open><outputPath>/<name>.yaml\<close>, the directory
  in its cleaned form, after the directory was created; a failure to create the directory
  is returned and nothing is written.\<close>

lemma export_path:
  assumes "outputPath \<noteq> []" "CHR ''/'' \<notin> set name"
  shows "ExportPolicy os s outputPath name text =
    (case os_MkdirAll os s outputPath of
       (Some err, s') \<Rightarrow> (Some (Wrapped (''create output dir '' @ outputPath) err), s')
     | (None, s') \<Rightarrow> os_WriteFile os s' (file_under outputPath (name @ ''.yaml'')) text)"
proof -
  have "path_Join outputPath (name @ ''.yaml'') = file_under outputPath (name @ ''.yaml'')"
    using assms yaml_name[of name] by (intro path_Join_word) simp_all
  then show ?thesis by (simp add: ExportPolicy_def Let_def split: prod.split option.split)
qed

subsection \<open>Properties\<close>



end
