(* ===== verification/Proposal_Controller.thy ===== *)
theory Proposal_Controller
  imports Profile_Controller Gitops_Export Policy_Generator
begin

text \<open>
  \<^verbatim>\<open>internal/controller/egresspolicyproposal_controller.go\<close>: one pass of the proposal
  reconciler, which generates the policy, stores and exports it, applies it to the cluster
  when the profile's mode is Enforce and the proposal is approved, and reports.
\<close>

definition SetOwnerReferences :: "Unstructured \<Rightarrow> OwnerReference list \<Rightarrow> Unstructured" where
  "SetOwnerReferences cnp refs = cnp\<lparr>un_Meta := (un_Meta cnp)\<lparr>om_OwnerReferences := refs\<rparr>\<rparr>"

definition SetResourceVersion :: "Unstructured \<Rightarrow> string \<Rightarrow> Unstructured" where
  "SetResourceVersion cnp v = cnp\<lparr>un_Meta := (un_Meta cnp)\<lparr>om_ResourceVersion := v\<rparr>\<rparr>"

text \<open>The message of the warning event; the dash is one character of three bytes.\<close>

definition default_deny_event :: "EgressPolicyProposal \<Rightarrow> EgressProfile \<Rightarrow> Unstructured \<Rightarrow> Event" where
  "default_deny_event proposal profile cnp =
     \<lparr>ev_Object = meta_key (xp_Meta proposal), ev_Type = ''Warning'', ev_Reason = ''DefaultDenyEgress'',
      ev_Message = ''CiliumNetworkPolicy '' @ om_Name (un_Meta cnp) @ '' applied '' @ [CHR 0xE2, CHR 0x80, CHR 0x94] @
        '' workload '' @ om_Namespace (pr_Meta profile) @ ''/'' @ tr_Name (ps_TargetRef (pr_Spec profile)) @
        '' now operates under DEFAULT-DENY egress. '' @
        ''All traffic not in the allowlist (including DNS if allowDNS=false) will be dropped.''\<rparr>"

definition applyCNP :: "'s kube_client \<Rightarrow> 's \<Rightarrow> EgressPolicyProposal \<Rightarrow> EgressProfile \<Rightarrow> Unstructured \<Rightarrow>
    go_error option \<times> 's" where
  "applyCNP kc s proposal profile cnp =
     (let cnp = SetOwnerReferences cnp [ownerRef ''EgressPolicyProposal'' (xp_Meta proposal)];
          (err, s) =
            (case kc_GetCNP kc s (meta_key (un_Meta cnp)) of
               (Inl err, s) \<Rightarrow>
                 if IsNotFound err then
                   (case kc_CreateCNP kc s cnp of
                      (Some err, s) \<Rightarrow> (Some (Wrapped ''create CNP'' err), s)
                    | (None, s) \<Rightarrow> (None, s))
                 else (Some (Wrapped ''get CNP'' err), s)
             | (Inr existing, s) \<Rightarrow>
                 (case kc_UpdateCNP kc s (SetResourceVersion cnp (om_ResourceVersion (un_Meta existing))) of
                    (Some err, s) \<Rightarrow> (Some (Wrapped ''update CNP'' err), s)
                  | (None, s) \<Rightarrow> (None, s)))
      in case err of
           Some err \<Rightarrow> (Some err, s)
         | None \<Rightarrow> (None, kc_Eventf kc s (default_deny_event proposal profile cnp)))"

text \<open>The GitOps step: an error is logged and dropped.\<close>

definition export_step :: "'s os_calls \<Rightarrow> EgressPolicyProposal \<Rightarrow> EgressProfile \<Rightarrow> string \<Rightarrow> 's \<Rightarrow> 's" where
  "export_step os proposal profile yaml s =
     (let g = ps_GitOps (pr_Spec profile) in
      if gc_Enabled g \<and> gc_OutputPath g \<noteq> [] then
        let policyName = gp_Name (xs_GeneratedPolicy (xp_Spec proposal));
            policyName = (if policyName = [] then om_Name (pr_Meta profile) @ ''-egress-allowlist'' else policyName)
        in snd (ExportPolicy os s (gc_OutputPath g) policyName yaml)
      else s)"

text \<open>The phase, with the application of the policy.\<close>

definition apply_step :: "'s kube_client \<Rightarrow> EgressPolicyProposal \<Rightarrow> EgressProfile \<Rightarrow> Unstructured \<Rightarrow> 's \<Rightarrow>
    ProposalPhase \<times> 's" where
  "apply_step kc proposal profile cnp s =
     (if ps_Mode (pr_Spec profile) = ModeEnforce then
        if ap_Approved (xs_Approval (xp_Spec proposal)) then
          (case applyCNP kc s proposal profile cnp of
             (Some err, s) \<Rightarrow> (ProposalPhaseFailed, s)
           | (None, s) \<Rightarrow> (ProposalPhaseApplied, s))
        else (ProposalPhasePendingApproval, s)
      else (ProposalPhasePendingApproval, s))"

definition status_message :: "GenerationResult \<Rightarrow> string" where
  "status_message res = ''score='' @ dec (nat (gr_ConfidenceScore res)) @ '' risk='' @ gr_RiskLevel res @
     '' excluded='' @ dec (length (gr_ExcludedDestinations res))"

definition proposal_status :: "int \<Rightarrow> GenerationResult \<Rightarrow> ProposalPhase \<Rightarrow> string \<Rightarrow> EgressPolicyProposalStatus \<Rightarrow>
    EgressPolicyProposalStatus" where
  "proposal_status now res phase cmName st =
     st\<lparr>xt_Phase := phase, xt_ConfidenceScore := gr_ConfidenceScore res, xt_RiskLevel := gr_RiskLevel res,
        xt_PolicyConfigMapRef := cmName, xt_ExcludedDestinations := gr_ExcludedDestinations res,
        xt_Message := status_message res,
        xt_Conditions := setCondition (xt_Conditions st)
          \<lparr>cd_Type = ''Ready'', cd_Status = ''True'', cd_Reason = phase, cd_Message = status_message res,
           cd_LastTransitionTime = now\<rparr>\<rparr>"

definition Proposal_Reconcile :: "(Unstructured \<Rightarrow> string) \<Rightarrow> (fqdnKey list \<Rightarrow> fqdnKey list) \<Rightarrow>
    (portProto list \<Rightarrow> portProto list) \<Rightarrow> int \<Rightarrow> 's kube_client \<Rightarrow> 's os_calls \<Rightarrow>
    objkey \<Rightarrow> 's \<Rightarrow> (reconcile_result \<times> go_error option) \<times> 's" where
  "Proposal_Reconcile yamlMarshal ordF ordP now kc os req s =
     (case kc_GetProposal kc s req of
        (Inl err, s) \<Rightarrow> if IsNotFound err then ((requeue_after 0, None), s) else ((requeue_after 0, Some err), s)
      | (Inr proposal, s) \<Rightarrow>
      (let ns = om_Namespace (xp_Meta proposal) in
       case kc_GetProfile kc s (ns, xs_ProfileRef_Name (xp_Spec proposal)) of
        (Inl err, s) \<Rightarrow> ((requeue_after 15, Some err), s)
      | (Inr profile, s) \<Rightarrow>
      (let cmName = ConfigMapName (om_Name (pr_Meta profile)) in
       case GetSnapshot kc s ns cmName of
        (Inl err, s) \<Rightarrow> ((requeue_after 15, Some err), s)
      | (Inr snap, s) \<Rightarrow>
      (let res = Generate yamlMarshal ordF ordP (om_Name (pr_Meta profile)) ns (ps_Policy (pr_Spec profile)) snap in
       case SavePolicyYAML kc s ns cmName (gr_YAML res) of
        (Some err, s) \<Rightarrow> ((requeue_after 10, Some err), s)
      | (None, s) \<Rightarrow>
      (let s = export_step os proposal profile (gr_YAML res) s;
           (phase, s) = apply_step kc proposal profile (gr_CNP res) s;
           proposal' = proposal\<lparr>xp_Status := proposal_status now res phase cmName (xp_Status proposal)\<rparr>
       in case kc_PatchProposalStatus kc s proposal' proposal of
            (Some err, s) \<Rightarrow> ((requeue_after 10, Some err), s)
          | (None, s) \<Rightarrow> ((requeue_after 30, None), s))))))"

end
