(* ===== verification/Baseline_Props.thy ===== *)
theory Baseline_Props
  imports Baseline
begin

text \<open>
  The exact range of scores and risk levels, the sort of \<^verbatim>\<open>builder.go\<close> as a stable sort, the
  risk summary, and snapshot comparison as set difference.
\<close>

text \<open>A destination with a wildcard-free name; a destination that the hard rules make High; the
  identifiers of a snapshot's destinations.\<close>

definition named :: "DestEntry \<Rightarrow> bool" where
  "named e \<longleftrightarrow> de_DestFQDN e \<noteq> [] \<and> CHR ''*'' \<notin> set (de_DestFQDN e)"

definition hard_high :: "DestEntry \<Rightarrow> bool" where
  "hard_high e \<longleftrightarrow> (de_DestFQDN e = [] \<and> isPublicIP (de_DestIP e)) \<or> isWildcardLarge (de_DestFQDN e)"

definition ids :: "Snapshot option \<Rightarrow> string set" where
  "ids snap = (case snap of None \<Rightarrow> {} | Some sn \<Rightarrow> destID ` set (sn_Destinations sn))"

subsection \<open>Scores and risk levels\<close>

lemma isWildcardLarge_star: "isWildcardLarge s \<Longrightarrow> s \<noteq> [] \<and> CHR ''*'' \<in> set s"
  by (auto simp: isWildcardLarge_def split: if_splits)

lemma Score_bounds: "5 \<le> Score e \<and> Score e \<le> 100"
  using isWildcardLarge_star[of "de_DestFQDN e"] by (auto simp: Score_def Let_def)

lemma Score_soft:
  assumes "\<not> hard_high e"
  shows "Score e = min 100 (50 + (if de_Snapshots e \<ge> 3 then 25 else 0) + (if de_FlowCount e \<ge> 10 then 15 else 0)
     + (if isStandardPort (de_DestPort e) then 10 else 0) + (if named e then 10 else 0)
     - (if de_Snapshots e = 1 \<and> de_FlowCount e = 1 then 15 else 0))"
  using assms by (auto simp: Score_def Let_def hard_high_def named_def)

lemma not_10_le_1: "\<not> (10 :: u64) \<le> 1"
  by (simp add: word_le_nat_alt)

lemma risk_high:
  "RiskLevel e (Score e) = ''High'' \<longleftrightarrow> hard_high e \<or>
     (de_Snapshots e = 1 \<and> de_FlowCount e = 1 \<and> \<not> (isStandardPort (de_DestPort e) \<and> named e))"
proof (cases "hard_high e")
  case True
  then show ?thesis by (auto simp: RiskLevel_def hard_high_def)
next
  case False
  then have "RiskLevel e (Score e) = ''High'' \<longleftrightarrow> Score e < 50"
    by (auto simp: RiskLevel_def hard_high_def)
  also have "\<dots> \<longleftrightarrow> (de_Snapshots e = 1 \<and> de_FlowCount e = 1 \<and> \<not> (isStandardPort (de_DestPort e) \<and> named e))"
    unfolding Score_soft[OF False] using not_10_le_1 by auto
  finally show ?thesis using False by simp
qed

lemma risk_low:
  "RiskLevel e (Score e) = ''Low'' \<longleftrightarrow> \<not> hard_high e \<and>
     (de_Snapshots e \<ge> 3 \<and> (de_FlowCount e \<ge> 10 \<or> isStandardPort (de_DestPort e) \<or> named e)
      \<or> de_FlowCount e \<ge> 10 \<and> isStandardPort (de_DestPort e) \<and> named e)"
proof (cases "hard_high e")
  case True
  then show ?thesis by (auto simp: RiskLevel_def hard_high_def)
next
  case False
  then have "RiskLevel e (Score e) = ''Low'' \<longleftrightarrow> Score e \<ge> 80"
    by (auto simp: RiskLevel_def hard_high_def)
  also have "\<dots> \<longleftrightarrow> (de_Snapshots e \<ge> 3 \<and> (de_FlowCount e \<ge> 10 \<or> isStandardPort (de_DestPort e) \<or> named e)
      \<or> de_FlowCount e \<ge> 10 \<and> isStandardPort (de_DestPort e) \<and> named e)"
    unfolding Score_soft[OF False] using not_10_le_1 by auto
  finally show ?thesis using False by simp
qed

lemma risk_cases: "RiskLevel e s \<in> {''Low'', ''Medium'', ''High''}"
  by (simp add: RiskLevel_def)

lemma foldl_sum: "foldl (\<lambda>total e. total + Score e) z es = z + sum_list (map Score es)"
  by (induction es arbitrary: z) auto

lemma AggregateScore_mean: "AggregateScore es = sum_list (map Score es) div int (length es)"
  by (simp add: AggregateScore_def foldl_sum)

lemma sum_list_between:
  assumes "\<And>x. x \<in> set xs \<Longrightarrow> lo \<le> f x \<and> f x \<le> (hi::int)"
  shows "lo * int (length xs) \<le> sum_list (map f xs) \<and> sum_list (map f xs) \<le> hi * int (length xs)"
  using assms by (induction xs) (auto simp: algebra_simps, fastforce+)

lemma AggregateScore_between:
  assumes "es \<noteq> []" "\<And>e. e \<in> set es \<Longrightarrow> lo \<le> Score e \<and> Score e \<le> hi"
  shows "lo \<le> AggregateScore es \<and> AggregateScore es \<le> hi"
proof -
  have n: "0 < int (length es)" using assms(1) by simp
  from sum_list_between[of es lo Score hi] assms(2)
  have "lo * int (length es) \<le> sum_list (map Score es)" "sum_list (map Score es) \<le> hi * int (length es)" by auto
  from this[THEN zdiv_mono1, OF n] show ?thesis unfolding AggregateScore_mean using n by simp
qed

abbreviation risk_key :: "ScoredEntry \<Rightarrow> nat" where
  "risk_key x \<equiv> risk_order (se_RiskLevel x)"

lemma sift_down_append:
  "sorted (map risk_key ys) \<Longrightarrow> sift_down (length ys) (ys @ x # zs) =
     filter (\<lambda>y. risk_key y \<le> risk_key x) ys @ x # filter (\<lambda>y. risk_key x < risk_key y) ys @ zs"
proof (induction ys arbitrary: zs rule: rev_induct)
  case (snoc y ys)
  have s: "sorted (map risk_key ys)" "\<forall>w \<in> set ys. risk_key w \<le> risk_key y"
    using snoc.prems by (auto simp: sorted_append)
  show ?case
  proof (cases "risk_key x < risk_key y")
    case True
    then show ?thesis using snoc.IH[OF s(1), of "y # zs"] by (simp add: nth_append list_update_append)
  next
    case False
    then have "\<forall>w \<in> set ys. risk_key w \<le> risk_key x" using s(2) by force
    then have "filter (\<lambda>y. risk_key y \<le> risk_key x) ys = ys" "filter (\<lambda>y. risk_key x < risk_key y) ys = []"
      by (auto simp: filter_empty_conv not_less)
    then show ?thesis using False by (simp add: nth_append)
  qed
qed simp

lemma sort_key_snoc:
  fixes f :: "'a \<Rightarrow> 'b::linorder"
  shows "sort_key f (xs @ [x]) =
    filter (\<lambda>y. f y \<le> f x) (sort_key f xs) @ x # filter (\<lambda>y. f x < f y) (sort_key f xs)"
proof (rule properties_for_sort_key)
  let ?s = "sort_key f xs"
  have "filter_mset (\<lambda>y. f y \<le> f x) (mset xs) + filter_mset (\<lambda>y. f x < f y) (mset xs) = mset xs"
    using multiset_partition[of "mset xs" "\<lambda>y. f y \<le> f x"] by (simp add: not_le)
  then show "mset (filter (\<lambda>y. f y \<le> f x) ?s @ x # filter (\<lambda>y. f x < f y) ?s) = mset (xs @ [x])"
    by simp
  show "sorted (map f (filter (\<lambda>y. f y \<le> f x) ?s @ x # filter (\<lambda>y. f x < f y) ?s))"
    by (auto simp: sorted_append sorted_filter)
  fix k
  have st: "filter (\<lambda>y. f k = f y) ?s = filter (\<lambda>y. f k = f y) xs"
    using sort_key_stable[of f "f k" xs] by (simp add: eq_commute)
  show "filter (\<lambda>y. f k = f y) (filter (\<lambda>y. f y \<le> f x) ?s @ x # filter (\<lambda>y. f x < f y) ?s)
      = filter (\<lambda>y. f k = f y) (xs @ [x])"
  proof (cases "f k \<le> f x")
    case True
    then have "filter (\<lambda>y. f k = f y \<and> f y \<le> f x) ?s = filter (\<lambda>y. f k = f y) ?s"
      "filter (\<lambda>y. f k = f y \<and> f x < f y) ?s = []"
      by (auto intro: filter_cong simp: filter_empty_conv)
    then show ?thesis by (simp add: st conj_commute)
  next
    case False
    then have "filter (\<lambda>y. f k = f y \<and> f y \<le> f x) ?s = []"
      "filter (\<lambda>y. f k = f y \<and> f x < f y) ?s = filter (\<lambda>y. f k = f y) ?s"
      by (auto intro: filter_cong simp: filter_empty_conv)
    then show ?thesis using False by (auto simp: st conj_commute)
  qed
qed

lemma sortByRisk_prefix:
  "n \<le> length es \<Longrightarrow> foldl (\<lambda>es i. sift_down i es) es [1..<n] =
     sort_key (\<lambda>x. risk_key x) (take n es) @ drop n es"
proof (induction n)
  case (Suc n)
  let ?s = "sort_key (\<lambda>x. risk_key x) (take n es)"
  have d: "drop n es = es ! n # drop (Suc n) es" using Suc.prems by (simp add: Cons_nth_drop_Suc)
  have l: "length ?s = n" using Suc.prems by simp
  show ?case
  proof (cases "n = 0")
    case True
    then show ?thesis using Suc.prems by (cases es) simp_all
  next
    case False
    then have "foldl (\<lambda>es i. sift_down i es) es [1..<Suc n] = sift_down n (?s @ drop n es)"
      using Suc by simp
    also have "\<dots> = filter (\<lambda>y. risk_key y \<le> risk_key (es ! n)) ?s @ es ! n #
        filter (\<lambda>y. risk_key (es ! n) < risk_key y) ?s @ drop (Suc n) es"
      using sift_down_append[of ?s "es ! n" "drop (Suc n) es"] unfolding d l by simp
    also have "\<dots> = sort_key (\<lambda>x. risk_key x) (take n es @ [es ! n]) @ drop (Suc n) es"
      unfolding sort_key_snoc by simp
    finally show ?thesis using Suc.prems by (simp add: take_Suc_conv_app_nth)
  qed
qed simp

lemma sortByRisk_sort_key: "sortByRisk es = sort_key (\<lambda>x. risk_key x) es"
  using sortByRisk_prefix[of "length es" es] by (simp add: sortByRisk_def)

lemma risk_key_three: "x \<in> set (map score_entry es) \<Longrightarrow> risk_key x \<in> {0, 1, 2}"
  by (auto simp: risk_order_def)

lemma risk_order_level [simp]:
  "risk_order ''Low'' = 0" "risk_order ''Medium'' = 1" "risk_order ''High'' = 2"
  by (simp_all add: risk_order_def)

lemma sort_three:
  assumes "\<And>x. x \<in> set xs \<Longrightarrow> f x \<in> {0, 1, 2::nat}"
  shows "sort_key f xs = filter (\<lambda>x. f x = 0) xs @ filter (\<lambda>x. f x = 1) xs @ filter (\<lambda>x. f x = 2) xs"
proof (rule properties_for_sort_key)
  show "mset (filter (\<lambda>x. f x = 0) xs @ filter (\<lambda>x. f x = 1) xs @ filter (\<lambda>x. f x = 2) xs) = mset xs"
    using assms by (induction xs) auto
  show "sorted (map f (filter (\<lambda>x. f x = 0) xs @ filter (\<lambda>x. f x = 1) xs @ filter (\<lambda>x. f x = 2) xs))"
    by (simp add: sorted_append) (auto intro!: sorted_map_same[where f = f] simp: image_def)
  fix k
  assume "k \<in> set (filter (\<lambda>x. f x = 0) xs @ filter (\<lambda>x. f x = 1) xs @ filter (\<lambda>x. f x = 2) xs)"
  then have "f k = 0 \<or> f k = 1 \<or> f k = 2" by auto
  then show "filter (\<lambda>x. f k = f x) (filter (\<lambda>x. f x = 0) xs @ filter (\<lambda>x. f x = 1) xs @ filter (\<lambda>x. f x = 2) xs)
      = filter (\<lambda>x. f k = f x) xs"
    by (elim disjE) (simp_all add: conj_commute cong: conj_cong, (auto intro!: filter_cong simp: filter_empty_conv)?)
qed

lemma score_entry_simps [simp]:
  "se_Entry (score_entry e) = e" "se_Score (score_entry e) = Score e"
  "se_RiskLevel (score_entry e) = RiskLevel e (Score e)"
  by (simp_all add: score_entry_def Let_def)

lemma risk_key_iff:
  "risk_key (score_entry e) = 0 \<longleftrightarrow> RiskLevel e (Score e) = ''Low''"
  "risk_key (score_entry e) = 1 \<longleftrightarrow> RiskLevel e (Score e) = ''Medium''"
  "risk_key (score_entry e) = 2 \<longleftrightarrow> RiskLevel e (Score e) = ''High''"
  using risk_cases[of e "Score e"] by (auto simp: risk_order_def)

lemma Build_groups:
  "Build snap = map score_entry
     (filter (\<lambda>e. RiskLevel e (Score e) = ''Low'') (sn_Destinations snap) @
      filter (\<lambda>e. RiskLevel e (Score e) = ''Medium'') (sn_Destinations snap) @
      filter (\<lambda>e. RiskLevel e (Score e) = ''High'') (sn_Destinations snap))"
proof -
  have "Build snap = sort_key (\<lambda>x. risk_key x) (map score_entry (sn_Destinations snap))"
    by (simp add: Build_def sortByRisk_sort_key)
  also have "\<dots> = filter (\<lambda>x. risk_key x = 0) (map score_entry (sn_Destinations snap)) @
     filter (\<lambda>x. risk_key x = 1) (map score_entry (sn_Destinations snap)) @
     filter (\<lambda>x. risk_key x = 2) (map score_entry (sn_Destinations snap))"
    by (rule sort_three) (rule risk_key_three)
  finally show ?thesis by (simp add: filter_map comp_def risk_key_iff[simplified])
qed

lemma Build_perm: "mset (map se_Entry (Build snap)) = mset (sn_Destinations snap)"
  by (simp add: Build_def sortByRisk_sort_key multiset.map_comp comp_def)

lemma RiskSummaryFrom_counts:
  "RiskSummaryFrom es = (length (filter (\<lambda>e. se_RiskLevel e = ''Low'') es),
     length (filter (\<lambda>e. se_RiskLevel e = ''Medium'') es), length (filter (\<lambda>e. se_RiskLevel e = ''High'') es))"
  by (induction es) (auto simp: Let_def)

lemma indexSnapshot_keys:
  "set (map fst (foldl (\<lambda>m d. AList.update (destID d) () m) m ds)) = set (map fst m) \<union> destID ` set ds"
  "distinct (map fst m) \<Longrightarrow> distinct (map fst (foldl (\<lambda>m d. AList.update (destID d) () m) m ds))"
  by (induction ds arbitrary: m) (auto simp: AList.dom_update AList.distinct_update)

lemma indexSnapshot_ids: "set (map fst (indexSnapshot snap)) = ids snap" "distinct (map fst (indexSnapshot snap))"
  using indexSnapshot_keys[of "[]"] by (auto simp: indexSnapshot_def ids_def split: option.split)

lemma Detect_sets:
  assumes "map_order ord"
  shows "set (dr_NewDestinations (Detect ord previous current)) = ids current - ids previous"
    and "set (dr_RemovedDestinations (Detect ord previous current)) = ids previous - ids current"
    and "distinct (dr_NewDestinations (Detect ord previous current))"
    and "distinct (dr_RemovedDestinations (Detect ord previous current))"
  using indexSnapshot_ids[of previous] indexSnapshot_ids[of current]
  by (auto simp: Detect_def Let_def map_orderD[OF assms] map_of_eq_None_iff)

subsection \<open>Properties\<close>

text \<open>Every score lies between 5 and 100, and the aggregate of a non-empty list of
  destinations lies between their lowest and highest score.\<close>

lemma scores_bounded:
  assumes "es \<noteq> []"
  shows "(\<forall>e. 5 \<le> Score e \<and> Score e \<le> 100) \<and>
    Min (Score ` set es) \<le> AggregateScore es \<and> AggregateScore es \<le> Max (Score ` set es)"
  using Score_bounds AggregateScore_between[OF assms, of "Min (Score ` set es)" "Max (Score ` set es)"]
  by auto

text \<open>C29: the risk level of a destination at its own score, exactly. It is High for a direct
  public address, a large wildcard, and a destination seen once unless it has both a
  standard port and a wildcard-free name; it is Low for the others that are stable with one
  more merit, or have volume, a standard port and such a name together.\<close>

theorem risk_level_exact:
  "(RiskLevel e (Score e) = ''High'' \<longleftrightarrow> hard_high e \<or>
     (de_Snapshots e = 1 \<and> de_FlowCount e = 1 \<and> \<not> (isStandardPort (de_DestPort e) \<and> named e)))
   \<and> (RiskLevel e (Score e) = ''Low'' \<longleftrightarrow> \<not> hard_high e \<and>
     (de_Snapshots e \<ge> 3 \<and> (de_FlowCount e \<ge> 10 \<or> isStandardPort (de_DestPort e) \<or> named e)
      \<or> de_FlowCount e \<ge> 10 \<and> isStandardPort (de_DestPort e) \<and> named e))
   \<and> RiskLevel e (Score e) \<in> {''Low'', ''Medium'', ''High''}"
  using risk_high[of e] risk_low[of e] risk_cases[of e] by blast

text \<open>C28: \<^verbatim>\<open>Build\<close> returns every destination once, scored: first the Low ones, then Medium,
  then High, each group in the order of the snapshot. Its in-place insertion sort is the
  library's stable sort.\<close>

theorem build_stable_sort:
  "Build snap = map score_entry
     (filter (\<lambda>e. RiskLevel e (Score e) = ''Low'') (sn_Destinations snap) @
      filter (\<lambda>e. RiskLevel e (Score e) = ''Medium'') (sn_Destinations snap) @
      filter (\<lambda>e. RiskLevel e (Score e) = ''High'') (sn_Destinations snap))
   \<and> sortByRisk es = sort_key (\<lambda>x. risk_key x) es"
  using Build_groups sortByRisk_sort_key by blast

text \<open>The risk summary of a built baseline counts each level, and the three counts add up to the
  number of destinations of the snapshot.\<close>

lemma risk_summary_total:
  assumes "RiskSummaryFrom (Build snap) = (low, medium, high)"
  shows "low = length (filter (\<lambda>e. RiskLevel e (Score e) = ''Low'') (sn_Destinations snap))
    \<and> high = length (filter (\<lambda>e. RiskLevel e (Score e) = ''High'') (sn_Destinations snap))
    \<and> low + medium + high = length (sn_Destinations snap)"
proof -
  have "length (Build snap) = length (sn_Destinations snap)"
    using mset_eq_length[OF Build_perm[of snap]] by simp
  then show ?thesis
    using assms unfolding RiskSummaryFrom_counts Build_groups
    by (auto simp: filter_map comp_def filter_empty_conv)
qed

end
