(* ===== verification/Policy_Generator_Props.thy ===== *)
theory Policy_Generator_Props
  imports Policy_Generator Baseline_Props
begin

text \<open>
  What the generated policy says. \<open>policy_triples\<close> reads the application rules back from the
  generated object: for each rule every name with every port and protocol. The closed
  form \<open>fqdn_rules_eq\<close> removes both map orders, and the properties follow from it: the
  allowlist is exact, it does not depend on any iteration order, every other destination is
  reported or silently left out, and which wildcards get through.
\<close>

subsection \<open>Reading a policy back\<close>

fun ufield :: "string \<Rightarrow> uval \<Rightarrow> uval option" where
  "ufield k (UMap kvs) = map_of kvs k"
| "ufield k _ = None"

fun uitems :: "uval option \<Rightarrow> uval list" where
  "uitems (Some (UList xs)) = xs"
| "uitems _ = []"

fun ustr :: "uval option \<Rightarrow> string list" where
  "ustr (Some (UStr s)) = [s]"
| "ustr _ = []"

definition rule_triples :: "uval \<Rightarrow> (string \<times> string \<times> string) list" where
  "rule_triples rule =
     [(f, p, q). item \<leftarrow> uitems (ufield ''toFQDNs'' rule), f \<leftarrow> ustr (ufield ''matchName'' item),
        tp \<leftarrow> uitems (ufield ''toPorts'' rule), pq \<leftarrow> uitems (ufield ''ports'' tp),
        p \<leftarrow> ustr (ufield ''port'' pq), q \<leftarrow> ustr (ufield ''protocol'' pq)]"

definition policy_triples :: "Unstructured \<Rightarrow> (string \<times> string \<times> string) list" where
  "policy_triples cnp = concat (map rule_triples (case un_egress cnp of Some rs \<Rightarrow> rs | None \<Rightarrow> []))"

text \<open>The three ways the loop treats an entry.\<close>

definition entry_high :: "DestEntry \<Rightarrow> bool" where
  "entry_high e \<longleftrightarrow> RiskLevel e (Score e) = ''High'' \<or> IsDirectPublicIP (de_DestFQDN e) (de_DestIP e)"

definition entry_wildcard :: "DestEntry \<Rightarrow> bool" where
  "entry_wildcard e \<longleftrightarrow> \<not> entry_high e \<and> WildcardRisk (de_DestFQDN e) = ''Medium''"

definition entry_allowed :: "DestEntry \<Rightarrow> bool" where
  "entry_allowed e \<longleftrightarrow> \<not> entry_high e \<and> \<not> entry_wildcard e \<and> de_DestFQDN e \<noteq> []"

definition exclusion :: "DestEntry \<Rightarrow> ExcludedDestination" where
  "exclusion e =
     (if entry_high e
      then \<lparr>xd_Dest = destHost e @ '':'' @ dec (unat (de_DestPort e)), xd_Risk = RiskHigh,
            xd_Reason = (if IsDirectPublicIP (de_DestFQDN e) (de_DestIP e) then reasonDirectIP else ''risk=High'')\<rparr>
      else \<lparr>xd_Dest = de_DestFQDN e @ '':'' @ dec (unat (de_DestPort e)), xd_Risk = RiskMedium,
            xd_Reason = reasonWildcard\<rparr>)"

abbreviation entry_triple :: "DestEntry \<Rightarrow> string \<times> string \<times> string" where
  "entry_triple e \<equiv> (de_DestFQDN e, dec (unat (de_DestPort e)), de_Protocol e)"

text \<open>The patterns that only \<^verbatim>\<open>wildcard.go\<close> knows.\<close>

definition countryPatterns :: "string list" where
  "countryPatterns = [''*.co'', ''*.de'', ''*.fr'', ''*.uk'', ''*.ru'', ''*.cn'']"

subsection \<open>The loop\<close>

lemma WildcardRisk_empty [simp]: "WildcardRisk [] = ''Safe''"
  by (simp add: WildcardRisk_def)

lemma generate_loop_eq:
  "generate_loop (map score_entry es) g x =
     (foldl (\<lambda>g e. AList.update (entryKey e) True g) g (filter entry_allowed es),
      x @ map exclusion (filter (\<lambda>e. entry_high e \<or> entry_wildcard e) es))"
proof (induction es arbitrary: g x)
  case (Cons e es)
  consider "entry_high e" | "entry_wildcard e" | "entry_allowed e"
    | "\<not> entry_high e" "\<not> entry_wildcard e" "\<not> entry_allowed e"
    by blast
  then show ?case
  proof cases
    case 1
    then have "\<not> entry_allowed e" "\<not> entry_wildcard e"
      by (auto simp: entry_allowed_def entry_wildcard_def)
    with 1 show ?thesis
      using 1[unfolded entry_high_def] by (simp add: Cons.IH exclusion_def Let_def)
  next
    case 2
    then have *: "\<not> entry_high e" "WildcardRisk (de_DestFQDN e) = ''Medium''" "\<not> entry_allowed e"
      by (auto simp: entry_wildcard_def entry_allowed_def)
    then have "de_DestFQDN e \<noteq> []" by auto
    with * 2 show ?thesis
      using *(1)[unfolded entry_high_def] by (simp add: Cons.IH exclusion_def Let_def)
  next
    case 3
    then have *: "\<not> entry_high e" "\<not> entry_wildcard e" "de_DestFQDN e \<noteq> []" "WildcardRisk (de_DestFQDN e) \<noteq> ''Medium''"
      by (auto simp: entry_allowed_def entry_wildcard_def)
    with 3 show ?thesis
      using *(1)[unfolded entry_high_def] by (simp add: Cons.IH Let_def)
  next
    case 4
    then have "de_DestFQDN e = []" by (auto simp: entry_allowed_def)
    with 4 show ?thesis
      using 4(1)[unfolded entry_high_def] by (simp add: Cons.IH Let_def)
  qed
qed simp

lemma update_keys:
  "set (map fst (foldl (\<lambda>g e. AList.update (k e) v g) g es)) = set (map fst g) \<union> k ` set es"
  "distinct (map fst g) \<Longrightarrow> distinct (map fst (foldl (\<lambda>g e. AList.update (k e) v g) g es))"
  by (induction es arbitrary: g) (auto simp: AList.dom_update AList.distinct_update)

subsection \<open>Grouping by port\<close>

abbreviation key_pp :: "fqdnKey \<Rightarrow> portProto" where
  "key_pp k \<equiv> PortProto (fk_port k) (fk_proto k)"

abbreviation getl :: "('k \<times> 'v list) list \<Rightarrow> 'k \<Rightarrow> 'v list" where
  "getl m k \<equiv> (case map_of m k of Some vs \<Rightarrow> vs | None \<Rightarrow> [])"

lemma port_loop_keys:
  "set (map fst (port_loop ks m)) = set (map fst m) \<union> key_pp ` set ks"
  "distinct (map fst m) \<Longrightarrow> distinct (map fst (port_loop ks m))"
  by (induction ks arbitrary: m) (auto simp: Let_def AList.dom_update AList.distinct_update)

lemma port_loop_names:
  "getl (port_loop ks m) pp = getl m pp @ map fk_fqdn (filter (\<lambda>k. key_pp k = pp) ks)"
  by (induction ks arbitrary: m) (auto simp: Let_def AList.update_conv')

lemma sort_distinct: "distinct xs \<Longrightarrow> set xs = A \<Longrightarrow> sort xs = sorted_list_of_set A"
  using sorted_list_of_set_sort_remdups[of xs] by (simp add: distinct_remdups_id)

text \<open>The application rules of a set of allowed entries, with no map left.\<close>

definition app_rules :: "DestEntry set \<Rightarrow> uval list" where
  "app_rules A = map (\<lambda>pp. fqdnEgressRule
      (sorted_list_of_set {de_DestFQDN e |e. e \<in> A \<and> PortProto (de_DestPort e) (de_Protocol e) = pp})
      (pp_port pp) (pp_proto pp))
    (sorted_list_of_set ((\<lambda>e. PortProto (de_DestPort e) (de_Protocol e)) ` A))"

lemma fqdn_rules_eq:
  assumes "map_order ordF" "map_order ordP" "distinct (map fst g)" "fst ` set g = entryKey ` A"
  shows "fqdn_rules ordF ordP g = app_rules A"
proof -
  let ?ks = "ordF (map fst g)"
  have ks: "set ?ks = entryKey ` A" "distinct ?ks"
    using assms by (simp_all add: map_orderD)
  let ?pps = "ordP (map fst (port_loop ?ks []))"
  have "set ?pps = (\<lambda>e. PortProto (de_DestPort e) (de_Protocol e)) ` A" "distinct ?pps"
    using port_loop_keys(1)[of ?ks "[]"] port_loop_keys(2)[of "[]" ?ks] ks map_orderD[OF assms(2)]
    by (simp_all add: image_image entryKey_def)
  then have keys: "sort ?pps = sorted_list_of_set ((\<lambda>e. PortProto (de_DestPort e) (de_Protocol e)) ` A)"
    by (intro sort_distinct)
  have names: "sort (getl (port_loop ?ks []) pp) =
      sorted_list_of_set {de_DestFQDN e |e. e \<in> A \<and> PortProto (de_DestPort e) (de_Protocol e) = pp}" for pp
  proof (rule sort_distinct)
    have "inj_on fk_fqdn (set (filter (\<lambda>k. key_pp k = pp) ?ks))"
      by (rule inj_onI) (auto intro: fqdnKey.equality)
    then show "distinct (getl (port_loop ?ks []) pp)"
      using ks(2) by (simp add: port_loop_names distinct_map)
    show "set (getl (port_loop ?ks []) pp) =
        {de_DestFQDN e |e. e \<in> A \<and> PortProto (de_DestPort e) (de_Protocol e) = pp}"
    proof -
      have "set (getl (port_loop ?ks []) pp) = fk_fqdn ` {k \<in> entryKey ` A. key_pp k = pp}"
        by (simp add: port_loop_names ks(1))
      also have "{k \<in> entryKey ` A. key_pp k = pp} =
          entryKey ` {e \<in> A. PortProto (de_DestPort e) (de_Protocol e) = pp}"
        by (auto simp: entryKey_def)
      also have "fk_fqdn ` \<dots> = {de_DestFQDN e |e. e \<in> A \<and> PortProto (de_DestPort e) (de_Protocol e) = pp}"
        by (simp add: image_image entryKey_def setcompr_eq_image)
      finally show ?thesis .
    qed
  qed
  show ?thesis
    unfolding fqdn_rules_def app_rules_def Let_def keys names ..
qed

lemma Build_entries: "Build snap = map score_entry (map se_Entry (Build snap))"
  unfolding Build_groups by (simp add: comp_def)

lemma set_Build_entries: "set (map se_Entry (Build snap)) = set (sn_Destinations snap)"
  using Build_perm by (metis mset_eq_setD)

text \<open>All of \<^verbatim>\<open>Generate\<close>, with the orders gone.\<close>

lemma Generate_eq:
  assumes "map_order ordF" "map_order ordP"
  shows "Generate yamlMarshal ordF ordP profileName namespace policy snap =
    (let cnp = SetEgressRules (SetEndpointSelector
           (NewCNP (if pc_GeneratedPolicyName policy = [] then profileName @ ''-egress-allowlist''
                    else pc_GeneratedPolicyName policy) namespace)
           [(''app'', UStr profileName)])
         ((if pc_AllowDNS policy then [dnsPolicyRule] else []) @
          app_rules {e \<in> set (sn_Destinations snap). entry_allowed e});
         score = AggregateScore (sn_Destinations snap)
     in \<lparr>gr_CNP = cnp, gr_YAML = yamlMarshal cnp,
         gr_ExcludedDestinations = map exclusion
           (filter (\<lambda>e. entry_high e \<or> entry_wildcard e) (map se_Entry (Build snap))),
         gr_ConfidenceScore = score, gr_RiskLevel = computeOverallRisk (Build snap) score\<rparr>)"
proof -
  let ?g = "fst (generate_loop (Build snap) [] [])"
  let ?A = "{e \<in> set (sn_Destinations snap). entry_allowed e}"
  have loop: "generate_loop (Build snap) [] [] = (?g, map exclusion
      (filter (\<lambda>e. entry_high e \<or> entry_wildcard e) (map se_Entry (Build snap))))"
    by (subst (1 2) Build_entries) (simp only: generate_loop_eq, simp)
  have g: "?g = foldl (\<lambda>g e. AList.update (entryKey e) True g) [] (filter entry_allowed (map se_Entry (Build snap)))"
    by (subst Build_entries) (simp only: generate_loop_eq fst_conv)
  have "distinct (map fst ?g)" "set (map fst ?g) = entryKey ` ?A"
    unfolding g by (simp_all add: update_keys(2)) (simp only: set_map[symmetric] update_keys(1), simp add: set_Build_entries[simplified])
  then have rules: "fqdn_rules ordF ordP ?g = app_rules ?A"
    using fqdn_rules_eq[OF assms] by simp
  have name: "(if c then SetName (NewCNP a ns) b else NewCNP a ns) = NewCNP (if c then b else a) ns" for c a b ns
    by (simp add: SetName_def NewCNP_def)
  show ?thesis
    unfolding Generate_def Let_def name by (subst loop) (simp add: rules)
qed

lemma Generate_select:
  fixes profileName :: string
  assumes "map_order ordF" "map_order ordP"
  defines "cnp \<equiv> \<lambda>profileName namespace policy A. SetEgressRules (SetEndpointSelector
           (NewCNP (if pc_GeneratedPolicyName policy = [] then profileName @ ''-egress-allowlist''
                    else pc_GeneratedPolicyName policy) namespace)
           [(''app'', UStr profileName)])
         ((if pc_AllowDNS policy then [dnsPolicyRule] else []) @ app_rules {e \<in> A. entry_allowed e})"
  shows "gr_CNP (Generate yamlMarshal ordF ordP profileName namespace policy snap) =
      cnp profileName namespace policy (set (sn_Destinations snap))"
    "gr_YAML (Generate yamlMarshal ordF ordP profileName namespace policy snap) =
      yamlMarshal (cnp profileName namespace policy (set (sn_Destinations snap)))"
    "gr_ConfidenceScore (Generate yamlMarshal ordF ordP profileName namespace policy snap) =
      AggregateScore (sn_Destinations snap)"
    "gr_RiskLevel (Generate yamlMarshal ordF ordP profileName namespace policy snap) =
      computeOverallRisk (Build snap) (AggregateScore (sn_Destinations snap))"
  by (simp_all add: Generate_eq[OF assms(1,2)] Let_def cnp_def)

subsection \<open>Rules read back\<close>

lemma rule_triples_fqdn: "rule_triples (fqdnEgressRule fs port proto) = map (\<lambda>f. (f, dec (unat port), proto)) fs"
  by (induction fs) (simp_all add: rule_triples_def fqdnEgressRule_def)

lemma rule_triples_dns: "rule_triples dnsPolicyRule = []"
  by (simp add: rule_triples_def dnsPolicyRule_def)

lemma set_app_triples:
  assumes "finite A"
  shows "set (concat (map rule_triples (app_rules A))) = entry_triple ` A"
proof -
  have "finite {de_DestFQDN e |e. e \<in> A \<and> PortProto (de_DestPort e) (de_Protocol e) = pp}" for pp
    using assms by simp
  then show ?thesis
    using assms by (auto simp: app_rules_def rule_triples_fqdn image_iff)
qed

lemma distinct_app_triples: "finite A \<Longrightarrow> distinct (concat (map rule_triples (app_rules A)))"
proof -
  assume A: "finite A"
  define names where "names pp =
    sorted_list_of_set {de_DestFQDN e |e. e \<in> A \<and> PortProto (de_DestPort e) (de_Protocol e) = pp}" for pp
  have inj: "unat (pp_port a) = unat (pp_port b) \<Longrightarrow> pp_proto a = pp_proto b \<Longrightarrow> a = b" for a b
    by (cases a; cases b) (simp add: unsigned_word_eqI)
  have pps: "distinct pps \<Longrightarrow>
      distinct (concat (map (\<lambda>pp. map (\<lambda>f. (f, dec (unat (pp_port pp)), pp_proto pp)) (names pp)) pps))" for pps
  proof (induction pps)
    case (Cons pp pps)
    have "distinct (map (\<lambda>f. (f, dec (unat (pp_port pp)), pp_proto pp)) (names pp))"
      by (simp add: distinct_map names_def inj_on_def)
    with Cons show ?case
      by (auto dest: inj)
  qed simp
  have "concat (map rule_triples (app_rules A)) = concat (map (\<lambda>pp. map (\<lambda>f. (f, dec (unat (pp_port pp)), pp_proto pp))
      (names pp)) (sorted_list_of_set ((\<lambda>e. PortProto (de_DestPort e) (de_Protocol e)) ` A)))"
    by (simp add: app_rules_def rule_triples_fqdn comp_def names_def)
  with pps[of "sorted_list_of_set ((\<lambda>e. PortProto (de_DestPort e) (de_Protocol e)) ` A)"]
  show ?thesis by simp
qed

lemma policy_triples_Generate:
  assumes "map_order ordF" "map_order ordP"
  shows "policy_triples (gr_CNP (Generate yamlMarshal ordF ordP profileName namespace policy snap)) =
    concat (map rule_triples (app_rules {e \<in> set (sn_Destinations snap). entry_allowed e}))"
  by (simp add: Generate_eq[OF assms] Let_def policy_triples_def SetEgressRules_def rule_triples_dns)

lemma computeOverallRisk_high:
  "computeOverallRisk scored score =
     (if ''High'' \<in> se_RiskLevel ` set scored then if score < 50 then RiskHigh else RiskMedium
      else if score \<ge> 80 then RiskLow else if score \<ge> 50 then RiskMedium else RiskHigh)"
  by (induction scored) auto

lemma Build_levels: "se_RiskLevel ` set (Build snap) = (\<lambda>e. RiskLevel e (Score e)) ` set (sn_Destinations snap)"
proof -
  have "se_RiskLevel ` set (Build snap) = (\<lambda>e. RiskLevel e (Score e)) ` set (map se_Entry (Build snap))"
    by (subst Build_entries) (simp add: image_image)
  then show ?thesis by (simp only: set_Build_entries)
qed

lemma exclusion_iff:
  "((entry_high e \<or> entry_wildcard e) \<and> x = exclusion e) \<longleftrightarrow>
     (if RiskLevel e (Score e) = ''High'' \<or> IsDirectPublicIP (de_DestFQDN e) (de_DestIP e)
        then x = \<lparr>xd_Dest = destHost e @ '':'' @ dec (unat (de_DestPort e)), xd_Risk = RiskHigh,
          xd_Reason = (if IsDirectPublicIP (de_DestFQDN e) (de_DestIP e) then reasonDirectIP else ''risk=High'')\<rparr>
        else WildcardRisk (de_DestFQDN e) = ''Medium'' \<and>
          x = \<lparr>xd_Dest = de_DestFQDN e @ '':'' @ dec (unat (de_DestPort e)), xd_Risk = RiskMedium,
            xd_Reason = reasonWildcard\<rparr>)"
  by (simp add: exclusion_def entry_high_def entry_wildcard_def)

lemma Generate_exclusions:
  assumes "map_order ordF" "map_order ordP"
  shows "mset (gr_ExcludedDestinations (Generate yamlMarshal ordF ordP profileName namespace policy snap)) =
    image_mset exclusion (filter_mset (\<lambda>e. entry_high e \<or> entry_wildcard e) (mset (sn_Destinations snap)))"
  by (simp add: Generate_eq[OF assms] Let_def mset_filter[symmetric] del: mset_filter mset_map)
     (simp only: mset_map mset_filter Build_perm[unfolded mset_map])

lemma highPatterns_eq: "set highPatterns - {s. isWildcardLarge s} = set countryPatterns"
  by (auto simp: highPatterns_def isWildcardLarge_def countryPatterns_def)

lemma entry_allowed_wildcard:
  assumes "entry_allowed e" "HasPrefix (de_DestFQDN e) ''*.''"
  shows "de_DestFQDN e \<in> set countryPatterns"
proof -
  have "de_DestFQDN e \<in> set highPatterns"
    using assms by (auto simp: entry_allowed_def entry_wildcard_def WildcardRisk_def split: if_splits)
  moreover have "\<not> isWildcardLarge (de_DestFQDN e)"
    using assms(1) by (auto simp: entry_allowed_def entry_high_def RiskLevel_def)
  ultimately show ?thesis using highPatterns_eq by blast
qed

lemma countryPatterns_risk:
  "f \<in> set countryPatterns \<Longrightarrow> f \<noteq> [] \<and> \<not> isWildcardLarge f \<and> WildcardRisk f = ''High''"
  unfolding countryPatterns_def list.set insert_iff empty_iff
  by (elim disjE; simp add: isWildcardLarge_def WildcardRisk_def highPatterns_def HasPrefix_def)

lemma entry_allowed_named:
  assumes "de_DestFQDN e \<noteq> []" "\<not> isWildcardLarge (de_DestFQDN e)" "WildcardRisk (de_DestFQDN e) \<noteq> ''Medium''"
    "Score e \<ge> 50"
  shows "entry_allowed e"
  using assms by (simp add: entry_allowed_def entry_wildcard_def entry_high_def RiskLevel_def IsDirectPublicIP_def)

text \<open>Small snapshots for the witnesses.\<close>

definition demo_entry :: "string \<Rightarrow> string \<Rightarrow> u32 \<Rightarrow> u64 \<Rightarrow> DestEntry" where
  "demo_entry fqdn ip port flows =
     (new_entry zero_Flow)\<lparr>de_DestFQDN := fqdn, de_DestIP := ip, de_DestPort := port,
        de_Protocol := ''TCP'', de_FlowCount := flows, de_Snapshots := 1\<rparr>"

definition demo_snapshot :: "DestEntry list \<Rightarrow> Snapshot" where
  "demo_snapshot ds = \<lparr>sn_WorkloadKey = ''shop/Deployment/payment'', sn_Destinations = ds,
     sn_Truncated = False, sn_GeneratedAt = 0\<rparr>"

definition demo_policy :: PolicyConfig where
  "demo_policy = \<lparr>pc_AllowDNS = True, pc_AllowKubeSystem = True, pc_GeneratedPolicyName = []\<rparr>"

lemma demo_simps [simp]:
  "de_DestFQDN (demo_entry fqdn ip port flows) = fqdn" "de_DestIP (demo_entry fqdn ip port flows) = ip"
  "de_DestPort (demo_entry fqdn ip port flows) = port" "de_Protocol (demo_entry fqdn ip port flows) = ''TCP''"
  "sn_Destinations (demo_snapshot ds) = ds"
  by (simp_all add: demo_entry_def demo_snapshot_def)

subsection \<open>Properties\<close>

text \<open>C1: the allowlist is exact. Read back from the generated CiliumNetworkPolicy, the
  (name, port, protocol) combinations the application rules admit are, each exactly once,
  those of the snapshot's destinations that have a name, are not scored High and are not a
  Medium wildcard.\<close>

theorem generate_allowlist_exact:
  assumes "map_order ordF" "map_order ordP"
  shows "distinct (policy_triples (gr_CNP (Generate yamlMarshal ordF ordP profileName namespace policy snap)))
    \<and> set (policy_triples (gr_CNP (Generate yamlMarshal ordF ordP profileName namespace policy snap))) =
      {(de_DestFQDN e, dec (unat (de_DestPort e)), de_Protocol e) |e. e \<in> set (sn_Destinations snap)
         \<and> de_DestFQDN e \<noteq> [] \<and> RiskLevel e (Score e) \<noteq> ''High'' \<and> WildcardRisk (de_DestFQDN e) \<noteq> ''Medium''}"
proof -
  have "{e \<in> set (sn_Destinations snap). entry_allowed e} = {e \<in> set (sn_Destinations snap).
      de_DestFQDN e \<noteq> [] \<and> RiskLevel e (Score e) \<noteq> ''High'' \<and> WildcardRisk (de_DestFQDN e) \<noteq> ''Medium''}"
    by (auto simp: entry_allowed_def entry_wildcard_def entry_high_def IsDirectPublicIP_def)
  then have "set (concat (map rule_triples (app_rules {e \<in> set (sn_Destinations snap). entry_allowed e}))) =
      entry_triple ` {e \<in> set (sn_Destinations snap).
      de_DestFQDN e \<noteq> [] \<and> RiskLevel e (Score e) \<noteq> ''High'' \<and> WildcardRisk (de_DestFQDN e) \<noteq> ''Medium''}"
    by (subst set_app_triples) simp_all
  then show ?thesis
    unfolding policy_triples_Generate[OF assms] by (intro conjI distinct_app_triples) (simp, blast)
qed

theorem generate_allowlist_exact_witness:
  "set (policy_triples (gr_CNP (Generate (\<lambda>_. []) rev (\<lambda>ks. ks) ''payment'' ''shop'' demo_policy
     (demo_snapshot [demo_entry ''api.stripe.com'' ''1.2.3.4'' 443 12, demo_entry [] ''8.8.8.8'' 443 20]))))
   = {(''api.stripe.com'', dec 443, ''TCP'')}"
proof -
  let ?e = "demo_entry ''api.stripe.com'' ''1.2.3.4'' 443 12"
  have e: "RiskLevel ?e (Score ?e) \<noteq> ''High''" "WildcardRisk ''api.stripe.com'' \<noteq> ''Medium''"
    by code_simp+
  have two: "P a \<Longrightarrow> \<not> P b \<Longrightarrow> {f e |e. e \<in> set [a, b] \<and> P e} = {f a}" for P a b and f :: "'a \<Rightarrow> 'b"
    by auto
  show ?thesis
    by (subst conjunct2[OF generate_allowlist_exact[OF map_order_id(2) map_order_id(1)]], unfold demo_simps, subst two)
      (simp_all add: e)
qed

text \<open>C20: the outcome does not depend on any iteration order. Whatever orders Go's \<^verbatim>\<open>range\<close>
  takes on the two maps, and in whatever order the accumulator listed the destinations, the
  policy object, its YAML, the confidence score and the risk level are the same, and the
  exclusions are the same up to order.\<close>

theorem generate_order_independent:
  assumes "map_order ordF" "map_order ordP" "map_order ordF'" "map_order ordP'"
    and "mset (sn_Destinations snap) = mset (sn_Destinations snap')"
    and "G = Generate yamlMarshal ordF ordP profileName namespace policy snap"
    and "G' = Generate yamlMarshal ordF' ordP' profileName namespace policy snap'"
  shows "gr_CNP G = gr_CNP G' \<and> gr_YAML G = gr_YAML G' \<and> gr_ConfidenceScore G = gr_ConfidenceScore G'
    \<and> gr_RiskLevel G = gr_RiskLevel G'
    \<and> mset (gr_ExcludedDestinations G) = mset (gr_ExcludedDestinations G')"
proof -
  have set: "set (sn_Destinations snap) = set (sn_Destinations snap')"
    by (rule mset_eq_setD[OF assms(5)])
  have score: "AggregateScore (sn_Destinations snap) = AggregateScore (sn_Destinations snap')"
    using mset_eq_length[OF assms(5)] sum_mset_sum_list[of "map Score (sn_Destinations snap)"]
      sum_mset_sum_list[of "map Score (sn_Destinations snap')"] assms(5) by (simp add: AggregateScore_mean)
  have risk: "computeOverallRisk (Build snap) sc = computeOverallRisk (Build snap') sc" for sc
    unfolding computeOverallRisk_high Build_levels set ..
  show ?thesis
    unfolding assms(6,7)
    by (simp only: Generate_exclusions[OF assms(1,2)] Generate_exclusions[OF assms(3,4)] assms(5)
      Generate_select[OF assms(1,2)] Generate_select[OF assms(3,4)] set score risk)
qed

theorem generate_order_independent_witness:
  "gr_CNP (Generate (\<lambda>_. []) rev (\<lambda>ks. ks) ''payment'' ''shop'' demo_policy
      (demo_snapshot [demo_entry ''a.io'' ''1.2.3.4'' 443 12, demo_entry ''b.io'' ''8.8.8.8'' 443 20]))
   = gr_CNP (Generate (\<lambda>_. []) (\<lambda>ks. ks) rev ''payment'' ''shop'' demo_policy
      (demo_snapshot [demo_entry ''b.io'' ''8.8.8.8'' 443 20, demo_entry ''a.io'' ''1.2.3.4'' 443 12]))"
  using generate_order_independent[OF map_order_id(2) map_order_id(1) map_order_id(1) map_order_id(2) _ refl refl,
      of "demo_snapshot [demo_entry ''a.io'' ''1.2.3.4'' 443 12, demo_entry ''b.io'' ''8.8.8.8'' 443 20]"
         "demo_snapshot [demo_entry ''b.io'' ''8.8.8.8'' 443 20, demo_entry ''a.io'' ''1.2.3.4'' 443 12]"
         "\<lambda>_. []" "''payment''" "''shop''" demo_policy]
  by simp

text \<open>C21: the exclusion list is exact and accounts for the rest up to one class. Its entries are
  the records of the destinations scored High, of the addresses that pass the prefix test
  for a direct public address and of the Medium wildcards, one each; and every destination
  is allowed, excluded, or a nameless destination that is neither High nor directly public,
  which appears in neither list.\<close>

theorem generate_excluded_exact:
  assumes "map_order ordF" "map_order ordP"
    and "G = Generate yamlMarshal ordF ordP profileName namespace policy snap"
  shows "(\<forall>x. x \<in> set (gr_ExcludedDestinations G) \<longleftrightarrow> (\<exists>e. e \<in> set (sn_Destinations snap) \<and>
       (if RiskLevel e (Score e) = ''High'' \<or> IsDirectPublicIP (de_DestFQDN e) (de_DestIP e)
        then x = \<lparr>xd_Dest = destHost e @ '':'' @ dec (unat (de_DestPort e)), xd_Risk = RiskHigh,
          xd_Reason = (if IsDirectPublicIP (de_DestFQDN e) (de_DestIP e) then reasonDirectIP else ''risk=High'')\<rparr>
        else WildcardRisk (de_DestFQDN e) = ''Medium'' \<and>
          x = \<lparr>xd_Dest = de_DestFQDN e @ '':'' @ dec (unat (de_DestPort e)), xd_Risk = RiskMedium,
            xd_Reason = reasonWildcard\<rparr>)))
    \<and> length (sn_Destinations snap) = length (gr_ExcludedDestinations G)
       + length (filter (\<lambda>e. de_DestFQDN e \<noteq> [] \<and> RiskLevel e (Score e) \<noteq> ''High'' \<and>
            WildcardRisk (de_DestFQDN e) \<noteq> ''Medium'') (sn_Destinations snap))
       + length (filter (\<lambda>e. de_DestFQDN e = [] \<and> RiskLevel e (Score e) \<noteq> ''High'' \<and>
            \<not> IsDirectPublicIP [] (de_DestIP e)) (sn_Destinations snap))" (is "?members \<and> ?count")
proof
  note ex = Generate_exclusions[OF assms(1,2), of yamlMarshal profileName namespace policy snap, folded assms(3)]
  have "set (gr_ExcludedDestinations G) = exclusion ` {e \<in> set (sn_Destinations snap). entry_high e \<or> entry_wildcard e}"
    using arg_cong[OF ex, of set_mset] by simp
  then show ?members
    unfolding exclusion_iff[symmetric] by blast
  have part: "length ds = length (filter (\<lambda>e. entry_high e \<or> entry_wildcard e) ds)
       + length (filter (\<lambda>e. de_DestFQDN e \<noteq> [] \<and> RiskLevel e (Score e) \<noteq> ''High'' \<and>
            WildcardRisk (de_DestFQDN e) \<noteq> ''Medium'') ds)
       + length (filter (\<lambda>e. de_DestFQDN e = [] \<and> RiskLevel e (Score e) \<noteq> ''High'' \<and>
            \<not> IsDirectPublicIP [] (de_DestIP e)) ds)" for ds
    by (induction ds) (auto simp: entry_high_def entry_wildcard_def IsDirectPublicIP_def)
  have len: "length (gr_ExcludedDestinations G) =
      length (filter (\<lambda>e. entry_high e \<or> entry_wildcard e) (sn_Destinations snap))"
    using arg_cong[OF ex, of size] by (simp flip: mset_filter)
  show ?count unfolding len by (rule part)
qed

theorem generate_excluded_exact_witness:
  "gr_ExcludedDestinations (Generate (\<lambda>_. []) rev (\<lambda>ks. ks) ''payment'' ''shop'' demo_policy
     (demo_snapshot [demo_entry [] ''10.0.0.7'' 5432 12])) = []"
proof -
  let ?e = "demo_entry [] ''10.0.0.7'' 5432 12"
  have "RiskLevel ?e (Score ?e) \<noteq> ''High''" "\<not> IsDirectPublicIP [] ''10.0.0.7''"
    by code_simp+
  then show ?thesis
    using conjunct2[OF generate_excluded_exact[OF map_order_id(2) map_order_id(1) refl,
      of "\<lambda>_. []" "''payment''" "''shop''" demo_policy "demo_snapshot [?e]"]] by simp
qed





text \<open>C31: the shape of the policy. It selects the pods labelled \<^verbatim>\<open>app=<profile name>\<close>; the DNS rule
  comes first exactly when \<^verbatim>\<open>allowDNS\<close> is set; then one rule per port and protocol, in strictly
  increasing order, each with a non-empty, strictly increasing list of names. The flag
  \<^verbatim>\<open>allowKubeSystem\<close> has no effect.\<close>

theorem generate_policy_shape:
  assumes "map_order ordF" "map_order ordP"
    and "G = Generate yamlMarshal ordF ordP profileName namespace policy snap"
  shows "un_matchLabels (gr_CNP G) = Some [(''app'', UStr profileName)]
    \<and> om_Namespace (un_Meta (gr_CNP G)) = namespace
    \<and> om_Name (un_Meta (gr_CNP G)) = (if pc_GeneratedPolicyName policy = [] then profileName @ ''-egress-allowlist''
        else pc_GeneratedPolicyName policy)
    \<and> (\<exists>pps names. un_egress (gr_CNP G) = Some ((if pc_AllowDNS policy then [dnsPolicyRule] else []) @
          map (\<lambda>pp. fqdnEgressRule (names pp) (pp_port pp) (pp_proto pp)) pps)
        \<and> sorted_wrt (<) pps \<and> (\<forall>pp. pp \<in> set pps \<longrightarrow> names pp \<noteq> [] \<and> sorted_wrt (<) (names pp)))
    \<and> Generate yamlMarshal ordF ordP profileName namespace (policy\<lparr>pc_AllowKubeSystem := b\<rparr>) snap = G"
proof (intro conjI)
  let ?A = "{e \<in> set (sn_Destinations snap). entry_allowed e}"
  let ?pps = "sorted_list_of_set ((\<lambda>e. PortProto (de_DestPort e) (de_Protocol e)) ` ?A)"
  let ?names = "\<lambda>pp. sorted_list_of_set {de_DestFQDN e |e. e \<in> ?A \<and> PortProto (de_DestPort e) (de_Protocol e) = pp}"
  note sel = Generate_select[OF assms(1,2)]
  show "un_matchLabels (gr_CNP G) = Some [(''app'', UStr profileName)]" "om_Namespace (un_Meta (gr_CNP G)) = namespace"
    "om_Name (un_Meta (gr_CNP G)) = (if pc_GeneratedPolicyName policy = [] then profileName @ ''-egress-allowlist''
        else pc_GeneratedPolicyName policy)"
    by (simp_all add: assms(3) sel SetEgressRules_def SetEndpointSelector_def NewCNP_def)
  have fin: "finite {de_DestFQDN e |e. e \<in> ?A \<and> PortProto (de_DestPort e) (de_Protocol e) = pp}" for pp
    by simp
  have ne: "?names pp \<noteq> [] \<and> sorted_wrt (<) (?names pp)" if "pp \<in> set ?pps" for pp
    using that by (auto simp: sorted_list_of_set_eq_Nil_iff[OF fin])
  show "\<exists>pps names. un_egress (gr_CNP G) = Some ((if pc_AllowDNS policy then [dnsPolicyRule] else []) @
          map (\<lambda>pp. fqdnEgressRule (names pp) (pp_port pp) (pp_proto pp)) pps)
        \<and> sorted_wrt (<) pps \<and> (\<forall>pp. pp \<in> set pps \<longrightarrow> names pp \<noteq> [] \<and> sorted_wrt (<) (names pp))"
    by (rule exI[of _ ?pps], rule exI[of _ ?names], intro conjI allI impI ne)
      (simp_all add: assms(3) sel SetEgressRules_def app_rules_def)
  show "Generate yamlMarshal ordF ordP profileName namespace (policy\<lparr>pc_AllowKubeSystem := b\<rparr>) snap = G"
    by (simp add: assms(3) Generate_def)
qed

theorem generate_policy_shape_witness:
  "un_matchLabels (gr_CNP (Generate (\<lambda>_. []) (\<lambda>ks. ks) rev ''payment'' ''shop'' demo_policy
     (demo_snapshot [demo_entry ''api.io'' ''1.2.3.4'' 443 12]))) = Some [(''app'', UStr ''payment'')]"
  using generate_policy_shape[OF map_order_id(1) map_order_id(2) refl,
      of "\<lambda>_. []" "''payment''" "''shop''" demo_policy "demo_snapshot [demo_entry ''api.io'' ''1.2.3.4'' 443 12]" True]
  by simp

text \<open>C32: the overall risk. It is Low exactly when no destination is scored High and the mean
  score is at least 80, and High exactly when the mean is below 50; so a snapshot with a
  High destination is at least Medium, and an empty one is High.\<close>

theorem generate_overall_risk:
  assumes "map_order ordF" "map_order ordP"
    and "G = Generate yamlMarshal ordF ordP profileName namespace policy snap"
  shows "gr_RiskLevel G \<in> {RiskLow, RiskMedium, RiskHigh}
    \<and> (gr_RiskLevel G = RiskLow \<longleftrightarrow> gr_ConfidenceScore G \<ge> 80 \<and>
        \<not> (\<exists>e. e \<in> set (sn_Destinations snap) \<and> RiskLevel e (Score e) = ''High''))
    \<and> (gr_RiskLevel G = RiskHigh \<longleftrightarrow> gr_ConfidenceScore G < 50)
    \<and> (sn_Destinations snap = [] \<longrightarrow> gr_RiskLevel G = RiskHigh)
    \<and> 0 \<le> gr_ConfidenceScore G \<and> gr_ConfidenceScore G \<le> 100"
proof -
  have "0 \<le> Score e \<and> Score e \<le> 100" for e
    using Score_bounds[of e] by simp
  then have "0 \<le> AggregateScore ds \<and> AggregateScore ds \<le> 100" for ds
    by (cases "ds = []") (simp add: AggregateScore_def, rule AggregateScore_between)
  moreover have "AggregateScore [] = 0" by (simp add: AggregateScore_def)
  moreover have "(\<exists>e. e \<in> set (sn_Destinations snap) \<and> RiskLevel e (Score e) = ''High'') \<longleftrightarrow>
      ''High'' \<in> (\<lambda>e. RiskLevel e (Score e)) ` set (sn_Destinations snap)"
    by (auto simp: image_iff) (metis)
  ultimately show ?thesis
    unfolding assms(3) Generate_select(3,4)[OF assms(1,2)] computeOverallRisk_high Build_levels
    by (simp add: risk_defs)
qed

theorem generate_overall_risk_witness:
  "gr_RiskLevel (Generate (\<lambda>_. []) (\<lambda>ks. ks) rev ''payment'' ''shop'' demo_policy (demo_snapshot [])) = RiskHigh"
  using generate_overall_risk[OF map_order_id(1) map_order_id(2) refl,
      of "\<lambda>_. []" "''payment''" "''shop''" demo_policy "demo_snapshot []"]
  by simp

end
