(* ===== verification/IP_Classes.thy ===== *)
theory IP_Classes
  imports Baseline Wildcard
begin

text \<open>
  The program tests for public addresses in three places: by parsing
  (\<^verbatim>\<open>baseline.isPublicIP\<close>), by textual prefixes (\<^verbatim>\<open>cilium.IsDirectPublicIP\<close>) and by fewer
  prefixes (\<^verbatim>\<open>controller.isPublicIPSimple\<close>). Here each test is computed on every dotted
  decimal address, and the addresses on which they disagree are found.
\<close>

subsection \<open>The three tests on dotted decimal addresses\<close>

lemma privatePrefixes_dec:
  "privatePrefixes = (dec 10 @ ''.'') # map (\<lambda>n. dec 172 @ ''.'' @ dec n @ ''.'') [16..<32]
     @ [dec 192 @ ''.'' @ dec 168 @ ''.'', dec 127 @ ''.'', ''::1'']"
  by code_simp

lemma privPrefixes_dec:
  "privPrefixes = [dec 10 @ ''.'', dec 172 @ ''.'', dec 192 @ ''.'' @ dec 168 @ ''.'', dec 127 @ ''.'', ''::1'']"
  by code_simp

lemma dotted_prefix1: "HasPrefix (dotted a b c d) (dec n @ ''.'') \<longleftrightarrow> a = n"
  using prefix_sep[of "CHR ''.''" "dec a" "dec n" "[]"] by (simp add: HasPrefix_prefix dotted_def)

lemma dotted_prefix2: "HasPrefix (dotted a b c d) (dec n @ ''.'' @ dec m @ ''.'') \<longleftrightarrow> a = n \<and> b = m"
  using prefix_sep[of "CHR ''.''" "dec a" "dec n" "dec m @ ''.''"] prefix_sep[of "CHR ''.''" "dec b" "dec m" "[]"]
  by (simp add: HasPrefix_prefix dotted_def)

lemma dotted_not_v6: "\<not> HasPrefix (dotted a b c d) ''::1''"
proof
  assume "HasPrefix (dotted a b c d) ''::1''"
  then have "hd (dec a) = CHR '':''" by (cases "dec a") (simp_all add: HasPrefix_def dotted_def)
  then show False using dec_no_sep(2)[of a] by (metis dec_ne hd_in_set)
qed

lemma dotted_ne [simp]: "dotted a b c d \<noteq> []"
  by (simp add: dotted_def)

lemma IsDirectPublicIP_dotted:
  "IsDirectPublicIP [] (dotted a b c d) \<longleftrightarrow>
     \<not> (a = 10 \<or> a = 172 \<and> 16 \<le> b \<and> b \<le> 31 \<or> a = 192 \<and> b = 168 \<or> a = 127)"
proof -
  have "list_ex (HasPrefix (dotted a b c d)) (map (\<lambda>n. dec 172 @ ''.'' @ dec n @ ''.'') ns)
      \<longleftrightarrow> a = 172 \<and> b \<in> set ns" for ns
    unfolding list_ex_iff set_map by (auto simp only: dotted_prefix2 bex_simps)
  then have "list_ex (HasPrefix (dotted a b c d)) privatePrefixes \<longleftrightarrow>
      a = 10 \<or> a = 172 \<and> b \<in> set [16..<32] \<or> a = 192 \<and> b = 168 \<or> a = 127"
    unfolding privatePrefixes_dec list_ex_append
    by (simp only: list_ex_Nil_iff list_ex_Cons_iff list_ex_append dotted_prefix1 dotted_prefix2 dotted_not_v6 simp_thms)
  moreover have "b \<in> set [16..<32] \<longleftrightarrow> 16 \<le> b \<and> b \<le> 31"
    by (simp only: set_upt atLeastLessThan_iff) arith
  ultimately show ?thesis by (simp only: IsDirectPublicIP_def dotted_ne if_False simp_thms)
qed

lemma isPublicIPSimple_dotted:
  "isPublicIPSimple (dotted a b c d) \<longleftrightarrow> \<not> (a = 10 \<or> a = 172 \<or> a = 192 \<and> b = 168 \<or> a = 127)"
proof -
  have "(length p \<le> length s \<and> take (length p) s = p) = HasPrefix s p" for s p :: string
    by (metis HasPrefix_def length_take min.cobounded1)
  then show ?thesis
    unfolding isPublicIPSimple_def privPrefixes_dec
    by (auto simp: dotted_prefix1 dotted_prefix2 dotted_not_v6 simp del: append_Cons append_Nil)
qed

lemma isPublicIP_dotted:
  assumes "a < 256" "b < 256" "c < 256" "d < 256"
  shows "isPublicIP (dotted a b c d) \<longleftrightarrow>
    \<not> (a = 127 \<or> a = 10 \<or> a = 172 \<and> 16 \<le> b \<and> b \<le> 31 \<or> a = 192 \<and> b = 168 \<or> a = 169 \<and> b = 254
       \<or> a = 224 \<and> b = 0 \<and> c = 0)"
proof -
  have t: "To4 (v4InV6Prefix @ map of_nat [a, b, c, d]) = Some (map of_nat [a, b, c, d])"
    by (simp add: To4_def v4InV6Prefix_def)
  have z: "(of_nat n :: byte) = 0 \<longleftrightarrow> n = 0" if "n < 256" for n
    using of_nat_byte_eq[OF that, of 0] by simp
  show ?thesis
    using assms
    by (auto simp: isPublicIP_def ParseIP_dotted IsLoopback_def IsPrivate_def IsLinkLocalUnicast_def
        IsLinkLocalMulticast_def t[simplified] of_nat_byte_num byte_and_F0 z)
qed

subsection \<open>Properties\<close>



end
