(* ===== verification/Profile_Controller_Props.thy ===== *)
theory Profile_Controller_Props
  imports Profile_Controller Policy_Generator_Props IP_Classes
begin

text \<open>
  The profile reconciler. It is \<open>harmless\<close> for any client that obeys the write laws, even
  one that reads stale objects or fails at any call: it never touches a network policy, an
  existing proposal or ConfigMap, or the specification of a profile. With a server that
  answers, one pass brings the status to what the objects say.
\<close>

subsection \<open>Conditions and counters\<close>

lemma setCondition_types: "cd_Type ` set (setCondition cs c) = insert (cd_Type c) (cd_Type ` set cs)"
  by (induction cs) auto

lemma setCondition_distinct: "distinct (map cd_Type cs) \<Longrightarrow> distinct (map cd_Type (setCondition cs c))"
proof (induction cs)
  case (Cons a cs)
  then show ?case using setCondition_types[of cs c] by auto
qed simp

lemma setCondition_others: "filter (\<lambda>x. cd_Type x \<noteq> cd_Type c) (setCondition cs c) = filter (\<lambda>x. cd_Type x \<noteq> cd_Type c) cs"
  by (induction cs) auto

lemma setCondition_own:
  "distinct (map cd_Type cs) \<Longrightarrow> filter (\<lambda>x. cd_Type x = cd_Type c) (setCondition cs c) = [c]"
proof (induction cs)
  case (Cons a cs)
  then have "cd_Type a = cd_Type c \<Longrightarrow> filter (\<lambda>x. cd_Type x = cd_Type c) cs = []"
    by (auto simp: filter_empty_conv) (metis imageI)
  with Cons show ?case by auto
qed simp

lemma countRisk_loop_counts:
  "countRisk_loop ds (l, m, h) =
    (l + length (filter (\<lambda>d. \<not> (de_DestFQDN d = [] \<and> isPublicIPSimple (de_DestIP d)) \<and> de_FlowCount d \<ge> 5 \<and> de_Snapshots d \<ge> 2) ds),
     m + length (filter (\<lambda>d. \<not> (de_DestFQDN d = [] \<and> isPublicIPSimple (de_DestIP d)) \<and> \<not> (de_FlowCount d \<ge> 5 \<and> de_Snapshots d \<ge> 2)) ds),
     h + length (filter (\<lambda>d. de_DestFQDN d = [] \<and> isPublicIPSimple (de_DestIP d)) ds))"
  by (induction ds arbitrary: l m h) auto

lemma countRisk_total: "countRisk snap = (low, medium, high) \<Longrightarrow> low + medium + high = length (sn_Destinations snap)"
proof -
  have sum: "length (filter (\<lambda>d. \<not> P d \<and> Q d) ds) + length (filter (\<lambda>d. \<not> P d \<and> \<not> Q d) ds) + length (filter P ds) = length ds"
    for P Q and ds :: "DestEntry list"
    by (induction ds) auto
  show "countRisk snap = (low, medium, high) \<Longrightarrow> low + medium + high = length (sn_Destinations snap)"
    using sum[of "\<lambda>d. de_DestFQDN d = [] \<and> isPublicIPSimple (de_DestIP d)" "\<lambda>d. de_FlowCount d \<ge> 5 \<and> de_Snapshots d \<ge> 2" "sn_Destinations snap"]
    unfolding countRisk_def countRisk_loop_counts by auto
qed

subsection \<open>Harmless changes\<close>

definition harmless :: "api_view \<Rightarrow> api_view \<Rightarrow> bool" where
  "harmless v v' \<longleftrightarrow> av_CNPs v' = av_CNPs v
     \<and> (\<forall>k xp. av_Proposals v k = Some xp \<longrightarrow> av_Proposals v' k = Some xp)
     \<and> (\<forall>k xp. av_Proposals v k = None \<longrightarrow> av_Proposals v' k = Some xp \<longrightarrow> \<not> ap_Approved (xs_Approval (xp_Spec xp)))
     \<and> (\<forall>k cm. av_ConfigMaps v k = Some cm \<longrightarrow> av_ConfigMaps v' k = Some cm)
     \<and> (\<forall>k. map_option pr_Spec (av_Profiles v' k) = map_option pr_Spec (av_Profiles v k))"

lemma harmless_refl [simp, intro]: "harmless v v"
  by (simp add: harmless_def)

lemma harmless_trans [trans]:
  assumes "harmless v v'" "harmless v' v''"
  shows "harmless v v''"
proof -
  note h = assms(1)[unfolded harmless_def] and h' = assms(2)[unfolded harmless_def]
  have "\<not> ap_Approved (xs_Approval (xp_Spec xp))" if "av_Proposals v k = None" "av_Proposals v'' k = Some xp" for k xp
  proof (cases "av_Proposals v' k")
    case None
    then show ?thesis using h' that(2) by blast
  next
    case (Some y)
    then have "av_Proposals v'' k = Some y" using h' by blast
    then have "xp = y" using that(2) by simp
    then show ?thesis using h Some that(1) by blast
  qed
  moreover have "av_CNPs v'' = av_CNPs v" using h h' by simp
  ultimately show ?thesis unfolding harmless_def using h h' by (metis (no_types))
qed

lemma new_proposal_simps [simp]:
  "xp_Meta (new_proposal p) = \<lparr>om_Name = om_Name (pr_Meta p) @ ''-proposal'', om_Namespace = om_Namespace (pr_Meta p),
     om_UID = [], om_ResourceVersion = [], om_Labels = managedLabels (om_Name (pr_Meta p)),
     om_OwnerReferences = [ownerRef ''EgressProfile'' (pr_Meta p)]\<rparr>"
  "ap_Approved (xs_Approval (xp_Spec (new_proposal p))) = False" "xp_Status (new_proposal p) = zero_ProposalStatus"
  by (simp_all add: new_proposal_def Let_def)

context merge_client
begin

lemma CreateConfigMap_harmless: "harmless (view s) (view (snd (kc_CreateConfigMap kc s cm)))"
proof (cases "fst (kc_CreateConfigMap kc s cm)")
  case None
  then have "av_ConfigMaps (view s) (meta_key (cm_Meta cm)) = None" using create_cm(1) by blast
  then show ?thesis
    unfolding harmless_def writes_keep using writes_frame(1)[of _ cm s] by (metis option.distinct(1))
qed (simp add: create_cm(2))

lemma EnsureConfigMap_harmless: "harmless (view s) (view (snd (EnsureConfigMap kc s profile)))"
  using get_view(1)[of s "(om_Namespace (pr_Meta profile), ConfigMapName (om_Name (pr_Meta profile)))"] CreateConfigMap_harmless
  by (auto simp: EnsureConfigMap_def Let_def split: prod.split sum.split) (metis)+

lemma CreateProposal_harmless: "harmless (view s) (view (snd (kc_CreateProposal kc s (new_proposal p))))"
proof (cases "fst (kc_CreateProposal kc s (new_proposal p))")
  case (Inr xp')
  note c = create_proposal(1)[OF Inr]
  have "av_Proposals (view (snd (kc_CreateProposal kc s (new_proposal p)))) k = av_Proposals (view s) k"
    if "k \<noteq> meta_key (xp_Meta (new_proposal p))" for k
    using that by (rule writes_frame(4))
  then show ?thesis
    unfolding harmless_def writes_keep using c by (metis new_proposal_simps(2) option.distinct(1) option.inject)
qed (simp add: create_proposal(2))

lemma ensureProposal_harmless: "harmless (view s) (view (snd (ensureProposal kc s profile)))"
proof -
  let ?k = "(om_Namespace (pr_Meta profile), om_Name (pr_Meta profile) @ ''-proposal'')"
  obtain r s1 where g: "kc_GetProposal kc s ?k = (r, s1)" by (cases "kc_GetProposal kc s ?k")
  obtain r' s2 where c: "kc_CreateProposal kc s1 (new_proposal profile) = (r', s2)"
    by (cases "kc_CreateProposal kc s1 (new_proposal profile)")
  have "view s1 = view s" using get_view(3)[of s ?k] g by simp
  moreover have "harmless (view s1) (view s2)" using CreateProposal_harmless[of s1 profile] c by simp
  ultimately show ?thesis
    by (auto simp: ensureProposal_def Let_def g c get_view(6) split: sum.split)
qed

lemma PatchProfileStatus_harmless: "harmless (view s) (view (snd (kc_PatchProfileStatus kc s pr base)))"
proof (cases "fst (kc_PatchProfileStatus kc s pr base)")
  case None
  have "map_option pr_Spec (av_Profiles (view (snd (kc_PatchProfileStatus kc s pr base))) k) = map_option pr_Spec (av_Profiles (view s) k)" for k
    using patch_profile(1)[OF None] writes_frame(3)[of k pr s base] by (cases "k = meta_key (pr_Meta pr)") auto
  then show ?thesis unfolding harmless_def writes_keep by auto
qed (simp add: patch_profile(2))

end

context merge_client
begin

lemma Profile_Reconcile_harmless:
  "harmless (view s) (view (snd (snd (Profile_Reconcile now kc req acc s))))"
proof -
  obtain r s1 where g: "kc_GetProfile kc s req = (r, s1)" by (cases "kc_GetProfile kc s req")
  have v1: "view s1 = view s" using get_view(2)[of s req] g by simp
  show ?thesis
  proof (cases r)
    case (Inr profile)
    let ?ns = "om_Namespace (pr_Meta profile)" and ?cm = "ConfigMapName (om_Name (pr_Meta profile))"
    obtain e s2 where ens: "EnsureConfigMap kc s1 profile = (e, s2)" by (cases "EnsureConfigMap kc s1 profile")
    obtain sn s3 where gs: "GetSnapshot kc s2 ?ns ?cm = (sn, s3)" by (cases "GetSnapshot kc s2 ?ns ?cm")
    obtain pr s4 where ep: "ensureProposal kc s3 profile = (pr, s4)" by (cases "ensureProposal kc s3 profile")
    have h: "harmless (view s) (view s2)" "view s3 = view s2" "harmless (view s3) (view s4)"
      using EnsureConfigMap_harmless[of s1 profile] store_reads_keep(1)[of s2 ?ns ?cm]
        ensureProposal_harmless[of s3 profile] ens gs ep v1 by simp_all
    then have h': "harmless (view s) (view s3)" "harmless (view s) (view s4)"
      by (auto intro: harmless_trans)
    have p: "harmless (view s) (view t')" if "kc_PatchProfileStatus kc t a b = (q, t')" "harmless (view s) (view t)" for t t' a b q
      using harmless_trans[OF that(2) PatchProfileStatus_harmless[of t a b]] that(1) by simp
    show ?thesis
      using h(1) h' p by (auto simp: Profile_Reconcile_def g Inr ens gs ep Let_def split: option.split sum.split prod.split)
  qed (simp add: Profile_Reconcile_def g v1)
qed

end

subsection \<open>One pass with a server that answers\<close>

text \<open>The snapshot the reconcilers work on: none stored, or an unreadable one, counts as empty.\<close>

definition baseline_of :: "api_view \<Rightarrow> objkey \<Rightarrow> Snapshot" where
  "baseline_of v k =
     (case cm_entry v k keyBaseline of None \<Rightarrow> zero_Snapshot
      | Some t \<Rightarrow> (case UnmarshalSnapshot t of Inl err \<Rightarrow> zero_Snapshot | Inr snap \<Rightarrow> snap))"

definition proposal_spec_of :: "api_view \<Rightarrow> EgressProfile \<Rightarrow> EgressPolicyProposalSpec" where
  "proposal_spec_of v profile =
     (case av_Proposals v (om_Namespace (pr_Meta profile), om_Name (pr_Meta profile) @ ''-proposal'') of
        None \<Rightarrow> xp_Spec (new_proposal profile) | Some xp \<Rightarrow> xp_Spec xp)"

definition proposal_phase :: "api_view \<Rightarrow> objkey \<Rightarrow> ProposalPhase" where
  "proposal_phase v k = (case av_Proposals v k of None \<Rightarrow> [] | Some xp \<Rightarrow> xt_Phase (xp_Status xp))"

context reliable_client
begin

lemma EnsureConfigMap_up:
  assumes "up s"
  obtains s' where "EnsureConfigMap kc s profile = (None, s')" "up s'"
    "av_ConfigMaps (view s') (om_Namespace (pr_Meta profile), ConfigMapName (om_Name (pr_Meta profile))) \<noteq> None"
    "cm_entry (view s') (om_Namespace (pr_Meta profile), ConfigMapName (om_Name (pr_Meta profile))) =
     cm_entry (view s) (om_Namespace (pr_Meta profile), ConfigMapName (om_Name (pr_Meta profile)))"
    "av_Profiles (view s') = av_Profiles (view s)" "av_Proposals (view s') = av_Proposals (view s)"
proof -
  let ?k = "(om_Namespace (pr_Meta profile), ConfigMapName (om_Name (pr_Meta profile)))"
  obtain r s1 where g: "kc_GetConfigMap kc s ?k = (r, s1)" by (cases "kc_GetConfigMap kc s ?k")
  have v1: "view s1 = view s" "up s1"
    using get_view(1)[of s ?k] up_stays(1)[of s ?k] g assms by simp_all
  show thesis
  proof (cases "av_ConfigMaps (view s) ?k")
    case (Some cm)
    then have "r = Inr cm" using up_get_cm(1)[OF assms Some] g by simp
    then show thesis
      using v1 Some by (intro that[of s1]) (simp_all add: EnsureConfigMap_def g)
  next
    case None
    then have r: "r = Inl NotFound" using up_get_cm(2)[OF assms None] g by simp
    define cm where "cm = \<lparr>cm_Meta = \<lparr>om_Name = ConfigMapName (om_Name (pr_Meta profile)), om_Namespace = om_Namespace (pr_Meta profile),
        om_UID = [], om_ResourceVersion = [], om_Labels = managedLabels (om_Name (pr_Meta profile)),
        om_OwnerReferences = [ownerRef ''EgressProfile'' (pr_Meta profile)]\<rparr>, cm_Data = Some []\<rparr>"
    have key: "meta_key (cm_Meta cm) = ?k" "data_get (cm_Data cm) = (\<lambda>e. None)"
      by (auto simp: cm_def data_get_def)
    obtain s2 where c: "kc_CreateConfigMap kc s1 cm = (None, s2)"
      using up_create(1)[of s1 cm] v1 None key by (cases "kc_CreateConfigMap kc s1 cm") auto
    obtain cm' where "av_ConfigMaps (view s2) ?k = Some cm'" "data_get (cm_Data cm') = (\<lambda>e. None)"
      using create_cm(1)[of s1 cm] c key by auto
    moreover have "EnsureConfigMap kc s profile = (None, s2)"
      using c by (simp add: EnsureConfigMap_def g r Let_def cm_def)
    ultimately show thesis
      using up_stays(5)[of s1 cm] writes_keep(1,2)[of s1 cm] c v1 None by (intro that[of s2]) (auto simp: cm_entry_def)
  qed
qed

lemma GetSnapshot_value:
  assumes "up s" "av_ConfigMaps (view s) (ns, n) \<noteq> None"
  shows "(case fst (GetSnapshot kc s ns n) of Inl err \<Rightarrow> zero_Snapshot | Inr snap \<Rightarrow> snap) =
    baseline_of (view s) (ns, n)"
proof -
  obtain cm where cm: "av_ConfigMaps (view s) (ns, n) = Some cm" using assms(2) by auto
  show ?thesis
    using up_get_cm(1)[OF assms(1) cm] cm
    by (auto simp: GetSnapshot_def baseline_of_def cm_entry_def split: prod.split option.split)
qed

lemma ensureProposal_up:
  assumes "up s"
  obtains xp s' where "ensureProposal kc s profile = (Inr xp, s')" "up s'"
    "av_Proposals (view s') (om_Namespace (pr_Meta profile), om_Name (pr_Meta profile) @ ''-proposal'') = Some xp"
    "xt_Phase (xp_Status xp) = proposal_phase (view s) (om_Namespace (pr_Meta profile), om_Name (pr_Meta profile) @ ''-proposal'')"
    "om_Name (xp_Meta xp) = om_Name (pr_Meta profile) @ ''-proposal''" "xp_Spec xp = proposal_spec_of (view s) profile"
    "av_Profiles (view s') = av_Profiles (view s)" "av_ConfigMaps (view s') = av_ConfigMaps (view s)"
proof -
  let ?k = "(om_Namespace (pr_Meta profile), om_Name (pr_Meta profile) @ ''-proposal'')"
  obtain r s1 where g: "kc_GetProposal kc s ?k = (r, s1)" by (cases "kc_GetProposal kc s ?k")
  have v1: "view s1 = view s" "up s1"
    using get_view(3)[of s ?k] up_stays(3)[of s ?k] g assms by simp_all
  show thesis
  proof (cases "av_Proposals (view s) ?k")
    case (Some xp)
    then have r: "r = Inr xp" using up_get_proposal(1)[OF assms Some] g by simp
    then have "meta_key (xp_Meta xp) = ?k" using get_keyed(3)[of s ?k xp] g by simp
    then show thesis
      using v1 Some by (intro that[of xp s1]) (simp_all add: ensureProposal_def g r proposal_phase_def proposal_spec_of_def)
  next
    case None
    then have r: "r = Inl NotFound" using up_get_proposal(2)[OF assms None] g by simp
    obtain xp' s2 where c: "kc_CreateProposal kc s1 (new_proposal profile) = (Inr xp', s2)"
      using up_create(2)[of s1 "new_proposal profile"] v1 None by (cases "kc_CreateProposal kc s1 (new_proposal profile)") auto
    define ev where "ev = \<lparr>ev_Object = meta_key (pr_Meta profile), ev_Type = ''Normal'', ev_Reason = ''ProposalCreated'',
        ev_Message = ''Created EgressPolicyProposal '' @ om_Name (pr_Meta profile) @ ''-proposal''\<rparr>"
    have "ensureProposal kc s profile = (Inr xp', kc_Eventf kc s2 ev)"
      by (simp add: ensureProposal_def g r c Let_def ev_def)
    moreover have "view (kc_Eventf kc s2 ev) = view s2" "up (kc_Eventf kc s2 ev)"
      using get_view(6) up_stays(12)[of s2 ev] up_stays(8)[of s1 "new_proposal profile"] c v1 by simp_all
    moreover have "xt_Phase (xp_Status xp') = []" "xp_Spec xp' = xp_Spec (new_proposal profile)" "meta_key (xp_Meta xp') = ?k" "av_Proposals (view s2) ?k = Some xp'"
      using create_proposal(1)[of s1 "new_proposal profile" xp'] c by (simp_all add: zero_ProposalStatus_def)
    ultimately show thesis
      using writes_keep(10,11)[of s1 "new_proposal profile"] c v1 None
      by (intro that[of xp' "kc_Eventf kc s2 ev"]) (simp_all add: proposal_phase_def proposal_spec_of_def)
  qed
qed

end

text \<open>The phase and the proposal reference that a profile gets.\<close>

definition phase_of :: "api_view \<Rightarrow> EgressProfile \<Rightarrow> EgressPhase" where
  "phase_of v profile =
     (if ps_Mode (pr_Spec profile) \<in> {ModeSuggest, ModeEnforce}
      then profile_phase (ps_Mode (pr_Spec profile))
        (proposal_phase v (om_Namespace (pr_Meta profile), om_Name (pr_Meta profile) @ ''-proposal''))
      else PhaseObserving)"

definition proposal_ref_of :: "EgressProfile \<Rightarrow> string" where
  "proposal_ref_of profile =
     (if ps_Mode (pr_Spec profile) \<in> {ModeSuggest, ModeEnforce} then om_Name (pr_Meta profile) @ ''-proposal''
      else pt_ProposalRef (pr_Status profile))"

context reliable_client
begin

lemma Profile_Reconcile_up:
  assumes "up s" "av_Profiles (view s) req = Some profile"
  defines "cm \<equiv> ConfigMapName (om_Name (pr_Meta profile))" and "ns \<equiv> om_Namespace (pr_Meta profile)"
  shows "\<exists>s' pr'. Profile_Reconcile now kc req acc s =
      ((requeue_after 30, None), map_option (RegisterWorkload (workload_key profile) ns cm) acc, s') \<and> up s'
    \<and> av_ConfigMaps (view s') (ns, cm) \<noteq> None \<and> cm_entry (view s') (ns, cm) = cm_entry (view s) (ns, cm)
    \<and> (ps_Mode (pr_Spec profile) \<in> {ModeSuggest, ModeEnforce} \<longrightarrow>
        (\<exists>xp. av_Proposals (view s') (ns, om_Name (pr_Meta profile) @ ''-proposal'') = Some xp \<and> xp_Spec xp = proposal_spec_of (view s) profile))
    \<and> av_Profiles (view s') req = Some pr' \<and> pr_Spec pr' = pr_Spec profile
    \<and> pr_Status pr' = profile_status now (baseline_of (view s) (ns, cm)) (phase_of (view s) profile) cm
        (proposal_ref_of profile) (pr_Status profile)"
proof -
  let ?pk = "(ns, om_Name (pr_Meta profile) @ ''-proposal'')" and ?mode = "ps_Mode (pr_Spec profile)"
  obtain s1 where g: "kc_GetProfile kc s req = (Inr profile, s1)" and v1: "view s1 = view s" "up s1"
    using up_get_profile[OF assms(1,2)] get_view(2)[of s req] up_stays(2)[of s req] assms(1)
    by (cases "kc_GetProfile kc s req") auto
  have key: "meta_key (pr_Meta profile) = req" using get_keyed(2)[of s req profile] g by simp
  obtain s2 where ens: "EnsureConfigMap kc s1 profile = (None, s2)" and e: "up s2" "av_ConfigMaps (view s2) (ns, cm) \<noteq> None"
      "cm_entry (view s2) (ns, cm) = cm_entry (view s) (ns, cm)"
      "av_Profiles (view s2) = av_Profiles (view s)" "av_Proposals (view s2) = av_Proposals (view s)"
    using EnsureConfigMap_up[OF v1(2), of profile] unfolding ns_def cm_def v1(1) by metis
  obtain sn s3 where gs: "GetSnapshot kc s2 ns cm = (sn, s3)" by (cases "GetSnapshot kc s2 ns cm")
  have v3: "view s3 = view s2" "up s3"
    using store_reads_keep(1)[of s2 ns cm] GetSnapshot_up_stays[of s2 ns cm] e(1) gs by simp_all
  have snap: "(case sn of Inl err \<Rightarrow> zero_Snapshot | Inr snap \<Rightarrow> snap) = baseline_of (view s) (ns, cm)"
    using GetSnapshot_value[OF e(1,2)] gs e(3) by (simp add: baseline_of_def)
  define mid where "mid = (if ?mode = ModeSuggest \<or> ?mode = ModeEnforce then
        case ensureProposal kc s3 profile of (Inl err, s) \<Rightarrow> (Inl err, s)
        | (Inr proposal, s) \<Rightarrow> (Inr (profile_phase ?mode (xt_Phase (xp_Status proposal)), om_Name (xp_Meta proposal)), s)
      else (Inr (PhaseObserving, pt_ProposalRef (pr_Status profile)), s3))"
  obtain s4 where m: "mid = (Inr (phase_of (view s) profile, proposal_ref_of profile), s4)" and v4: "up s4"
      "av_Profiles (view s4) = av_Profiles (view s)" "av_ConfigMaps (view s4) = av_ConfigMaps (view s2)"
      "?mode \<in> {ModeSuggest, ModeEnforce} \<longrightarrow> (\<exists>xp. av_Proposals (view s4) ?pk = Some xp \<and> xp_Spec xp = proposal_spec_of (view s) profile)"
  proof (cases "?mode = ModeSuggest \<or> ?mode = ModeEnforce")
    case True
    obtain xp s4 where "ensureProposal kc s3 profile = (Inr xp, s4)" "up s4" "av_Proposals (view s4) ?pk = Some xp"
        "xt_Phase (xp_Status xp) = proposal_phase (view s3) ?pk" "om_Name (xp_Meta xp) = om_Name (pr_Meta profile) @ ''-proposal''" "xp_Spec xp = proposal_spec_of (view s3) profile"
        "av_Profiles (view s4) = av_Profiles (view s3)" "av_ConfigMaps (view s4) = av_ConfigMaps (view s3)"
      using ensureProposal_up[OF v3(2), of profile] unfolding ns_def by metis
    with True show thesis
      using v3 e by (intro that[of s4]) (auto simp: mid_def phase_of_def proposal_ref_of_def proposal_phase_def proposal_spec_of_def ns_def)
  next
    case False
    then show thesis
      using v3 e by (intro that[of s3]) (auto simp: mid_def phase_of_def proposal_ref_of_def)
  qed
  let ?st = "profile_status now (baseline_of (view s) (ns, cm)) (phase_of (view s) profile) cm
      (proposal_ref_of profile) (pr_Status profile)"
  let ?p = "profile\<lparr>pr_Status := ?st\<rparr>"
  have cur: "av_Profiles (view s4) (meta_key (pr_Meta ?p)) = Some profile" using v4(2) assms(2) key by simp
  obtain s5 where p: "kc_PatchProfileStatus kc s4 ?p profile = (None, s5)"
    using up_patch(2)[OF v4(1), of ?p profile] cur by (cases "kc_PatchProfileStatus kc s4 ?p profile") auto
  have "Profile_Reconcile now kc req acc s =
      ((requeue_after 30, None), map_option (RegisterWorkload (workload_key profile) ns cm) acc, s5)"
    using m p by (simp add: Profile_Reconcile_def g ens gs Let_def snap mid_def flip: ns_def cm_def)
  moreover have "up s5" "av_ConfigMaps (view s5) = av_ConfigMaps (view s4)" "av_Proposals (view s5) = av_Proposals (view s4)"
    using up_stays(7)[of s4 ?p profile] writes_keep(7,8)[of s4 ?p profile] p v4(1) by simp_all
  moreover have "\<exists>pr'. av_Profiles (view s5) req = Some pr' \<and> pr_Spec pr' = pr_Spec profile \<and> pr_Status pr' = ?st"
    using patch_profile(1)[of s4 ?p profile] p cur key by auto
  moreover have "cm_entry (view s5) (ns, cm) = cm_entry (view s) (ns, cm)"
    using e(3) v4(3) calculation(3) by (simp add: cm_entry_def fun_eq_iff)
  ultimately show ?thesis using v4 e(2) by auto
qed

end

subsection \<open>Properties\<close>

definition demo_profile :: "EgressMode \<Rightarrow> EgressProfile" where
  "demo_profile mode = \<lparr>pr_Meta = demo_meta ''payment'',
     pr_Spec = \<lparr>ps_TargetRef = \<lparr>tr_APIVersion = ''apps/v1'', tr_Kind = ''Deployment'', tr_Name = ''payment''\<rparr>,
       ps_Mode = mode, ps_BaselineWindow = ''24h'', ps_Policy = demo_policy,
       ps_GitOps = \<lparr>gc_Enabled = False, gc_OutputPath = []\<rparr>\<rparr>,
     pr_Status = \<lparr>pt_Phase = [], pt_Conditions = [], pt_ObservedDestinationsCount = 0, pt_Truncated = False,
       pt_LastObservationTime = None, pt_BaselineConfigMapRef = [], pt_ProposalRef = [],
       pt_RiskSummary = \<lparr>rs_Low = 0, rs_Medium = 0, rs_High = 0\<rparr>, pt_Message = []\<rparr>\<rparr>"

definition profile_cluster :: "EgressMode \<Rightarrow> cluster" where
  "profile_cluster mode = empty_cluster\<lparr>cl_Profiles := [demo_profile mode]\<rparr>"

lemma profile_cluster_simps [simp]:
  "mem_up (profile_cluster mode)" "av_Profiles (mem_view (profile_cluster mode)) (''shop'', ''payment'') = Some (demo_profile mode)"
  "av_Proposals (mem_view (profile_cluster mode)) k = None" "av_ConfigMaps (mem_view (profile_cluster mode)) k = None"
  "ps_Mode (pr_Spec (demo_profile mode)) = mode"
  "pr_Meta (demo_profile mode) = demo_meta ''payment''" "pt_Conditions (pr_Status (demo_profile mode)) = []"
  by (simp_all add: profile_cluster_def empty_cluster_def mem_up_def mem_view_def obj_find_def demo_profile_def demo_meta_def)

text \<open>C6: what the profile reconciler cannot do. With any client that obeys the write laws, also
  one that reads stale objects or fails at any call, a pass leaves every network policy,
  every existing proposal (so every approval), every existing ConfigMap and the
  specification of every profile as it is, and a proposal it creates is not approved.\<close>

theorem profile_reconcile_harmless:
  assumes "merge_client kc view" "v' = view (snd (snd (Profile_Reconcile now kc req acc s)))"
  shows "av_CNPs v' = av_CNPs (view s)
    \<and> (\<forall>k xp. av_Proposals (view s) k = Some xp \<longrightarrow> av_Proposals v' k = Some xp)
    \<and> (\<forall>k xp. av_Proposals (view s) k = None \<longrightarrow> av_Proposals v' k = Some xp \<longrightarrow> \<not> ap_Approved (xs_Approval (xp_Spec xp)))
    \<and> (\<forall>k cm. av_ConfigMaps (view s) k = Some cm \<longrightarrow> av_ConfigMaps v' k = Some cm)
    \<and> (\<forall>k. map_option pr_Spec (av_Profiles v' k) = map_option pr_Spec (av_Profiles (view s) k))"
  using merge_client.Profile_Reconcile_harmless[OF assms(1)] unfolding assms(2) harmless_def by blast

theorem profile_reconcile_harmless_witness:
  "av_CNPs (mem_view (snd (snd (Profile_Reconcile 5 mem_client (''shop'', ''payment'') None
     ((profile_cluster ModeEnforce)\<lparr>cl_Faults := [(CPatchProfileStatus, (''shop'', ''payment''))]\<rparr>)))))
   = av_CNPs (mem_view ((profile_cluster ModeEnforce)\<lparr>cl_Faults := [(CPatchProfileStatus, (''shop'', ''payment''))]\<rparr>))"
  using profile_reconcile_harmless[OF mem.merge_client_axioms refl] by blast





end
