(* ===== verification/Proposal_Controller_Props.thy ===== *)
theory Proposal_Controller_Props
  imports Proposal_Controller Profile_Controller_Props
begin

text \<open>
  The proposal reconciler. The gate: a network policy changes only when the copies it read
  say Enforce and approved, and then to the policy generated from the baseline it read,
  whatever calls fail. With a server that answers, one pass does all that the objects ask
  for. Three more contracts join the client's and the operating system's: \<open>merge_env\<close>,
  \<open>fresh_env\<close> and \<open>reliable_env\<close>.
\<close>

subsection \<open>Contracts of the environment\<close>

locale merge_env = merge_client kc view + operator_env kc view os
  for kc :: "'s kube_client" and view and os :: "'s os_calls"

locale fresh_env = fresh_client kc view + merge_env kc view os
  for kc :: "'s kube_client" and view and os :: "'s os_calls"

locale reliable_env = reliable_client kc view up + fresh_env kc view os
  for kc :: "'s kube_client" and view and up and os :: "'s os_calls" +
  assumes os_up: "up (snd (os_MkdirAll os s d)) = up s" "up (snd (os_WriteFile os s f text)) = up s"
begin

lemma ExportPolicy_up: "up (snd (ExportPolicy os s outputPath name text)) = up s"
  using os_up(1)[of s outputPath] os_up(2)
  by (auto simp: ExportPolicy_def Let_def split: prod.split option.split)

lemma export_step_up: "up (export_step os proposal profile yaml s) = up s"
  by (simp add: export_step_def Let_def ExportPolicy_up)

end

interpretation memop: reliable_env mem_client mem_view mem_up mem_os
  by unfold_locales (auto simp: mem_os_def mem_up_def)

subsection \<open>Applying the policy\<close>

lemma owner_simps [simp]:
  "meta_key (un_Meta (SetOwnerReferences u refs)) = meta_key (un_Meta u)"
  "un_egress (SetOwnerReferences u refs) = un_egress u" "un_matchLabels (SetOwnerReferences u refs) = un_matchLabels u"
  "om_OwnerReferences (un_Meta (SetOwnerReferences u refs)) = refs"
  "meta_key (un_Meta (SetResourceVersion u v)) = meta_key (un_Meta u)"
  "un_egress (SetResourceVersion u v) = un_egress u" "un_matchLabels (SetResourceVersion u v) = un_matchLabels u"
  "om_OwnerReferences (un_Meta (SetResourceVersion u v)) = om_OwnerReferences (un_Meta u)"
  "om_ResourceVersion (un_Meta (SetResourceVersion u v)) = v"
  by (simp_all add: SetOwnerReferences_def SetResourceVersion_def)

text \<open>A policy stored under a key that says what a generated policy says.\<close>

definition holds_policy :: "api_view \<Rightarrow> EgressPolicyProposal \<Rightarrow> Unstructured \<Rightarrow> bool" where
  "holds_policy v proposal cnp \<longleftrightarrow> (\<exists>cnp'. av_CNPs v (meta_key (un_Meta cnp)) = Some cnp'
     \<and> un_egress cnp' = un_egress cnp \<and> un_matchLabels cnp' = un_matchLabels cnp
     \<and> om_OwnerReferences (un_Meta cnp') = [ownerRef ''EgressPolicyProposal'' (xp_Meta proposal)])"

context merge_client
begin

lemma applyCNP_err:
  assumes "fst (applyCNP kc s proposal profile cnp) = Some err"
  shows "view (snd (applyCNP kc s proposal profile cnp)) = view s"
proof -
  let ?cnp = "SetOwnerReferences cnp [ownerRef ''EgressPolicyProposal'' (xp_Meta proposal)]"
  obtain r s1 where g: "kc_GetCNP kc s (meta_key (un_Meta cnp)) = (r, s1)" by (cases "kc_GetCNP kc s (meta_key (un_Meta cnp))")
  have v1: "view s1 = view s" using get_view(4)[of s "meta_key (un_Meta cnp)"] g by simp
  have c: "view s2 = view s" if "kc_CreateCNP kc s1 u = (Some e, s2)" for u e s2
    using create_cnp(2)[of s1 u e] that v1 by simp
  have u: "view s2 = view s" if "kc_UpdateCNP kc s1 u = (Some e, s2)" for u e s2
    using update_cnp(2)[of s1 u e] that v1 by simp
  show ?thesis
    using assms v1 by (auto simp: applyCNP_def Let_def g c u split: sum.splits option.splits prod.splits if_splits)
qed

lemma applyCNP_ok:
  assumes "fst (applyCNP kc s proposal profile cnp) = None"
  shows "holds_policy (view (snd (applyCNP kc s proposal profile cnp))) proposal cnp"
    and "k \<noteq> meta_key (un_Meta cnp) \<Longrightarrow> av_CNPs (view (snd (applyCNP kc s proposal profile cnp))) k = av_CNPs (view s) k"
proof -
  let ?cnp = "SetOwnerReferences cnp [ownerRef ''EgressPolicyProposal'' (xp_Meta proposal)]"
  obtain r s1 where g: "kc_GetCNP kc s (meta_key (un_Meta cnp)) = (r, s1)" by (cases "kc_GetCNP kc s (meta_key (un_Meta cnp))")
  have v1: "view s1 = view s" using get_view(4)[of s "meta_key (un_Meta cnp)"] g by simp
  have res: "\<exists>u s2 ev. snd (applyCNP kc s proposal profile cnp) = kc_Eventf kc s2 ev
      \<and> (kc_CreateCNP kc s1 u = (None, s2) \<or> kc_UpdateCNP kc s1 u = (None, s2))
      \<and> meta_key (un_Meta u) = meta_key (un_Meta cnp) \<and> un_egress u = un_egress cnp \<and> un_matchLabels u = un_matchLabels cnp
      \<and> om_OwnerReferences (un_Meta u) = [ownerRef ''EgressPolicyProposal'' (xp_Meta proposal)]"
  proof (cases r)
    case (Inl err)
    then obtain s2 where "kc_CreateCNP kc s1 ?cnp = (None, s2)"
      using assms g by (auto simp: applyCNP_def Let_def split: option.splits prod.splits if_splits)
    moreover have "IsNotFound err"
      using assms g Inl by (auto simp: applyCNP_def Let_def split: if_splits)
    ultimately show ?thesis
      using g Inl by (intro exI[of _ ?cnp]) (auto simp: applyCNP_def Let_def)
  next
    case (Inr existing)
    let ?u = "SetResourceVersion ?cnp (om_ResourceVersion (un_Meta existing))"
    obtain s2 where "kc_UpdateCNP kc s1 ?u = (None, s2)"
      using assms g Inr by (auto simp: applyCNP_def Let_def split: option.splits prod.splits)
    then show ?thesis
      using g Inr by (intro exI[of _ ?u]) (auto simp: applyCNP_def Let_def)
  qed
  then obtain u s2 ev where e: "snd (applyCNP kc s proposal profile cnp) = kc_Eventf kc s2 ev"
    "kc_CreateCNP kc s1 u = (None, s2) \<or> kc_UpdateCNP kc s1 u = (None, s2)"
    and u: "meta_key (un_Meta u) = meta_key (un_Meta cnp)" "un_egress u = un_egress cnp" "un_matchLabels u = un_matchLabels cnp"
      "om_OwnerReferences (un_Meta u) = [ownerRef ''EgressPolicyProposal'' (xp_Meta proposal)]"
    by blast
  show "holds_policy (view (snd (applyCNP kc s proposal profile cnp))) proposal cnp"
    using e(2) create_cnp(1)[of s1 u] update_cnp(1)[of s1 u] unfolding holds_policy_def e(1) get_view(6) u by auto
  show "av_CNPs (view (snd (applyCNP kc s proposal profile cnp))) k = av_CNPs (view s) k" if "k \<noteq> meta_key (un_Meta cnp)"
    using e(2) writes_frame(6)[of k u s1] writes_frame(7)[of k u s1] that v1 unfolding e(1) get_view(6) u by auto
qed

lemma applyCNP_keeps:
  "av_ConfigMaps (view (snd (applyCNP kc s proposal profile cnp))) = av_ConfigMaps (view s)"
  "av_Profiles (view (snd (applyCNP kc s proposal profile cnp))) = av_Profiles (view s)"
  "av_Proposals (view (snd (applyCNP kc s proposal profile cnp))) = av_Proposals (view s)"
proof -
  obtain r s1 where g: "kc_GetCNP kc s (meta_key (un_Meta cnp)) = (r, s1)" by (cases "kc_GetCNP kc s (meta_key (un_Meta cnp))")
  have v1: "view s1 = view s" using get_view(4)[of s "meta_key (un_Meta cnp)"] g by simp
  have c: "av_ConfigMaps (view s2) = av_ConfigMaps (view s) \<and> av_Profiles (view s2) = av_Profiles (view s) \<and> av_Proposals (view s2) = av_Proposals (view s)"
    if "kc_CreateCNP kc s1 u = (e, s2) \<or> kc_UpdateCNP kc s1 u = (e, s2)" for u e s2
    using writes_keep(16-18)[of s1 u] writes_keep(19-21)[of s1 u] that v1 by auto
  show "av_ConfigMaps (view (snd (applyCNP kc s proposal profile cnp))) = av_ConfigMaps (view s)"
    "av_Profiles (view (snd (applyCNP kc s proposal profile cnp))) = av_Profiles (view s)"
    "av_Proposals (view (snd (applyCNP kc s proposal profile cnp))) = av_Proposals (view s)"
    using c v1 by (auto simp: applyCNP_def Let_def g get_view(6) split: sum.split option.split prod.split)
qed

end

context merge_client
begin

lemma apply_step_cases:
  obtains "fst (apply_step kc proposal profile cnp s) = ProposalPhasePendingApproval"
      "snd (apply_step kc proposal profile cnp s) = s"
      "\<not> (ps_Mode (pr_Spec profile) = ModeEnforce \<and> ap_Approved (xs_Approval (xp_Spec proposal)))"
  | "fst (apply_step kc proposal profile cnp s) = ProposalPhaseFailed"
      "ps_Mode (pr_Spec profile) = ModeEnforce" "ap_Approved (xs_Approval (xp_Spec proposal))"
      "view (snd (apply_step kc proposal profile cnp s)) = view s"
      "fst (applyCNP kc s proposal profile cnp) \<noteq> None"
  | "fst (apply_step kc proposal profile cnp s) = ProposalPhaseApplied"
      "ps_Mode (pr_Spec profile) = ModeEnforce" "ap_Approved (xs_Approval (xp_Spec proposal))"
      "holds_policy (view (snd (apply_step kc proposal profile cnp s))) proposal cnp"
      "\<And>k. k \<noteq> meta_key (un_Meta cnp) \<Longrightarrow> av_CNPs (view (snd (apply_step kc proposal profile cnp s))) k = av_CNPs (view s) k"
      "fst (applyCNP kc s proposal profile cnp) = None"
proof (cases "ps_Mode (pr_Spec profile) = ModeEnforce \<and> ap_Approved (xs_Approval (xp_Spec proposal))")
  case False
  then show thesis by (intro that(1)) (auto simp: apply_step_def)
next
  case True
  obtain e s' where a: "applyCNP kc s proposal profile cnp = (e, s')" by (cases "applyCNP kc s proposal profile cnp")
  show thesis
  proof (cases e)
    case None
    with True a show thesis
      using applyCNP_ok[of s proposal profile cnp] by (intro that(3)) (auto simp: apply_step_def)
  next
    case (Some err)
    with True a show thesis
      using applyCNP_err[of s proposal profile cnp err] by (intro that(2)) (auto simp: apply_step_def)
  qed
qed

lemma apply_step_keeps:
  "av_ConfigMaps (view (snd (apply_step kc proposal profile cnp s))) = av_ConfigMaps (view s)"
  "av_Profiles (view (snd (apply_step kc proposal profile cnp s))) = av_Profiles (view s)"
  "av_Proposals (view (snd (apply_step kc proposal profile cnp s))) = av_Proposals (view s)"
  using applyCNP_keeps[of s proposal profile cnp]
  by (auto simp: apply_step_def split: prod.split option.split)

end

subsection \<open>The pass, call by call\<close>

text \<open>The calls of a pass that reads all it needs: the proposal, the profile and the snapshot it
  read, and the states in between.\<close>

context merge_env
begin

lemma export_step_view: "view (export_step os proposal profile yaml s) = view s"
  by (simp add: export_step_def Let_def ExportPolicy_view)

lemma SavePolicyYAML_keeps:
  "av_Profiles (view (snd (SavePolicyYAML kc s ns n yaml))) = av_Profiles (view s)"
  "av_Proposals (view (snd (SavePolicyYAML kc s ns n yaml))) = av_Proposals (view s)"
  "av_CNPs (view (snd (SavePolicyYAML kc s ns n yaml))) = av_CNPs (view s)"
  by (simp_all add: SavePolicyYAML_def patchData_keeps)

lemma Proposal_Reconcile_run:
  assumes s': "s' = snd (Proposal_Reconcile yamlMarshal ordF ordP now kc os req s)"
  obtains (stopped) "av_CNPs (view s') = av_CNPs (view s)"
  | (full) proposal profile snap s1 s2 s5 where
      "fst (kc_GetProposal kc s req) = Inr proposal" "view s1 = view s" "view s2 = view s"
      "fst (kc_GetProfile kc s1 (om_Namespace (xp_Meta proposal), xs_ProfileRef_Name (xp_Spec proposal))) = Inr profile"
      "fst (GetSnapshot kc s2 (om_Namespace (xp_Meta proposal)) (ConfigMapName (om_Name (pr_Meta profile)))) = Inr snap"
      "av_CNPs (view s5) = av_CNPs (view s)"
      "av_CNPs (view s') = av_CNPs (view (snd (apply_step kc proposal profile
         (gr_CNP (Generate yamlMarshal ordF ordP (om_Name (pr_Meta profile)) (om_Namespace (xp_Meta proposal))
            (ps_Policy (pr_Spec profile)) snap)) s5)))"
proof -
  obtain r0 s1 where g0: "kc_GetProposal kc s req = (r0, s1)" by (cases "kc_GetProposal kc s req")
  have v1: "view s1 = view s" using get_view(3)[of s req] g0 by simp
  show thesis
  proof (cases r0)
    case (Inl err)
    then show thesis using v1 by (intro stopped) (simp add: s' Proposal_Reconcile_def g0)
  next
    case p: (Inr proposal)
    let ?ns = "om_Namespace (xp_Meta proposal)"
    let ?pk = "(?ns, xs_ProfileRef_Name (xp_Spec proposal))"
    obtain r1 s2 where g1: "kc_GetProfile kc s1 ?pk = (r1, s2)" by (cases "kc_GetProfile kc s1 ?pk")
    have v2: "view s2 = view s" using get_view(2)[of s1 ?pk] g1 v1 by simp
    show thesis
    proof (cases r1)
      case (Inl err)
      then show thesis using v2 by (intro stopped) (simp add: s' Proposal_Reconcile_def g0 p g1)
    next
      case q: (Inr profile)
      let ?cm = "ConfigMapName (om_Name (pr_Meta profile))"
      obtain r2 s3 where g2: "GetSnapshot kc s2 ?ns ?cm = (r2, s3)" by (cases "GetSnapshot kc s2 ?ns ?cm")
      have v3: "view s3 = view s" using store_reads_keep(1)[of s2 ?ns ?cm] g2 v2 by simp
      show thesis
      proof (cases r2)
        case (Inl err)
        then show thesis using v3 by (intro stopped) (simp add: s' Proposal_Reconcile_def g0 p g1 q g2)
      next
        case n: (Inr snap)
        define res where "res = Generate yamlMarshal ordF ordP (om_Name (pr_Meta profile)) ?ns (ps_Policy (pr_Spec profile)) snap"
        obtain e s4 where g3: "SavePolicyYAML kc s3 ?ns ?cm (gr_YAML res) = (e, s4)"
          by (cases "SavePolicyYAML kc s3 ?ns ?cm (gr_YAML res)")
        have v4: "av_CNPs (view s4) = av_CNPs (view s)"
          using SavePolicyYAML_keeps(3)[of s3 ?ns ?cm "gr_YAML res"] g3 v3 by simp
        define s5 where "s5 = export_step os proposal profile (gr_YAML res) s4"
        obtain phase s6 where g5: "apply_step kc proposal profile (gr_CNP res) s5 = (phase, s6)"
          by (cases "apply_step kc proposal profile (gr_CNP res) s5")
        show thesis
        proof (cases e)
          case (Some err)
          then show thesis
            using v4 by (intro stopped) (simp add: s' Proposal_Reconcile_def g0 p g1 q g2 n g3 Let_def flip: res_def)
        next
          case None
          define xp where "xp = proposal\<lparr>xp_Status := proposal_status now res phase ?cm (xp_Status proposal)\<rparr>"
          have "s' = snd (kc_PatchProposalStatus kc s6 xp proposal)"
            by (simp add: s' Proposal_Reconcile_def g0 p g1 q g2 n g3 g5 None Let_def xp_def flip: res_def s5_def
                split: option.split prod.split)
          then show thesis
            using g0 p g1 q g2 n v1 v2 v4 g5 writes_keep(15)[of s6 xp proposal]
            by (intro full[of proposal s1 s2 profile snap s5]) (simp_all add: s5_def export_step_view flip: res_def)
        qed
      qed
    qed
  qed
qed

end

subsection \<open>One pass with a server that answers\<close>

context reliable_client
begin

lemma applyCNP_up:
  assumes "up s"
  shows "fst (applyCNP kc s proposal profile cnp) = None" "up (snd (applyCNP kc s proposal profile cnp))"
proof -
  let ?k = "meta_key (un_Meta cnp)" and ?cnp = "SetOwnerReferences cnp [ownerRef ''EgressPolicyProposal'' (xp_Meta proposal)]"
  obtain r s1 where g: "kc_GetCNP kc s ?k = (r, s1)" by (cases "kc_GetCNP kc s ?k")
  have v1: "view s1 = view s" "up s1" using get_view(4)[of s ?k] up_stays(4)[of s ?k] g assms by simp_all
  have "fst (applyCNP kc s proposal profile cnp) = None \<and> up (snd (applyCNP kc s proposal profile cnp))"
  proof (cases "av_CNPs (view s) ?k")
    case None
    then have r: "r = Inl NotFound" using up_get_cnp(2)[OF assms None] g by simp
    obtain s2 where "kc_CreateCNP kc s1 ?cnp = (None, s2)" "up s2"
      using up_create(3)[of s1 ?cnp] up_stays(10)[of s1 ?cnp] v1 None by (cases "kc_CreateCNP kc s1 ?cnp") auto
    then show ?thesis using g r up_stays(12) by (simp add: applyCNP_def Let_def)
  next
    case (Some old)
    then have r: "r = Inr old" using up_get_cnp(1)[OF assms Some] g by simp
    let ?u = "SetResourceVersion ?cnp (om_ResourceVersion (un_Meta old))"
    obtain s2 where "kc_UpdateCNP kc s1 ?u = (None, s2)" "up s2"
      using up_update[of s1 ?u old] up_stays(11)[of s1 ?u] v1 Some by (cases "kc_UpdateCNP kc s1 ?u") auto
    then show ?thesis using g r up_stays(12) by (simp add: applyCNP_def Let_def)
  qed
  then show "fst (applyCNP kc s proposal profile cnp) = None" "up (snd (applyCNP kc s proposal profile cnp))"
    by blast+
qed

lemma apply_step_up:
  assumes "up s"
  shows "fst (apply_step kc proposal profile cnp s) =
      (if ps_Mode (pr_Spec profile) = ModeEnforce \<and> ap_Approved (xs_Approval (xp_Spec proposal))
       then ProposalPhaseApplied else ProposalPhasePendingApproval)"
    and "up (snd (apply_step kc proposal profile cnp s))"
    and "if ps_Mode (pr_Spec profile) = ModeEnforce \<and> ap_Approved (xs_Approval (xp_Spec proposal))
      then holds_policy (view (snd (apply_step kc proposal profile cnp s))) proposal cnp
      else view (snd (apply_step kc proposal profile cnp s)) = view s"
  using applyCNP_up[OF assms, of proposal profile cnp] applyCNP_ok(1)[of s proposal profile cnp] assms
  by (auto simp: apply_step_def split: prod.split option.split)

lemma GetSnapshot_read:
  assumes "up s" "av_ConfigMaps (view s) (ns, n) \<noteq> None"
  shows "fst (GetSnapshot kc s ns n) =
    (case cm_entry (view s) (ns, n) keyBaseline of None \<Rightarrow> Inr zero_Snapshot | Some t \<Rightarrow> UnmarshalSnapshot t)"
proof -
  obtain cm where cm: "av_ConfigMaps (view s) (ns, n) = Some cm" using assms(2) by auto
  then show ?thesis
    using up_get_cm(1)[OF assms(1) cm] by (auto simp: GetSnapshot_def cm_entry_def split: prod.split option.split)
qed

end

context reliable_env
begin

lemma Proposal_Reconcile_up:
  assumes "up s" "av_Proposals (view s) req = Some proposal" "ns = om_Namespace (xp_Meta proposal)"
    and "av_Profiles (view s) (ns, xs_ProfileRef_Name (xp_Spec proposal)) = Some profile"
    and "cm = ConfigMapName (om_Name (pr_Meta profile))" "av_ConfigMaps (view s) (ns, cm) \<noteq> None"
    and "(case cm_entry (view s) (ns, cm) keyBaseline of None \<Rightarrow> Inr zero_Snapshot | Some t \<Rightarrow> UnmarshalSnapshot t) = Inr snap"
    and "res = Generate yamlMarshal ordF ordP (om_Name (pr_Meta profile)) ns (ps_Policy (pr_Spec profile)) snap"
    and "go \<longleftrightarrow> ps_Mode (pr_Spec profile) = ModeEnforce \<and> ap_Approved (xs_Approval (xp_Spec proposal))"
  shows "\<exists>s' xp'. Proposal_Reconcile yamlMarshal ordF ordP now kc os req s = ((requeue_after 30, None), s')
    \<and> up s' \<and> av_Profiles (view s') = av_Profiles (view s)
    \<and> av_Proposals (view s') req = Some xp' \<and> xp_Spec xp' = xp_Spec proposal
    \<and> xp_Status xp' = proposal_status now res (if go then ProposalPhaseApplied else ProposalPhasePendingApproval) cm (xp_Status proposal)
    \<and> cm_entry (view s') (ns, cm) keyPolicy = Some (gr_YAML res)
    \<and> cm_entry (view s') (ns, cm) keyBaseline = cm_entry (view s) (ns, cm) keyBaseline
    \<and> (if go then holds_policy (view s') proposal (gr_CNP res) else av_CNPs (view s') = av_CNPs (view s))"
proof -
  let ?pk = "(ns, xs_ProfileRef_Name (xp_Spec proposal))"
  obtain s1 where g0: "kc_GetProposal kc s req = (Inr proposal, s1)" and v1: "view s1 = view s" "up s1"
    using up_get_proposal(1)[OF assms(1,2)] get_view(3)[of s req] up_stays(3)[of s req] assms(1)
    by (cases "kc_GetProposal kc s req") auto
  have key: "meta_key (xp_Meta proposal) = req" using get_keyed(3)[of s req proposal] g0 by simp
  obtain s2 where g1: "kc_GetProfile kc s1 ?pk = (Inr profile, s2)" and v2: "view s2 = view s" "up s2"
    using up_get_profile[of s1 ?pk profile] get_view(2)[of s1 ?pk] up_stays(2)[of s1 ?pk] v1 assms(4)
    by (cases "kc_GetProfile kc s1 ?pk") auto
  obtain s3 where g2: "GetSnapshot kc s2 ns cm = (Inr snap, s3)" and v3: "view s3 = view s" "up s3"
    using GetSnapshot_read[of s2 ns cm] store_reads_keep(1)[of s2 ns cm]
      GetSnapshot_up_stays[of s2 ns cm] v2 assms(6,7)
    by (cases "GetSnapshot kc s2 ns cm") auto
  let ?p = "patchData kc s3 ns cm keyPolicy (gr_YAML res)"
  have ok: "fst ?p = None" using patchData_up[of s3 ns cm] v3 assms(6) by simp
  obtain s4 where g3: "SavePolicyYAML kc s3 ns cm (gr_YAML res) = (None, s4)" and s4: "s4 = snd ?p"
    using ok by (cases ?p) (auto simp: SavePolicyYAML_def)
  have v4: "up s4" "av_Proposals (view s4) = av_Proposals (view s)" "av_CNPs (view s4) = av_CNPs (view s)"
      "av_Profiles (view s4) = av_Profiles (view s)"
      "cm_entry (view s4) (ns, cm) keyPolicy = Some (gr_YAML res)"
    using patchData_up_stays[of s3 ns cm keyPolicy "gr_YAML res"] patchData_keeps[of s3 ns cm keyPolicy "gr_YAML res"]
      patchData_own[OF ok] v3 by (simp_all add: s4)
  have b4: "cm_entry (view s4) (ns, cm) keyBaseline = cm_entry (view s) (ns, cm) keyBaseline"
    using patchData_success[OF ok] keys_differ(1) v3(1) unfolding s4 by metis
  define s5 where "s5 = export_step os proposal profile (gr_YAML res) s4"
  have v5: "view s5 = view s4" "up s5" using v4(1) by (simp_all add: s5_def export_step_view export_step_up)
  obtain phase s6 where g5: "apply_step kc proposal profile (gr_CNP res) s5 = (phase, s6)"
    by (cases "apply_step kc proposal profile (gr_CNP res) s5")
  note a = apply_step_up[OF v5(2), where proposal = proposal and profile = profile and cnp = "gr_CNP res", unfolded g5 fst_conv snd_conv, folded assms(9)]
  define xp where "xp = proposal\<lparr>xp_Status := proposal_status now res phase cm (xp_Status proposal)\<rparr>"
  have v6: "av_Proposals (view s6) = av_Proposals (view s)" "av_ConfigMaps (view s6) = av_ConfigMaps (view s4)"
      "av_Profiles (view s6) = av_Profiles (view s)"
    using apply_step_keeps[of proposal profile "gr_CNP res" s5] g5 v5(1) v4(2,4) by simp_all
  have cur: "av_Proposals (view s6) (meta_key (xp_Meta xp)) = Some proposal"
    using v6(1) assms(2) key by (simp add: xp_def)
  obtain s7 where g6: "kc_PatchProposalStatus kc s6 xp proposal = (None, s7)"
    using up_patch(3)[OF a(2), of xp proposal] cur by (cases "kc_PatchProposalStatus kc s6 xp proposal") auto
  have v7: "av_ConfigMaps (view s7) = av_ConfigMaps (view s4)" "av_CNPs (view s7) = av_CNPs (view s6)"
      "av_Profiles (view s7) = av_Profiles (view s)" "up s7"
    using writes_keep(13-15)[of s6 xp proposal] up_stays(9)[of s6 xp proposal] g6 v6(2,3) a(2) by simp_all
  have "Proposal_Reconcile yamlMarshal ordF ordP now kc os req s = ((requeue_after 30, None), s7)"
    using g6 by (simp add: Proposal_Reconcile_def g0 g1 g2 g3 g5 Let_def xp_def flip: assms(3,5,8) s5_def)
  moreover have "\<exists>xp'. av_Proposals (view s7) req = Some xp' \<and> xp_Spec xp' = xp_Spec proposal
      \<and> xp_Status xp' = proposal_status now res phase cm (xp_Status proposal)"
    using patch_proposal(1)[of s6 xp proposal] g6 cur key by (auto simp: xp_def)
  moreover have "if go then holds_policy (view s7) proposal (gr_CNP res) else av_CNPs (view s7) = av_CNPs (view s)"
    using a(3) v7(2) v5(1) v4(3) by (simp add: holds_policy_def split: if_splits)
  ultimately show ?thesis using v7(1,3,4) v4(5) b4 a(1) by (auto simp: cm_entry_def)
qed

end

subsection \<open>Properties\<close>

definition demo_proposal :: "bool \<Rightarrow> EgressPolicyProposal" where
  "demo_proposal approved = \<lparr>xp_Meta = demo_meta ''payment-proposal'',
     xp_Spec = \<lparr>xs_ProfileRef_Name = ''payment'', xs_GeneratedPolicy = \<lparr>gp_Type = ''CiliumNetworkPolicy'', gp_Name = ''p''\<rparr>,
       xs_Approval = \<lparr>ap_Approved = approved, ap_ApprovedBy = [], ap_ApprovedAt = None\<rparr>\<rparr>,
     xp_Status = zero_ProposalStatus\<rparr>"

definition proposal_cluster :: "bool \<Rightarrow> cluster" where
  "proposal_cluster approved = demo_cluster\<lparr>cl_Profiles := [demo_profile ModeEnforce], cl_Proposals := [demo_proposal approved]\<rparr>"

lemma proposal_cluster_simps [simp]:
  "mem_up (proposal_cluster a)"
  "av_Proposals (mem_view (proposal_cluster a)) (''shop'', ''payment-proposal'') = Some (demo_proposal a)"
  "av_Profiles (mem_view (proposal_cluster a)) (''shop'', ''payment'') = Some (demo_profile ModeEnforce)"
  "av_ConfigMaps (mem_view (proposal_cluster a)) (''shop'', ConfigMapName ''payment'') = Some demo_cm"
  "av_CNPs (mem_view (proposal_cluster a)) k = None"
  "xp_Meta (demo_proposal a) = demo_meta ''payment-proposal''" "xs_ProfileRef_Name (xp_Spec (demo_proposal a)) = ''payment''"
  "ap_Approved (xs_Approval (xp_Spec (demo_proposal a))) = a"
  "om_Namespace (demo_meta n) = ''shop''" "om_Name (demo_meta n) = n"
  "cm_entry (mem_view (proposal_cluster a)) (''shop'', ConfigMapName ''payment'') keyBaseline = None"
  by (simp_all add: proposal_cluster_def demo_cluster_def empty_cluster_def mem_up_def mem_view_def obj_find_def
    demo_proposal_def demo_profile_def demo_meta_def demo_cm_def cm_entry_def data_get_def)

lemma proposal_cluster_run:
  "\<exists>s'. Proposal_Reconcile (\<lambda>_. []) rev rev 5 mem_client mem_os
      (''shop'', ''payment-proposal'') (proposal_cluster True) = ((requeue_after 30, None), s')
    \<and> av_CNPs (mem_view s') (''shop'', ''payment-egress-allowlist'') \<noteq> None"
proof -
  let ?res = "Generate (\<lambda>_. []) rev rev ''payment'' ''shop'' demo_policy zero_Snapshot"
  have key: "meta_key (un_Meta (gr_CNP ?res)) = (''shop'', ''payment-egress-allowlist'')"
    by (simp add: Generate_def Let_def SetEgressRules_def SetEndpointSelector_def SetName_def NewCNP_def demo_policy_def split: prod.split)
  have "ps_Policy (pr_Spec (demo_profile ModeEnforce)) = demo_policy" by (simp add: demo_profile_def)
  then obtain s' where "Proposal_Reconcile (\<lambda>_. []) rev rev 5 mem_client mem_os
      (''shop'', ''payment-proposal'') (proposal_cluster True) = ((requeue_after 30, None), s')"
    and "holds_policy (mem_view s') (demo_proposal True) (gr_CNP ?res)"
    using memop.Proposal_Reconcile_up[OF proposal_cluster_simps(1,2), where ns = "''shop''" and go = True
      and cm = "ConfigMapName ''payment''" and profile = "demo_profile ModeEnforce" and snap = zero_Snapshot and res = ?res and now = 5
      and yamlMarshal = "\<lambda>_. []" and ordF = rev and ordP = rev] by auto
  then show ?thesis using key by (auto simp: holds_policy_def)
qed

text \<open>C2: the approval gate. With any client that obeys the write laws, also one that reads stale
  objects or fails at any call, a pass of the proposal reconciler that changes a network
  policy has read a profile in mode Enforce and an approved proposal; the policy changed is
  the one generated from the baseline it read, and the cluster then holds its rules and its
  selector, owned by the proposal.\<close>

theorem proposal_gate:
  assumes "merge_env kc view os"
    and "s' = snd (Proposal_Reconcile yamlMarshal ordF ordP now kc os req s)"
    and "av_CNPs (view s') k \<noteq> av_CNPs (view s) k"
  shows "\<exists>proposal profile snap s1 s2 cnp. fst (kc_GetProposal kc s req) = Inr proposal
    \<and> fst (kc_GetProfile kc s1 (om_Namespace (xp_Meta proposal), xs_ProfileRef_Name (xp_Spec proposal))) = Inr profile
    \<and> fst (GetSnapshot kc s2 (om_Namespace (xp_Meta proposal)) (ConfigMapName (om_Name (pr_Meta profile)))) = Inr snap
    \<and> view s1 = view s \<and> view s2 = view s
    \<and> ps_Mode (pr_Spec profile) = ModeEnforce \<and> ap_Approved (xs_Approval (xp_Spec proposal))
    \<and> cnp = gr_CNP (Generate yamlMarshal ordF ordP (om_Name (pr_Meta profile)) (om_Namespace (xp_Meta proposal))
        (ps_Policy (pr_Spec profile)) snap)
    \<and> k = meta_key (un_Meta cnp) \<and> holds_policy (view s') proposal cnp"
proof (cases rule: merge_env.Proposal_Reconcile_run[OF assms(1,2)])
  case 1
  then show ?thesis using assms(3) by simp
next
  case (2 proposal profile snap s1 s2 s5)
  let ?cnp = "gr_CNP (Generate yamlMarshal ordF ordP (om_Name (pr_Meta profile)) (om_Namespace (xp_Meta proposal))
      (ps_Policy (pr_Spec profile)) snap)"
  have mc: "merge_client kc view" using assms(1) by (simp add: merge_env_def)
  have "ps_Mode (pr_Spec profile) = ModeEnforce \<and> ap_Approved (xs_Approval (xp_Spec proposal)) \<and> k = meta_key (un_Meta ?cnp)
      \<and> holds_policy (view s') proposal ?cnp"
  proof (cases rule: merge_client.apply_step_cases[OF mc, of proposal profile ?cnp s5])
    case 3
    have "k = meta_key (un_Meta ?cnp)"
      using 3(5)[of k] 2(6,7) assms(3) by metis
    moreover have "holds_policy (view s') proposal ?cnp"
      using 3(4) unfolding holds_policy_def 2(7) .
    ultimately show ?thesis using 3(2,3) by blast
  qed (use 2(6,7) assms(3) in simp_all)
  then show ?thesis using 2(1-5) by metis
qed

theorem proposal_gate_witness:
  "\<exists>s' proposal. s' = snd (Proposal_Reconcile (\<lambda>_. []) rev rev 5 mem_client mem_os
       (''shop'', ''payment-proposal'') (proposal_cluster True))
   \<and> av_CNPs (mem_view s') (''shop'', ''payment-egress-allowlist'') \<noteq> None
   \<and> fst (kc_GetProposal mem_client (proposal_cluster True) (''shop'', ''payment-proposal'')) = Inr proposal
   \<and> ap_Approved (xs_Approval (xp_Spec proposal))"
proof -
  obtain s' where r: "s' = snd (Proposal_Reconcile (\<lambda>_. []) rev rev 5 mem_client mem_os
       (''shop'', ''payment-proposal'') (proposal_cluster True))"
    and new: "av_CNPs (mem_view s') (''shop'', ''payment-egress-allowlist'') \<noteq> None"
    using proposal_cluster_run by (metis snd_conv)
  then have "av_CNPs (mem_view s') (''shop'', ''payment-egress-allowlist'') \<noteq>
      av_CNPs (mem_view (proposal_cluster True)) (''shop'', ''payment-egress-allowlist'')" by simp
  from proposal_gate[OF memop.merge_env_axioms r this] show ?thesis using r new by blast
qed

text \<open>C5: what one pass achieves. When the server answers, and the proposal, its profile and the
  ConfigMap with a readable baseline exist, the pass succeeds and asks to run again in 30
  seconds; the ConfigMap then holds the generated YAML beside an unchanged baseline; in mode
  Enforce with an approved proposal the cluster holds the generated policy and the phase is
  Applied, otherwise no policy has changed and the phase is PendingApproval; the status
  carries the score, risk level, exclusions and exactly one Ready condition.\<close>

theorem proposal_reconcile_effect:
  assumes "reliable_env kc view up os" "up s" "av_Proposals (view s) req = Some proposal"
    and "ns = om_Namespace (xp_Meta proposal)"
    and "av_Profiles (view s) (ns, xs_ProfileRef_Name (xp_Spec proposal)) = Some profile"
    and "cm = ConfigMapName (om_Name (pr_Meta profile))" "av_ConfigMaps (view s) (ns, cm) \<noteq> None"
    and "(case cm_entry (view s) (ns, cm) keyBaseline of None \<Rightarrow> Inr zero_Snapshot | Some t \<Rightarrow> UnmarshalSnapshot t) = Inr snap"
    and "res = Generate yamlMarshal ordF ordP (om_Name (pr_Meta profile)) ns (ps_Policy (pr_Spec profile)) snap"
    and "go \<longleftrightarrow> ps_Mode (pr_Spec profile) = ModeEnforce \<and> ap_Approved (xs_Approval (xp_Spec proposal))"
    and "distinct (map cd_Type (xt_Conditions (xp_Status proposal)))"
  shows "\<exists>s' xp'. Proposal_Reconcile yamlMarshal ordF ordP now kc os req s = ((requeue_after 30, None), s')
    \<and> cm_entry (view s') (ns, cm) keyPolicy = Some (gr_YAML res)
    \<and> cm_entry (view s') (ns, cm) keyBaseline = cm_entry (view s) (ns, cm) keyBaseline
    \<and> (if go then holds_policy (view s') proposal (gr_CNP res) else av_CNPs (view s') = av_CNPs (view s))
    \<and> av_Proposals (view s') req = Some xp' \<and> xp_Spec xp' = xp_Spec proposal
    \<and> xt_Phase (xp_Status xp') = (if go then ProposalPhaseApplied else ProposalPhasePendingApproval)
    \<and> xt_ConfidenceScore (xp_Status xp') = gr_ConfidenceScore res \<and> xt_RiskLevel (xp_Status xp') = gr_RiskLevel res
    \<and> xt_ExcludedDestinations (xp_Status xp') = gr_ExcludedDestinations res
    \<and> length (filter (\<lambda>c. cd_Type c = ''Ready'') (xt_Conditions (xp_Status xp'))) = 1"
proof -
  obtain s' xp' where r: "Proposal_Reconcile yamlMarshal ordF ordP now kc os req s = ((requeue_after 30, None), s')"
    "av_Proposals (view s') req = Some xp'" "xp_Spec xp' = xp_Spec proposal"
    "cm_entry (view s') (ns, cm) keyPolicy = Some (gr_YAML res)"
    "cm_entry (view s') (ns, cm) keyBaseline = cm_entry (view s) (ns, cm) keyBaseline"
    "if go then holds_policy (view s') proposal (gr_CNP res) else av_CNPs (view s') = av_CNPs (view s)"
    and st: "xp_Status xp' = proposal_status now res (if go then ProposalPhaseApplied else ProposalPhasePendingApproval) cm (xp_Status proposal)"
    using reliable_env.Proposal_Reconcile_up[OF assms(1-10), of now] by blast
  have "\<exists>c. cd_Type c = ''Ready'' \<and> xt_Conditions (xp_Status xp') = setCondition (xt_Conditions (xp_Status proposal)) c"
    by (simp add: st proposal_status_def) (metis Condition.select_convs(1))
  then have "length (filter (\<lambda>c. cd_Type c = ''Ready'') (xt_Conditions (xp_Status xp'))) = 1"
    using setCondition_own[OF assms(11)] by (metis length_Cons list.size(3) One_nat_def)
  then show ?thesis
    using r by (intro exI[of _ s'] exI[of _ xp']) (simp add: st proposal_status_def)
qed

theorem proposal_reconcile_effect_witness:
  "\<exists>s'. Proposal_Reconcile (\<lambda>_. ''yaml'') rev rev 5 mem_client mem_os
     (''shop'', ''payment-proposal'') (proposal_cluster True) = ((requeue_after 30, None), s')
   \<and> cm_entry (mem_view s') (''shop'', ConfigMapName ''payment'') keyPolicy = Some ''yaml''
   \<and> holds_policy (mem_view s') (demo_proposal True) (gr_CNP (Generate (\<lambda>_. ''yaml'') rev rev ''payment'' ''shop'' demo_policy zero_Snapshot))"
proof -
  let ?res = "Generate (\<lambda>_. ''yaml'') rev rev ''payment'' ''shop'' demo_policy zero_Snapshot"
  have "gr_YAML ?res = ''yaml''" by (simp add: Generate_def Let_def split: prod.split)
  moreover have "distinct (map cd_Type (xt_Conditions (xp_Status (demo_proposal True))))" "ps_Policy (pr_Spec (demo_profile ModeEnforce)) = demo_policy"
    by (simp_all add: demo_proposal_def zero_ProposalStatus_def demo_profile_def)
  ultimately show ?thesis
    using proposal_reconcile_effect[OF memop.reliable_env_axioms proposal_cluster_simps(1,2), where ns = "''shop''" and go = True
      and cm = "ConfigMapName ''payment''" and profile = "demo_profile ModeEnforce" and snap = zero_Snapshot and res = ?res and now = 5
      and yamlMarshal = "\<lambda>_. ''yaml''" and ordF = rev and ordP = rev]
    by auto
qed

end
