(* ===== verification/Operator_System.thy ===== *)
theory Operator_System
  imports Proposal_Controller_Props Accumulator_Props
begin

text \<open>
  The operator as a whole (\<^verbatim>\<open>cmd/main.go\<close> wires it): the accumulator's event loop and the two
  reconcilers run side by side on one API server, in any order, and users edit objects in
  between. A step is one event of the accumulator, one pass of a reconciler or one edit; an
  edit may do anything but write network policies. Reconcile passes read the current
  objects. What holds in every reachable state is proved by induction over the steps.
\<close>

subsection \<open>Steps\<close>

definition user_edit :: "api_view \<Rightarrow> api_view \<Rightarrow> bool" where
  "user_edit v v' \<longleftrightarrow> av_CNPs v' = av_CNPs v"

inductive op_step :: "'s kube_client \<Rightarrow> 's os_calls \<Rightarrow> ('s \<Rightarrow> api_view) \<Rightarrow> (int \<Rightarrow> int) \<Rightarrow>
    (Unstructured \<Rightarrow> string) \<Rightarrow> Accumulator \<times> 's \<Rightarrow> Accumulator \<times> 's \<Rightarrow> bool"
  for kc os view zone yaml where
  flow: "op_step kc os view zone yaml (a, s) (ingest f a, s)"
| tick: "map_order ord \<Longrightarrow> map_order ordW \<Longrightarrow>
    flushSnapshots (SaveSnapshot zone kc) ord ordW clock (purge ord now a) s = (a', s') \<Longrightarrow>
    op_step kc os view zone yaml (a, s) (a', s')"
| profile: "Profile_Reconcile now kc req (Some a) s = (r, Some a', s') \<Longrightarrow>
    op_step kc os view zone yaml (a, s) (a', s')"
| proposal: "map_order ordF \<Longrightarrow> map_order ordP \<Longrightarrow>
    Proposal_Reconcile yaml ordF ordP now kc os req s = (r, s') \<Longrightarrow>
    op_step kc os view zone yaml (a, s) (a, s')"
| user: "user_edit (view s) (view s') \<Longrightarrow> op_step kc os view zone yaml (a, s) (a, s')"

abbreviation op_steps :: "'s kube_client \<Rightarrow> 's os_calls \<Rightarrow> ('s \<Rightarrow> api_view) \<Rightarrow> (int \<Rightarrow> int) \<Rightarrow>
    (Unstructured \<Rightarrow> string) \<Rightarrow> Accumulator \<times> 's \<Rightarrow> Accumulator \<times> 's \<Rightarrow> bool" where
  "op_steps kc os view zone yaml \<equiv> (op_step kc os view zone yaml)\<^sup>*\<^sup>*"

inductive_cases op_stepE: "op_step kc os view zone yaml (a, s) (a', s')"

lemmas op_step_cases = op_stepE [consumes 1, case_names flow tick profile proposal user]

text \<open>In a namespace, some approved proposal belongs to a profile in mode Enforce.\<close>

definition armed :: "api_view \<Rightarrow> string \<Rightarrow> bool" where
  "armed v ns \<longleftrightarrow> (\<exists>req proposal profile. av_Proposals v req = Some proposal \<and> om_Namespace (xp_Meta proposal) = ns
     \<and> ap_Approved (xs_Approval (xp_Spec proposal))
     \<and> av_Profiles v (ns, xs_ProfileRef_Name (xp_Spec proposal)) = Some profile \<and> ps_Mode (pr_Spec profile) = ModeEnforce)"

subsection \<open>What a step can change\<close>

context api_client
begin

lemma save_loop_CNPs: "av_CNPs (view (save_loop (SaveSnapshot zone kc) clock a truncated bw wks s)) = av_CNPs (view s)"
proof (induction wks arbitrary: s)
  case (Cons wk wks)
  have "av_CNPs (view (snd (SaveSnapshot zone kc s ns n snap))) = av_CNPs (view s)" for ns n snap
    by (auto simp: SaveSnapshot_def patchData_keeps split: sum.split)
  with Cons show ?case by (simp add: Let_def)
qed simp

lemma flush_CNPs: "av_CNPs (view (snd (flushSnapshots (SaveSnapshot zone kc) ord ordW clock a s))) = av_CNPs (view s)"
  by (simp add: flushSnapshots_def Let_def save_loop_CNPs split: prod.split)

end

lemma Generate_key: "om_Namespace (un_Meta (gr_CNP (Generate yaml ordF ordP n ns policy snap))) = ns"
  by (simp add: Generate_def Let_def SetEgressRules_def SetEndpointSelector_def SetName_def NewCNP_def split: prod.split)

context fresh_env
begin

lemma step_CNPs:
  assumes "op_step kc os view zone yaml (a, s) (a', s')" "av_CNPs (view s') k \<noteq> av_CNPs (view s) k"
  shows "armed (view s) (fst k)"
  using assms(1)
proof (cases rule: op_step_cases)
  case (tick ord ordW clock now)
  then show ?thesis using assms(2) flush_CNPs[of zone ord ordW clock "purge ord now a" s] by simp
next
  case (profile now req r)
  then show ?thesis
    using assms(2) Profile_Reconcile_harmless[of s now req "Some a"] by (simp add: harmless_def)
next
  case (proposal ordF ordP now req r)
  then have "s' = snd (Proposal_Reconcile yaml ordF ordP now kc os req s)" by simp
  then show ?thesis
  proof (cases rule: Proposal_Reconcile_run)
    case stopped
    then show ?thesis using assms(2) by simp
  next
    case (full p q snap s1 s2 s5)
    let ?cnp = "gr_CNP (Generate yaml ordF ordP (om_Name (pr_Meta q)) (om_Namespace (xp_Meta p)) (ps_Policy (pr_Spec q)) snap)"
    have "ps_Mode (pr_Spec q) = ModeEnforce \<and> ap_Approved (xs_Approval (xp_Spec p)) \<and> k = meta_key (un_Meta ?cnp)"
    proof (cases rule: apply_step_cases[of p q ?cnp s5])
      case 3
      then show ?thesis using 3(5)[of k] full(6,7) assms(2) by metis
    qed (use full(6,7) assms(2) in simp_all)
    moreover have "av_Proposals (view s) req = Some p"
      "av_Profiles (view s) (om_Namespace (xp_Meta p), xs_ProfileRef_Name (xp_Spec p)) = Some q"
      using get_proposal(1)[OF full(1)] get_profile(1)[OF full(4)] full(2) by simp_all
    ultimately show ?thesis
      unfolding armed_def by (intro exI[of _ req] exI[of _ p] exI[of _ q]) (simp add: Generate_key)
  qed
qed (use assms(2) in \<open>simp_all add: user_edit_def\<close>)

lemma steps_CNPs:
  assumes "op_steps kc os view zone yaml x y" "av_CNPs (view (snd y)) k \<noteq> av_CNPs (view (snd x)) k"
  shows "\<exists>z. op_steps kc os view zone yaml x z \<and> op_steps kc os view zone yaml z y
    \<and> armed (view (snd z)) (fst k)"
  using assms
proof (induction rule: rtranclp_induct)
  case (step y z)
  show ?case
  proof (cases "av_CNPs (view (snd y)) k = av_CNPs (view (snd x)) k")
    case True
    then have "armed (view (snd y)) (fst k)"
      using step_CNPs[of zone yaml "fst y" "snd y" "fst z" "snd z" k] step.hyps(2) step.prems by simp
    then show ?thesis using step.hyps by blast
  next
    case False
    then show ?thesis using step.IH step.hyps(2) by (meson rtranclp.rtrancl_into_rtrancl)
  qed
qed simp

end

subsection \<open>Properties\<close>



end
