(* ===== verification/Enforcement.thy ===== *)
theory Enforcement
  imports Proposal_Controller_Props
begin

text \<open>
  The way of a profile to an enforced policy: the two reconcilers and the user's approval in
  turn, with a server that answers. The passes are composed from what each of them achieves.
\<close>

subsection \<open>The approval\<close>

text \<open>A user approves a proposal, and changes no other object; the reference to the profile stays.\<close>

definition approves :: "api_view \<Rightarrow> objkey \<Rightarrow> api_view \<Rightarrow> bool" where
  "approves v k v' \<longleftrightarrow> (\<exists>xp xp'. av_Proposals v k = Some xp \<and> v' = v\<lparr>av_Proposals := (av_Proposals v)(k \<mapsto> xp')\<rparr>
     \<and> ap_Approved (xs_Approval (xp_Spec xp')) \<and> xs_ProfileRef_Name (xp_Spec xp') = xs_ProfileRef_Name (xp_Spec xp))"

definition stored_baseline :: "api_view \<Rightarrow> objkey \<Rightarrow> go_error + Snapshot" where
  "stored_baseline v k = (case cm_entry v k keyBaseline of None \<Rightarrow> Inr zero_Snapshot | Some t \<Rightarrow> UnmarshalSnapshot t)"

subsection \<open>The passes in turn\<close>

context reliable_client
begin

lemma profile_key: "up s \<Longrightarrow> av_Profiles (view s) k = Some p \<Longrightarrow> meta_key (pr_Meta p) = k"
  using get_keyed(2) up_get_profile by blast

lemma proposal_key: "up s \<Longrightarrow> av_Proposals (view s) k = Some p \<Longrightarrow> meta_key (xp_Meta p) = k"
  using get_keyed(3) up_get_proposal(1) by blast

text \<open>The first pass leaves a proposal for the profile and the baseline as it was.\<close>

lemma profile_pass:
  assumes "up s" "av_Profiles (view s) (ns, name) = Some profile" "ps_Mode (pr_Spec profile) = ModeEnforce"
  obtains s' profile' xp where "Profile_Reconcile now kc (ns, name) acc s = ((requeue_after 30, None),
      map_option (RegisterWorkload (workload_key profile) ns (ConfigMapName name)) acc, s')"
    "up s'" "harmless (view s) (view s')" "av_ConfigMaps (view s') (ns, ConfigMapName name) \<noteq> None"
    "cm_entry (view s') (ns, ConfigMapName name) = cm_entry (view s) (ns, ConfigMapName name)"
    "av_Profiles (view s') (ns, name) = Some profile'" "pr_Spec profile' = pr_Spec profile"
    "pt_Phase (pr_Status profile') = phase_of (view s) profile"
    "av_Proposals (view s') (ns, name @ ''-proposal'') = Some xp" "xp_Spec xp = proposal_spec_of (view s) profile"
proof -
  have k: "om_Namespace (pr_Meta profile) = ns" "om_Name (pr_Meta profile) = name"
    using profile_key[OF assms(1,2)] by simp_all
  obtain s' profile' xp where r: "Profile_Reconcile now kc (ns, name) acc s = ((requeue_after 30, None),
      map_option (RegisterWorkload (workload_key profile) ns (ConfigMapName name)) acc, s')"
    "up s'" "av_ConfigMaps (view s') (ns, ConfigMapName name) \<noteq> None"
    "cm_entry (view s') (ns, ConfigMapName name) = cm_entry (view s) (ns, ConfigMapName name)"
    "av_Profiles (view s') (ns, name) = Some profile'" "pr_Spec profile' = pr_Spec profile"
    "pr_Status profile' = profile_status now (baseline_of (view s) (ns, ConfigMapName name)) (phase_of (view s) profile)
      (ConfigMapName name) (proposal_ref_of profile) (pr_Status profile)"
    "av_Proposals (view s') (ns, name @ ''-proposal'') = Some xp" "xp_Spec xp = proposal_spec_of (view s) profile"
    using Profile_Reconcile_up[OF assms(1,2), of now acc] assms(3) unfolding k by auto
  have "harmless (view s) (view s')" using Profile_Reconcile_harmless[of s now "(ns, name)" acc] r(1) by simp
  moreover have "pt_Phase (pr_Status profile') = phase_of (view s) profile"
    by (simp add: r(7) profile_status_def split: prod.split)
  ultimately show thesis using r by (intro that)
qed

end

text \<open>The pass over an approved proposal.\<close>

context reliable_env
begin

lemma approved_pass:
  assumes "up s" "av_Proposals (view s) (ns, x) = Some xp" "xs_ProfileRef_Name (xp_Spec xp) = name"
    and "ap_Approved (xs_Approval (xp_Spec xp))" "av_Profiles (view s) (ns, name) = Some p" "ps_Mode (pr_Spec p) = ModeEnforce"
    and "av_ConfigMaps (view s) (ns, ConfigMapName name) \<noteq> None" "stored_baseline (view s) (ns, ConfigMapName name) = Inr snap"
    and "res = Generate yaml ordF ordP name ns (ps_Policy (pr_Spec p)) snap"
  obtains s' xp' where "Proposal_Reconcile yaml ordF ordP now kc os (ns, x) s = ((requeue_after 30, None), s')" "up s'"
    "av_Profiles (view s') = av_Profiles (view s)" "av_Proposals (view s') (ns, x) = Some xp'"
    "xt_Phase (xp_Status xp') = ProposalPhaseApplied"
    "cm_entry (view s') (ns, ConfigMapName name) keyPolicy = Some (gr_YAML res)" "holds_policy (view s') xp (gr_CNP res)"
proof -
  have k: "ns = om_Namespace (xp_Meta xp)" "om_Name (pr_Meta p) = name"
    using proposal_key[OF assms(1,2)] profile_key[OF assms(1,5)] by simp_all
  have "True \<longleftrightarrow> ps_Mode (pr_Spec p) = ModeEnforce \<and> ap_Approved (xs_Approval (xp_Spec xp))" using assms(4,6) by simp
  from Proposal_Reconcile_up[OF assms(1,2) k(1) _ _ _ _ _ this, where cm = "ConfigMapName name" and snap = snap and res = res
      and yamlMarshal = yaml and ordF = ordF and ordP = ordP and now = now] assms(3,5,7-9)
  obtain s' xp' where "Proposal_Reconcile yaml ordF ordP now kc os (ns, x) s = ((requeue_after 30, None), s')" "up s'"
    "av_Profiles (view s') = av_Profiles (view s)" "av_Proposals (view s') (ns, x) = Some xp'"
    "xp_Status xp' = proposal_status now res ProposalPhaseApplied (ConfigMapName name) (xp_Status xp)"
    "cm_entry (view s') (ns, ConfigMapName name) keyPolicy = Some (gr_YAML res)" "holds_policy (view s') xp (gr_CNP res)"
    by (auto simp: k(2) stored_baseline_def)
  then show thesis by (intro that[of s' xp']) (simp_all add: proposal_status_def)
qed

end

subsection \<open>Properties\<close>

text \<open>C4: enforcement is reached. With a server that answers, for a profile in mode Enforce with a
  readable (or no) baseline and no foreign proposal under its name: after a pass of the profile
  reconciler, the user's approval, a pass of the proposal reconciler and another pass of the
  profile reconciler, each pass has succeeded, the cluster holds exactly the policy
  generated from the baseline, owned by the proposal, the ConfigMap holds its YAML and the
  profile's phase is Enforced.\<close>

theorem enforcement_converges:
  assumes "reliable_env kc view up os" "up s0" "av_Profiles (view s0) (ns, name) = Some profile"
    and "ps_Mode (pr_Spec profile) = ModeEnforce" "stored_baseline (view s0) (ns, ConfigMapName name) = Inr snap"
    and "\<And>xp. av_Proposals (view s0) (ns, name @ ''-proposal'') = Some xp \<Longrightarrow> xs_ProfileRef_Name (xp_Spec xp) = name"
    and run1: "Profile_Reconcile t1 kc (ns, name) acc s0 = (r1, acc1, s1)"
    and user: "approves (view s1) (ns, name @ ''-proposal'') (view s2)" "up s2"
    and run2: "Proposal_Reconcile yaml ordF ordP t2 kc os (ns, name @ ''-proposal'') s2 = (r2, s3)"
    and run3: "Profile_Reconcile t3 kc (ns, name) acc1 s3 = (r3, acc3, s4)"
    and res: "res = Generate yaml ordF ordP name ns (ps_Policy (pr_Spec profile)) snap"
  shows "r1 = (requeue_after 30, None) \<and> r2 = (requeue_after 30, None) \<and> r3 = (requeue_after 30, None)
    \<and> (\<exists>xp. meta_key (xp_Meta xp) = (ns, name @ ''-proposal'') \<and> holds_policy (view s4) xp (gr_CNP res))
    \<and> cm_entry (view s4) (ns, ConfigMapName name) keyPolicy = Some (gr_YAML res)
    \<and> (\<exists>profile'. av_Profiles (view s4) (ns, name) = Some profile' \<and> pt_Phase (pr_Status profile') = PhaseEnforced)"
proof -
  let ?cm = "ConfigMapName name" and ?xk = "(ns, name @ ''-proposal'')"
  have rc: "reliable_client kc view up" using assms(1) by (simp add: reliable_env_def)
  obtain p1 xp where 1: "r1 = (requeue_after 30, None)" "up s1" "av_ConfigMaps (view s1) (ns, ?cm) \<noteq> None"
    "cm_entry (view s1) (ns, ?cm) = cm_entry (view s0) (ns, ?cm)" "av_Profiles (view s1) (ns, name) = Some p1"
    "pr_Spec p1 = pr_Spec profile" "av_Proposals (view s1) ?xk = Some xp" "xp_Spec xp = proposal_spec_of (view s0) profile"
    using reliable_client.profile_pass[OF rc assms(2-4), of t1 acc] run1 by (metis prod.inject)
  have ref: "xs_ProfileRef_Name (xp_Spec xp) = name"
    using 1(8) assms(6) reliable_client.profile_key[OF rc assms(2,3)]
    by (auto simp: proposal_spec_of_def new_proposal_def Let_def split: option.split)
  obtain xp2 where v2: "view s2 = (view s1)\<lparr>av_Proposals := (av_Proposals (view s1))(?xk \<mapsto> xp2)\<rparr>"
    and xp2: "ap_Approved (xs_Approval (xp_Spec xp2))" "xs_ProfileRef_Name (xp_Spec xp2) = name"
    using user(1) 1(7) ref by (auto simp: approves_def)
  have s2: "av_Proposals (view s2) ?xk = Some xp2" "av_Profiles (view s2) (ns, name) = Some p1" "ps_Mode (pr_Spec p1) = ModeEnforce"
    "av_ConfigMaps (view s2) (ns, ?cm) \<noteq> None" "cm_entry (view s2) (ns, ?cm) = cm_entry (view s1) (ns, ?cm)"
    using 1(3,5,6) assms(4) by (simp_all add: v2 cm_entry_def fun_eq_iff)
  then have "stored_baseline (view s2) (ns, ?cm) = Inr snap" using assms(5) 1(4) by (simp add: stored_baseline_def)
  moreover have "res = Generate yaml ordF ordP name ns (ps_Policy (pr_Spec p1)) snap" using res 1(6) by simp
  ultimately obtain s3' xp3 where pass: "Proposal_Reconcile yaml ordF ordP t2 kc os ?xk s2 = ((requeue_after 30, None), s3')"
    "up s3'" "av_Profiles (view s3') = av_Profiles (view s2)"
    "av_Proposals (view s3') ?xk = Some xp3" "xt_Phase (xp_Status xp3) = ProposalPhaseApplied"
    "cm_entry (view s3') (ns, ?cm) keyPolicy = Some (gr_YAML res)" "holds_policy (view s3') xp2 (gr_CNP res)"
    by (rule reliable_env.approved_pass[OF assms(1) user(2) s2(1) xp2(2,1) s2(2-4)])
  moreover have "r2 = (requeue_after 30, None)" "s3' = s3" using pass(1) run2 by simp_all
  ultimately have 2: "r2 = (requeue_after 30, None)" "up s3" "av_Profiles (view s3) = av_Profiles (view s2)"
    "av_Proposals (view s3) ?xk = Some xp3" "xt_Phase (xp_Status xp3) = ProposalPhaseApplied"
    "cm_entry (view s3) (ns, ?cm) keyPolicy = Some (gr_YAML res)" "holds_policy (view s3) xp2 (gr_CNP res)"
    by simp_all
  have k2: "meta_key (xp_Meta xp2) = ?xk" by (rule reliable_client.proposal_key[OF rc user(2) s2(1)])
  have p3: "av_Profiles (view s3) (ns, name) = Some p1" "ps_Mode (pr_Spec p1) = ModeEnforce"
    using 2(3) s2 by simp_all
  obtain p4 where 3: "r3 = (requeue_after 30, None)" "harmless (view s3) (view s4)"
    "cm_entry (view s4) (ns, ?cm) = cm_entry (view s3) (ns, ?cm)" "av_Profiles (view s4) (ns, name) = Some p4"
    "pt_Phase (pr_Status p4) = phase_of (view s3) p1"
    using reliable_client.profile_pass[OF rc 2(2) p3, of t3 acc1] run3 by (metis prod.inject)
  have "holds_policy (view s4) xp2 (gr_CNP res)" using 2(7) 3(2) by (simp add: holds_policy_def harmless_def)
  moreover have "phase_of (view s3) p1 = PhaseEnforced"
    using p3(2) 2(4,5) reliable_client.profile_key[OF rc 2(2) p3(1)]
    by (simp add: phase_of_def proposal_phase_def profile_phase_def)
  ultimately show ?thesis using 1(1) 2(1,6) 3 k2 by metis
qed

definition approve_in :: "objkey \<Rightarrow> cluster \<Rightarrow> cluster" where
  "approve_in k s = (case obj_find xp_key k (cl_Proposals s) of None \<Rightarrow> s
     | Some xp \<Rightarrow> s\<lparr>cl_Proposals := obj_put xp_key (xp\<lparr>xp_Spec := (xp_Spec xp)\<lparr>xs_Approval :=
         \<lparr>ap_Approved = True, ap_ApprovedBy = ''ops'', ap_ApprovedAt = Some 9\<rparr>\<rparr>\<rparr>) (cl_Proposals s)\<rparr>)"

lemma approve_in_approves:
  assumes "mem_up s" "av_Proposals (mem_view s) k = Some xp"
  shows "approves (mem_view s) k (mem_view (approve_in k s)) \<and> mem_up (approve_in k s)"
proof -
  let ?xp = "xp\<lparr>xp_Spec := (xp_Spec xp)\<lparr>xs_Approval := \<lparr>ap_Approved = True, ap_ApprovedBy = ''ops'', ap_ApprovedAt = Some 9\<rparr>\<rparr>\<rparr>"
  have f: "obj_find xp_key k (cl_Proposals s) = Some xp" "xp_key xp = k"
    using assms(2) obj_find_key[of xp_key k "cl_Proposals s" xp] by (auto simp: mem_view_def)
  then have "mem_view (approve_in k s) = (mem_view s)\<lparr>av_Proposals := (av_Proposals (mem_view s))(k \<mapsto> ?xp)\<rparr>"
    by (simp add: approve_in_def mem_view_def fun_eq_iff)
  then show ?thesis
    using assms f(1) unfolding approves_def by (auto simp: approve_in_def mem_up_def intro!: exI[of _ xp] exI[of _ ?xp])
qed

theorem enforcement_converges_witness:
  "\<exists>s1 s3 s4 r1 r2 r3 acc1 acc3 p. Profile_Reconcile 5 mem_client (''shop'', ''payment'') None (profile_cluster ModeEnforce) = (r1, acc1, s1)
    \<and> Proposal_Reconcile (\<lambda>_. ''yaml'') rev rev 10 mem_client mem_os (''shop'', ''payment-proposal'')
        (approve_in (''shop'', ''payment-proposal'') s1) = (r2, s3)
    \<and> Profile_Reconcile 15 mem_client (''shop'', ''payment'') acc1 s3 = (r3, acc3, s4)
    \<and> av_Profiles (mem_view s4) (''shop'', ''payment'') = Some p \<and> pt_Phase (pr_Status p) = PhaseEnforced"
proof -
  let ?k = "(''shop'', ''payment'')" and ?xk = "(''shop'', ''payment'' @ ''-proposal'')"
  obtain r1 acc1 s1 where 1: "Profile_Reconcile 5 mem_client ?k None (profile_cluster ModeEnforce) = (r1, acc1, s1)"
    by (metis prod_cases3)
  obtain r2 s3 where 2: "Proposal_Reconcile (\<lambda>_. ''yaml'') rev rev 10 mem_client mem_os ?xk (approve_in ?xk s1) = (r2, s3)"
    by (metis surj_pair)
  obtain r3 acc3 s4 where 3: "Profile_Reconcile 15 mem_client ?k acc1 s3 = (r3, acc3, s4)" by (metis prod_cases3)
  obtain xp where xp: "mem_up s1" "av_Proposals (mem_view s1) ?xk = Some xp"
    using mem.profile_pass[OF profile_cluster_simps(1,2)[of ModeEnforce] profile_cluster_simps(5), of 5 None] 1
    by (metis prod.inject)
  have a: "approves (mem_view s1) ?xk (mem_view (approve_in ?xk s1))" "mem_up (approve_in ?xk s1)"
    using approve_in_approves[OF xp] by blast+
  have b: "stored_baseline (mem_view (profile_cluster ModeEnforce)) (''shop'', ConfigMapName ''payment'') = Inr zero_Snapshot"
    by (simp add: stored_baseline_def cm_entry_def)
  have "\<exists>p. av_Profiles (mem_view s4) ?k = Some p \<and> pt_Phase (pr_Status p) = PhaseEnforced"
    using enforcement_converges[OF memop.reliable_env_axioms profile_cluster_simps(1,2) profile_cluster_simps(5) b _ 1 a 2 3 refl] by simp
  then show ?thesis using 1 2 3 by auto
qed

end
