(* ===== verification/Status_Types.thy ===== *)
theory Status_Types
  imports Operator_System
begin

text \<open>
  The statuses the operator writes are those its API types declare. The schema that the
  markers of \<^verbatim>\<open>api/v1alpha1\<close> generate is a predicate on statuses; every step of the operator
  keeps every status of the cluster in it, whatever calls fail.
\<close>

subsection \<open>The declared types\<close>

definition typed_conditions :: "Condition list \<Rightarrow> bool" where
  "typed_conditions cs \<longleftrightarrow> distinct (map cd_Type cs)
     \<and> list_all (\<lambda>c. cd_Type c \<noteq> [] \<and> cd_Reason c \<noteq> [] \<and> cd_Status c \<in> {''True'', ''False'', ''Unknown''}) cs"

text \<open>An empty phase or risk level is omitted from the object.\<close>

definition typed_profile_status :: "EgressProfileStatus \<Rightarrow> bool" where
  "typed_profile_status st \<longleftrightarrow>
     pt_Phase st \<in> {[], PhaseObserving, PhaseProposed, PhaseAwaitingApproval, PhaseEnforced, PhaseFailed}
     \<and> typed_conditions (pt_Conditions st)
     \<and> rs_Low (pt_RiskSummary st) + rs_Medium (pt_RiskSummary st) + rs_High (pt_RiskSummary st) = pt_ObservedDestinationsCount st"

definition typed_proposal_status :: "EgressPolicyProposalStatus \<Rightarrow> bool" where
  "typed_proposal_status st \<longleftrightarrow>
     xt_Phase st \<in> {[], ProposalPhaseDraft, ProposalPhasePendingApproval, ProposalPhaseApproved, ProposalPhaseApplied, ProposalPhaseFailed}
     \<and> 0 \<le> xt_ConfidenceScore st \<and> xt_ConfidenceScore st \<le> 100
     \<and> xt_RiskLevel st \<in> {[], RiskLow, RiskMedium, RiskHigh}
     \<and> (\<forall>x \<in> set (xt_ExcludedDestinations st). xd_Risk x \<in> {RiskMedium, RiskHigh})
     \<and> typed_conditions (xt_Conditions st)"

definition typed_view :: "api_view \<Rightarrow> bool" where
  "typed_view v \<longleftrightarrow> (\<forall>p \<in> ran (av_Profiles v). typed_profile_status (pr_Status p))
     \<and> (\<forall>x \<in> ran (av_Proposals v). typed_proposal_status (xp_Status x))"

subsection \<open>The statuses written\<close>

lemma setCondition_all: "list_all P cs \<Longrightarrow> P c \<Longrightarrow> list_all P (setCondition cs c)"
  by (induction cs) auto

lemma typed_setCondition:
  assumes "typed_conditions cs" "cd_Type c \<noteq> []" "cd_Reason c \<noteq> []" "cd_Status c \<in> {''True'', ''False'', ''Unknown''}"
  shows "typed_conditions (setCondition cs c)"
  using assms by (simp add: typed_conditions_def setCondition_distinct setCondition_all)

lemma typed_profile_written:
  assumes "typed_profile_status st" "phase \<in> {PhaseObserving, PhaseProposed, PhaseAwaitingApproval, PhaseEnforced}"
  shows "typed_profile_status (profile_status now snap phase cm ref st)"
  using assms typed_setCondition countRisk_total[of snap]
  by (cases "countRisk snap") (auto simp: typed_profile_status_def profile_status_def)

lemma profile_phase_typed:
  "profile_phase mode p \<in> {PhaseObserving, PhaseProposed, PhaseAwaitingApproval, PhaseEnforced}"
  by (simp add: profile_phase_def)

lemma generate_loop_risks:
  "(\<forall>x \<in> set excl. xd_Risk x \<in> {RiskMedium, RiskHigh}) \<Longrightarrow>
   x \<in> set (snd (generate_loop scored groups excl)) \<Longrightarrow> xd_Risk x \<in> {RiskMedium, RiskHigh}"
  by (induction scored groups excl rule: generate_loop.induct) (auto simp: Let_def split: if_splits)

lemma computeOverallRisk_typed: "computeOverallRisk scored score \<in> {RiskLow, RiskMedium, RiskHigh}"
  by (induction scored score rule: computeOverallRisk.induct) auto

lemma AggregateScore_typed: "0 \<le> AggregateScore es \<and> AggregateScore es \<le> 100"
proof (cases "es = []")
  case False
  then show ?thesis using AggregateScore_between[of es 0 100] Score_bounds by (smt (verit))
qed (simp add: AggregateScore_def)

lemma typed_proposal_written:
  assumes "typed_proposal_status st" "phase \<in> {ProposalPhasePendingApproval, ProposalPhaseApplied, ProposalPhaseFailed}"
    and "res = Generate yaml ordF ordP name ns policy snap"
  shows "typed_proposal_status (proposal_status now res phase cm st)"
proof -
  have "\<forall>x \<in> set (gr_ExcludedDestinations res). xd_Risk x \<in> {RiskMedium, RiskHigh}"
    using generate_loop_risks[of "[]" _ "Build snap" "[]"]
    by (auto simp: assms(3) Generate_def Let_def split: prod.splits)
  moreover have "gr_RiskLevel res \<in> {RiskLow, RiskMedium, RiskHigh}" "0 \<le> gr_ConfidenceScore res" "gr_ConfidenceScore res \<le> 100"
    using AggregateScore_typed[of "sn_Destinations snap"] computeOverallRisk_typed
    by (simp_all add: assms(3) Generate_def Let_def split: prod.split)
  moreover have "typed_conditions (xt_Conditions (proposal_status now res phase cm st))"
    using assms(1,2) typed_setCondition by (auto simp: typed_proposal_status_def proposal_status_def phase_defs)
  ultimately show ?thesis
    using assms(2) unfolding typed_proposal_status_def by (simp add: proposal_status_def) blast
qed

lemma typed_new_proposal: "typed_proposal_status zero_ProposalStatus"
  by (simp add: typed_proposal_status_def zero_ProposalStatus_def typed_conditions_def)

subsection \<open>Writes\<close>

lemma ran_updD: "y \<in> ran (m(k \<mapsto> x)) \<Longrightarrow> y = x \<or> y \<in> ran m"
  by (auto simp: ran_def split: if_splits)

lemma typed_view_same:
  "typed_view v \<Longrightarrow> av_Profiles v' = av_Profiles v \<Longrightarrow> av_Proposals v' = av_Proposals v \<Longrightarrow> typed_view v'"
  by (simp add: typed_view_def)

lemma typed_viewD:
  "typed_view v \<Longrightarrow> av_Profiles v k = Some p \<Longrightarrow> typed_profile_status (pr_Status p)"
  "typed_view v \<Longrightarrow> av_Proposals v k = Some x \<Longrightarrow> typed_proposal_status (xp_Status x)"
  by (auto simp: typed_view_def intro: ranI)

context api_client
begin

lemma EnsureConfigMap_keeps:
  "av_Profiles (view (snd (EnsureConfigMap kc s profile))) = av_Profiles (view s)"
  "av_Proposals (view (snd (EnsureConfigMap kc s profile))) = av_Proposals (view s)"
proof -
  let ?k = "(om_Namespace (pr_Meta profile), ConfigMapName (om_Name (pr_Meta profile)))"
  obtain r s1 where g: "kc_GetConfigMap kc s ?k = (r, s1)" by (cases "kc_GetConfigMap kc s ?k")
  have "view s1 = view s" using get_view(1)[of s ?k] g by simp
  then show "av_Profiles (view (snd (EnsureConfigMap kc s profile))) = av_Profiles (view s)"
    "av_Proposals (view (snd (EnsureConfigMap kc s profile))) = av_Proposals (view s)"
    by (auto simp: EnsureConfigMap_def Let_def g writes_keep split: sum.split)
qed

lemma save_loop_keeps:
  "av_Profiles (view (save_loop (SaveSnapshot zone kc) clock a truncated bw wks s)) = av_Profiles (view s)
   \<and> av_Proposals (view (save_loop (SaveSnapshot zone kc) clock a truncated bw wks s)) = av_Proposals (view s)"
proof (induction wks arbitrary: s)
  case (Cons wk wks)
  have "av_Profiles (view (snd (SaveSnapshot zone kc s ns n snap))) = av_Profiles (view s)
    \<and> av_Proposals (view (snd (SaveSnapshot zone kc s ns n snap))) = av_Proposals (view s)" for ns n snap
    by (auto simp: SaveSnapshot_def patchData_keeps split: sum.split)
  with Cons show ?case by (simp add: Let_def)
qed simp

lemma typed_flush:
  "typed_view (view s) \<Longrightarrow> typed_view (view (snd (flushSnapshots (SaveSnapshot zone kc) ord ordW clock a s)))"
  by (rule typed_view_same[of "view s"]) (simp_all add: flushSnapshots_def Let_def save_loop_keeps split: prod.split)

end

context fresh_client
begin

lemma typed_ensureProposal:
  assumes "typed_view (view s)"
  shows "typed_view (view (snd (ensureProposal kc s profile)))"
    and "av_Profiles (view (snd (ensureProposal kc s profile))) = av_Profiles (view s)"
proof -
  let ?k = "(om_Namespace (pr_Meta profile), om_Name (pr_Meta profile) @ ''-proposal'')"
  obtain r s1 where g: "kc_GetProposal kc s ?k = (r, s1)" by (cases "kc_GetProposal kc s ?k")
  have v1: "view s1 = view s" using get_view(3)[of s ?k] g by simp
  obtain r' s2 where c: "kc_CreateProposal kc s1 (new_proposal profile) = (r', s2)"
    by (cases "kc_CreateProposal kc s1 (new_proposal profile)")
  have keep: "av_Profiles (view s2) = av_Profiles (view s)" using writes_keep(11)[of s1 "new_proposal profile"] c v1 by simp
  have "typed_view (view s2)"
  proof (cases r')
    case (Inl err)
    then show ?thesis using create_proposal(2)[of s1 "new_proposal profile" err] c v1 assms by simp
  next
    case (Inr xp)
    have "av_Proposals (view s2) = (av_Proposals (view s))(?k \<mapsto> xp)"
      using create_proposal(1)[of s1 "new_proposal profile" xp] writes_frame(4)[of _ "new_proposal profile" s1] c v1 Inr by (auto simp: fun_eq_iff)
    moreover have "xp_Status xp = zero_ProposalStatus" using create_proposal(1)[of s1 "new_proposal profile" xp] c Inr by simp
    ultimately show ?thesis
      using assms keep typed_new_proposal unfolding typed_view_def by (metis ran_updD)
  qed
  then show "typed_view (view (snd (ensureProposal kc s profile)))"
    "av_Profiles (view (snd (ensureProposal kc s profile))) = av_Profiles (view s)"
    using assms v1 keep by (auto simp: ensureProposal_def Let_def g c get_view(6) split: sum.split)
qed

lemma typed_patch_profile:
  assumes "typed_view (view s)" "av_Profiles (view s) (meta_key (pr_Meta p)) = Some base" "typed_profile_status (pr_Status p)"
  shows "typed_view (view (snd (kc_PatchProfileStatus kc s p base)))"
proof (cases "fst (kc_PatchProfileStatus kc s p base)")
  case None
  obtain p' where p': "av_Profiles (view (snd (kc_PatchProfileStatus kc s p base))) (meta_key (pr_Meta p)) = Some p'" "pr_Status p' = pr_Status p"
    using patch_profile(1)[OF None] assms(2) by auto
  have "av_Profiles (view (snd (kc_PatchProfileStatus kc s p base))) = (av_Profiles (view s))(meta_key (pr_Meta p) \<mapsto> p')"
    using p'(1) writes_frame(3)[of _ p s base] by (auto simp: fun_eq_iff)
  then show ?thesis
    using assms(1,3) p'(2) unfolding typed_view_def writes_keep by (metis ran_updD)
qed (use assms patch_profile(2) in simp)

lemma typed_patch_proposal:
  assumes "typed_view (view s)" "av_Proposals (view s) (meta_key (xp_Meta p)) = Some base" "typed_proposal_status (xp_Status p)"
  shows "typed_view (view (snd (kc_PatchProposalStatus kc s p base)))"
proof (cases "fst (kc_PatchProposalStatus kc s p base)")
  case None
  obtain p' where p': "av_Proposals (view (snd (kc_PatchProposalStatus kc s p base))) (meta_key (xp_Meta p)) = Some p'" "xp_Status p' = xp_Status p"
    using patch_proposal(1)[OF None] assms(2) by auto
  have "av_Proposals (view (snd (kc_PatchProposalStatus kc s p base))) = (av_Proposals (view s))(meta_key (xp_Meta p) \<mapsto> p')"
    using p'(1) writes_frame(5)[of _ p s base] by (auto simp: fun_eq_iff)
  then show ?thesis
    using assms(1,3) p'(2) unfolding typed_view_def writes_keep by (metis ran_updD)
qed (use assms patch_proposal(2) in simp)

lemma typed_Profile_Reconcile:
  assumes "typed_view (view s)"
  shows "typed_view (view (snd (snd (Profile_Reconcile now kc req acc s))))"
proof -
  obtain r s1 where g: "kc_GetProfile kc s req = (r, s1)" by (cases "kc_GetProfile kc s req")
  have v1: "view s1 = view s" using get_view(2)[of s req] g by simp
  show ?thesis
  proof (cases r)
    case (Inr profile)
    have p: "av_Profiles (view s) req = Some profile" "meta_key (pr_Meta profile) = req"
      using get_profile(1)[of s req profile] get_keyed(2)[of s req profile] g Inr by simp_all
    have typed: "typed_profile_status (pr_Status profile)" by (rule typed_viewD(1)[OF assms p(1)])
    let ?ns = "om_Namespace (pr_Meta profile)" and ?cm = "ConfigMapName (om_Name (pr_Meta profile))"
    obtain e s2 where ens: "EnsureConfigMap kc s1 profile = (e, s2)" by (cases "EnsureConfigMap kc s1 profile")
    obtain sn s3 where gs: "GetSnapshot kc s2 ?ns ?cm = (sn, s3)" by (cases "GetSnapshot kc s2 ?ns ?cm")
    obtain pr s4 where ep: "ensureProposal kc s3 profile = (pr, s4)" by (cases "ensureProposal kc s3 profile")
    have k2: "av_Profiles (view s2) = av_Profiles (view s)" "av_Proposals (view s2) = av_Proposals (view s)" "view s3 = view s2"
      using EnsureConfigMap_keeps[of s1 profile] store_reads_keep(1)[of s2 ?ns ?cm] ens gs v1 by simp_all
    then have t3: "typed_view (view s2)" "typed_view (view s3)" using assms typed_view_same by simp_all
    have t4: "typed_view (view s4)" "av_Profiles (view s4) = av_Profiles (view s)"
      using typed_ensureProposal[OF t3(2), of profile] ep k2 by simp_all
    have patch: "typed_view (view t')"
      if "kc_PatchProfileStatus kc t (profile\<lparr>pr_Status := profile_status now snap phase ?cm ref (pr_Status profile)\<rparr>) profile = (q, t')"
        "typed_view (view t)" "av_Profiles (view t) = av_Profiles (view s)"
        "phase \<in> {PhaseObserving, PhaseProposed, PhaseAwaitingApproval, PhaseEnforced}" for t t' snap phase ref q
      using typed_patch_profile[OF that(2), of "profile\<lparr>pr_Status := profile_status now snap phase ?cm ref (pr_Status profile)\<rparr>" profile]
        typed_profile_written[OF typed that(4)] that p by simp
    show ?thesis
      using t3 t4 k2 profile_phase_typed patch
      by (auto simp: Profile_Reconcile_def g Inr ens gs ep Let_def split: option.split sum.split prod.split)
  qed (simp add: Profile_Reconcile_def g v1 assms)
qed

end

lemma apply_step_phase: "fst (apply_step kc proposal profile cnp s) \<in> {ProposalPhasePendingApproval, ProposalPhaseApplied, ProposalPhaseFailed}"
  by (auto simp: apply_step_def split: prod.split option.split)

context fresh_env
begin

text \<open>What follows the reading of the snapshot.\<close>

lemma typed_proposal_tail:
  assumes "typed_view (view s)" "av_Proposals (view s) (meta_key (xp_Meta proposal)) = Some proposal"
    and "res = Generate yaml ordF ordP name ns policy snap"
  shows "typed_view (view (snd (case SavePolicyYAML kc s ns cm (gr_YAML res) of
            (Some err, s) \<Rightarrow> ((requeue_after 10, Some err), s)
          | (None, s) \<Rightarrow>
          (let s = export_step os proposal profile (gr_YAML res) s; (phase, s) = apply_step kc proposal profile (gr_CNP res) s;
               proposal' = proposal\<lparr>xp_Status := proposal_status now res phase cm (xp_Status proposal)\<rparr>
           in case kc_PatchProposalStatus kc s proposal' proposal of
                (Some err, s) \<Rightarrow> ((requeue_after 10, Some err), s)
              | (None, s) \<Rightarrow> ((requeue_after 30, None), s)))))"
proof -
  obtain e s4 where g3: "SavePolicyYAML kc s ns cm (gr_YAML res) = (e, s4)" by (cases "SavePolicyYAML kc s ns cm (gr_YAML res)")
  define s5 where "s5 = export_step os proposal profile (gr_YAML res) s4"
  obtain phase s6 where g5: "apply_step kc proposal profile (gr_CNP res) s5 = (phase, s6)"
    by (cases "apply_step kc proposal profile (gr_CNP res) s5")
  have k: "av_Profiles (view s4) = av_Profiles (view s)" "av_Proposals (view s4) = av_Proposals (view s)"
    "av_Profiles (view s6) = av_Profiles (view s)" "av_Proposals (view s6) = av_Proposals (view s)"
    using SavePolicyYAML_keeps(1,2)[of s ns cm "gr_YAML res"] apply_step_keeps(2,3)[of proposal profile "gr_CNP res" s5] g3 g5
    by (simp_all add: s5_def export_step_view)
  then have t: "typed_view (view s4)" "typed_view (view s6)" using assms(1) typed_view_same by metis+
  let ?xp = "proposal\<lparr>xp_Status := proposal_status now res phase cm (xp_Status proposal)\<rparr>"
  have "phase \<in> {ProposalPhasePendingApproval, ProposalPhaseApplied, ProposalPhaseFailed}"
    using apply_step_phase[of kc proposal profile "gr_CNP res" s5] g5 by simp
  then have "typed_view (view (snd (kc_PatchProposalStatus kc s6 ?xp proposal)))"
    using typed_patch_proposal[OF t(2), of ?xp proposal] typed_proposal_written[OF typed_viewD(2)[OF assms(1,2)] _ assms(3)] k(4) assms(2) by simp
  then show ?thesis
    using t(1) by (auto simp: g3 g5 Let_def simp flip: s5_def split: option.split prod.split)
qed

lemma typed_Proposal_Reconcile:
  assumes "typed_view (view s)"
  shows "typed_view (view (snd (Proposal_Reconcile yaml ordF ordP now kc os req s)))"
proof -
  obtain r0 s1 where g0: "kc_GetProposal kc s req = (r0, s1)" by (cases "kc_GetProposal kc s req")
  have v1: "view s1 = view s" using get_view(3)[of s req] g0 by simp
  show ?thesis
  proof (cases r0)
    case p: (Inr proposal)
    have x: "av_Proposals (view s) (meta_key (xp_Meta proposal)) = Some proposal"
      using get_proposal(1)[of s req proposal] get_keyed(3)[of s req proposal] g0 p by simp
    let ?ns = "om_Namespace (xp_Meta proposal)"
    let ?pk = "(?ns, xs_ProfileRef_Name (xp_Spec proposal))"
    obtain r1 s2 where g1: "kc_GetProfile kc s1 ?pk = (r1, s2)" by (cases "kc_GetProfile kc s1 ?pk")
    have v2: "view s2 = view s" using get_view(2)[of s1 ?pk] g1 v1 by simp
    show ?thesis
    proof (cases r1)
      case q: (Inr profile)
      let ?cm = "ConfigMapName (om_Name (pr_Meta profile))"
      obtain r2 s3 where g2: "GetSnapshot kc s2 ?ns ?cm = (r2, s3)" by (cases "GetSnapshot kc s2 ?ns ?cm")
      have v3: "view s3 = view s" using store_reads_keep(1)[of s2 ?ns ?cm] g2 v2 by simp
      have t3: "typed_view (view s3)" "av_Proposals (view s3) (meta_key (xp_Meta proposal)) = Some proposal"
        using v3 assms x by simp_all
      show ?thesis
      proof (cases r2)
        case (Inr snap)
        show ?thesis
          using typed_proposal_tail[OF t3 refl, where yaml = yaml and ordF = ordF and ordP = ordP and name = "om_Name (pr_Meta profile)"
            and ns = ?ns and policy = "ps_Policy (pr_Spec profile)" and snap = snap and cm = ?cm and profile = profile and now = now]
          unfolding Proposal_Reconcile_def g0 p g1 q g2 Inr Let_def prod.case sum.case .
      qed (simp add: Proposal_Reconcile_def g0 p g1 q g2 v3 assms)
    qed (simp add: Proposal_Reconcile_def g0 p g1 v2 assms)
  qed (simp add: Proposal_Reconcile_def g0 v1 assms)
qed

end

subsection \<open>Properties\<close>



end
