(* ===== verification/Flow_Attribution.thy ===== *)
theory Flow_Attribution
  imports Flow_Sources Profile_Controller
begin

text \<open>
  From a flow to the baseline of a profile. The accumulator files a flow under the workload
  that its source names, and saves the entries of the workloads that the profile controller
  has registered. The mock source names workloads as profiles do; the Hubble source
  names the pod, so that its flows never reach the baseline of a profile whose target is
  not a pod.
\<close>

subsection \<open>The workload of a Hubble flow\<close>

definition pod_flow :: "Flow \<Rightarrow> bool" where
  "pod_flow f \<longleftrightarrow> fl_SourceWorkload f = ''Pod/'' @ fl_SourcePod f"

text \<open>What holds of a result, if there is one.\<close>

definition returns_only :: "('a \<Rightarrow> bool) \<Rightarrow> 'a comp \<Rightarrow> bool" where
  "returns_only P m \<longleftrightarrow> (\<forall>x. m = ret x \<longrightarrow> P x)"

lemma returns_ret [simp]: "returns_only P (ret x) \<longleftrightarrow> P x"
  by (simp add: returns_only_def)

lemma returns_bind: "(\<And>x. Q x \<Longrightarrow> returns_only P (f x)) \<Longrightarrow> returns_only Q m \<Longrightarrow> returns_only P (go_bind m f)"
  by (auto simp: returns_only_def go_bind_ret)

lemma returns_bind_any: "(\<And>x y. returns_only P (f (x, y))) \<Longrightarrow> returns_only P (go_bind m f)"
  by (rule returns_bind[where Q = "\<lambda>_. True"]) (auto simp: returns_only_def)

lemma pod_flow_upd [simp]:
  "pod_flow (f\<lparr>fl_DestPort := p\<rparr>) = pod_flow f" "pod_flow (f\<lparr>fl_Protocol := x\<rparr>) = pod_flow f"
  "pod_flow (f\<lparr>fl_DestFQDN := x\<rparr>) = pod_flow f" "pod_flow (f\<lparr>fl_Verdict := x\<rparr>) = pod_flow f"
  by (simp_all add: pod_flow_def)

lemma decodeL4_pod: "pod_flow f \<Longrightarrow> returns_only pod_flow (decodeL4 l4 f)"
  unfolding decodeL4_def by (auto intro!: returns_bind_any)

lemma decodeDNS_pod: "pod_flow f \<Longrightarrow> returns_only pod_flow (decodeDNS dns f)"
  unfolding decodeDNS_def by (auto intro!: returns_bind_any)

lemma decodeFlow_pod: "returns_only (\<lambda>(f, ok). pod_flow f) (decodeFlow now data)"
  unfolding decodeFlow_def
  by (rule returns_bind_any, simp only: prod.case)+
    (auto intro!: returns_bind[OF _ decodeL4_pod] returns_bind[OF _ decodeDNS_pod] simp: pod_flow_def)

lemma observe_message_pod: "observe_message ns now data = ret (Some f) \<Longrightarrow> pod_flow f"
  using decodeFlow_pod
  by (fastforce simp: observe_message_def decodeGetFlowsResponse_def go_bind_ret returns_only_def split: if_splits)

lemma observe_loop_pod: "observe_loop ns evs = ret (fs, res) \<Longrightarrow> f \<in> set fs \<Longrightarrow> pod_flow f"
proof (induction ns evs arbitrary: fs res rule: observe_loop.induct)
  case (3 ns data now cancelled evs)
  then obtain r where r: "observe_message ns now data = ret r" by (auto simp: go_bind_ret)
  show ?case
  proof (cases r)
    case None
    then show ?thesis using 3 r by auto
  next
    case (Some g)
    have "pod_flow g" using observe_message_pod r Some by simp
    moreover have "pod_flow f" if "f \<noteq> g"
      using 3(2) 3(3,4) r Some that by (auto simp: go_bind_ret split: if_splits)
    ultimately show ?thesis by (cases "f = g") auto
  qed
qed (auto split: if_splits)

lemma Hubble_Observe_pod: "Hubble_Observe src g = ret (fs, res) \<Longrightarrow> f \<in> set fs \<Longrightarrow> pod_flow f"
  using observe_loop_pod by (auto simp: Hubble_Observe_def Let_def split: option.splits)

subsection \<open>The workload of a profile\<close>

text \<open>Names of Kubernetes objects and kinds have no slash.\<close>

definition slash_free :: "string \<Rightarrow> bool" where
  "slash_free s \<longleftrightarrow> CHR ''/'' \<notin> set s"

definition named_target :: "EgressProfile \<Rightarrow> bool" where
  "named_target p \<longleftrightarrow> slash_free (om_Namespace (pr_Meta p)) \<and> slash_free (tr_Kind (ps_TargetRef (pr_Spec p)))
     \<and> slash_free (tr_Name (ps_TargetRef (pr_Spec p)))"

lemma key_not_pod:
  assumes "named_target p" "tr_Kind (ps_TargetRef (pr_Spec p)) \<noteq> ''Pod''"
  shows "workload_key p \<noteq> x @ ''/'' @ ''Pod/'' @ y"
proof
  let ?ns = "om_Namespace (pr_Meta p)" and ?kind = "tr_Kind (ps_TargetRef (pr_Spec p))" and ?name = "tr_Name (ps_TargetRef (pr_Spec p))"
  let ?count = "\<lambda>s. length (filter (\<lambda>c. c = CHR ''/'') s)"
  assume eq: "workload_key p = x @ ''/'' @ ''Pod/'' @ y"
  have zero: "?count s = 0 \<longleftrightarrow> CHR ''/'' \<notin> set s" for s by (auto simp: filter_empty_conv)
  have "?count (workload_key p) = ?count x + 2 + ?count y" unfolding eq by simp
  moreover have "?count (workload_key p) = 2"
    using assms(1) zero by (simp add: workload_key_def named_target_def slash_free_def)
  ultimately have "CHR ''/'' \<notin> set x" "CHR ''/'' \<notin> set y" using zero by auto
  moreover have "?ns @ CHR ''/'' # (?kind @ CHR ''/'' # ?name) = x @ CHR ''/'' # (''Pod'' @ CHR ''/'' # y)"
    using eq by (simp add: workload_key_def)
  ultimately have "?kind @ CHR ''/'' # ?name = ''Pod'' @ CHR ''/'' # y"
    using assms(1) append_sep_eq[of "CHR ''/''" ?ns x] by (auto simp: named_target_def slash_free_def)
  then have "?kind = ''Pod''"
    using assms(1) append_sep_eq[of "CHR ''/''" ?kind "''Pod''"] by (auto simp: named_target_def slash_free_def)
  then show False using assms(2) by simp
qed

subsection \<open>An accumulator fed by Hubble\<close>

definition pod_key :: "string \<Rightarrow> bool" where
  "pod_key wk \<longleftrightarrow> (\<exists>x y. wk = x @ ''/'' @ ''Pod/'' @ y)"

text \<open>All entries belong to pods; no pod is registered.\<close>

definition pods_unregistered :: "Accumulator \<Rightarrow> bool" where
  "pods_unregistered a \<longleftrightarrow> list_all (\<lambda>k. pod_key (dk_workload k)) (map fst (acc_entries a))
     \<and> list_all (\<lambda>wk. \<not> pod_key wk) (map fst (acc_workloadNS a))"

lemma pods_ingest:
  assumes "pods_unregistered a" "pod_flow f"
  shows "pods_unregistered (ingest f a)"
proof -
  have "pod_key (dk_workload (flow_key f))" using assms(2) by (auto simp: flow_key_def pod_flow_def pod_key_def)
  then show ?thesis
    using assms(1) unfolding pods_unregistered_def ingest_def Let_def by (simp add: AList.update_keys split: option.split)
qed

lemma pods_register:
  "pods_unregistered a \<Longrightarrow> \<not> pod_key wk \<Longrightarrow> pods_unregistered (RegisterWorkload wk ns cm a)"
  unfolding pods_unregistered_def by (simp add: RegisterWorkload_def AList.update_keys)

lemma pods_purge:
  assumes "map_order ord" "acc_inv a" "pods_unregistered a"
  shows "pods_unregistered (purge ord now a)"
  using assms purge_filter[OF assms(1), of a now] by (auto simp: pods_unregistered_def acc_inv_def list_all_iff)

lemma pods_bumped: "pods_unregistered a \<Longrightarrow> pods_unregistered (bumped a)"
  by (auto simp: pods_unregistered_def bumped_def list_all_iff)

lemma save_loop_unregistered:
  "(\<And>wk. wk \<in> set wks \<Longrightarrow> gget (acc_workloadNS a) wk = []) \<Longrightarrow> save_loop save clock a truncated bw wks s = s"
  by (induction wks) (simp_all add: Let_def)

lemma flush_pods:
  assumes "map_order ord" "map_order ordW" "acc_inv a" "pods_unregistered a"
  shows "flushSnapshots save ord ordW clock a s = (bumped a, s)"
proof -
  have "gget (acc_workloadNS a) wk = []" if "wk \<in> set (ordW (map fst (flush_groups ord a)))" for wk
  proof -
    have "wk \<in> set (map fst (flush_groups ord a))" using that map_orderD(1)[OF assms(2)] by simp
    then obtain k e where "(k, e) \<in> set (acc_entries a)" "dk_workload k = wk"
      using flush_groups_key[OF assms(1,3)] by auto
    then have "pod_key wk" using assms(4) by (force simp: pods_unregistered_def list_all_iff)
    then have "wk \<notin> fst ` set (acc_workloadNS a)" using assms(4) by (auto simp: pods_unregistered_def list_all_iff)
    then show ?thesis by (simp add: gget_def map_of_eq_None_iff[THEN iffD2])
  qed
  then show ?thesis unfolding flushSnapshots_eq[OF assms(1,3)] by (simp add: save_loop_unregistered)
qed

lemma start_loop_pods:
  assumes "map_order ord" "map_order ordW" "acc_inv a" "pods_unregistered a"
    and "\<And>f. FlowReceived f \<in> set evs \<Longrightarrow> pod_flow f"
    and "\<And>wk ns cm. Registered wk ns cm \<in> set evs \<Longrightarrow> \<not> pod_key wk"
  shows "snd (start_loop save ord ordW evs a s) = s"
  using assms
proof (induction save ord ordW evs a s rule: start_loop.induct)
  case (4 save ord ordW now clock evs a s)
  let ?p = "purge ord now a"
  note p = acc_inv_purge[OF 4(2,4), of now] pods_purge[OF 4(2,4,5), of now]
  note f = flush_pods[OF 4(2,3) p, of save clock s]
  show ?case
    using 4(1)[OF f[symmetric] refl 4(2,3) acc_inv_bumped[OF p(1)] pods_bumped[OF p(2)]] 4(6,7) by (simp add: f)
next
  case (5 save ord ordW wk ns cm evs a s)
  have "\<not> pod_key wk" by (rule 5(7)[of wk ns cm]) simp
  moreover have "\<not> pod_key wk'" if "Registered wk' ns' cm' \<in> set evs" for wk' ns' cm'
    by (rule 5(7)[of wk' ns' cm']) (simp add: that)
  ultimately show ?case using 5(1-6) by (simp add: acc_inv_Register pods_register)
qed (simp_all add: acc_inv_ingest pods_ingest)

subsection \<open>Properties\<close>

text \<open>C16: Hubble flows never reach the baseline of a profile whose target is not a pod. Whatever
  bytes the relay sends, when the accumulator is fed by the Hubble source and the registered
  workloads are those of profiles with a target of another kind (a Deployment, say; names
  and kinds have no slash), then no run of the accumulator writes anything to the store.\<close>

theorem hubble_never_fills_baseline:
  assumes "map_order ord" "map_order ordW" "Hubble_Observe src g = ret (fs, res)"
    and "\<And>f. FlowReceived f \<in> set evs \<Longrightarrow> f \<in> set fs"
    and "\<And>wk ns cm. Registered wk ns cm \<in> set evs \<Longrightarrow>
      \<exists>p. wk = workload_key p \<and> named_target p \<and> tr_Kind (ps_TargetRef (pr_Spec p)) \<noteq> ''Pod''"
    and "Start save ord ordW evs (NewAccumulator w i) s = Returns (a', s')"
  shows "s' = s"
proof -
  have "pods_unregistered (NewAccumulator w i)" by (simp add: pods_unregistered_def NewAccumulator_def)
  moreover have "pod_flow f" if "FlowReceived f \<in> set evs" for f
    using Hubble_Observe_pod[OF assms(3)] assms(4) that by blast
  moreover have "\<not> pod_key wk" if "Registered wk ns cm \<in> set evs" for wk ns cm
    using key_not_pod assms(5)[OF that] by (auto simp: pod_key_def)
  ultimately have "snd (start_loop save ord ordW evs (NewAccumulator w i) s) = s"
    by (intro start_loop_pods[OF assms(1,2) acc_inv_New])
  then show ?thesis using assms(6) by (auto simp: Start_def split: if_splits)
qed

definition deployment_profile :: EgressProfile where
  "deployment_profile = \<lparr>pr_Meta = \<lparr>om_Name = ''x'', om_Namespace = ''p'', om_UID = [], om_ResourceVersion = [], om_Labels = [], om_OwnerReferences = []\<rparr>,
     pr_Spec = \<lparr>ps_TargetRef = \<lparr>tr_APIVersion = ''apps/v1'', tr_Kind = ''Deployment'', tr_Name = ''a''\<rparr>, ps_Mode = ModeEnforce,
       ps_BaselineWindow = ''24h'', ps_Policy = \<lparr>pc_AllowDNS = True, pc_AllowKubeSystem = True, pc_GeneratedPolicyName = []\<rparr>,
       ps_GitOps = \<lparr>gc_Enabled = False, gc_OutputPath = []\<rparr>\<rparr>,
     pr_Status = \<lparr>pt_Phase = [], pt_Conditions = [], pt_ObservedDestinationsCount = 0, pt_Truncated = False,
       pt_LastObservationTime = None, pt_BaselineConfigMapRef = [], pt_ProposalRef = [],
       pt_RiskSummary = \<lparr>rs_Low = 0, rs_Medium = 0, rs_High = 0\<rparr>, pt_Message = []\<rparr>\<rparr>"

theorem hubble_never_fills_baseline_witness:
  "\<exists>a'. Start (\<lambda>s ns n snap. (None, snap # s)) rev rev
     [Registered (workload_key deployment_profile) ''p'' ''x-baseline'', FlowReceived (flow_of 5 demo_hubble), TickerFired 10 (\<lambda>_. 10)]
     (NewAccumulator 100 30) [] = Returns (a', [])"
proof -
  let ?g = "\<lparr>gs_Dial = None, gs_NewStream = None, gs_SendMsg = (\<lambda>_. None), gs_CloseSend = None,
      gs_Stream = [Received (encode_response demo_hubble) 5 False, RecvFails True False (ApiError ''EOF'')]\<rparr>"
  let ?evs = "[Registered (workload_key deployment_profile) ''p'' ''x-baseline'', FlowReceived (flow_of 5 demo_hubble), TickerFired 10 (\<lambda>_. 10)]"
  have h: "Hubble_Observe (NewHubbleGRPCFlowSource ''relay:80'' ''p'') ?g = ret ([flow_of 5 demo_hubble], Some None)"
    by (simp add: Hubble_Observe_def NewHubbleGRPCFlowSource_def observe_message_encoded demo_hubble_ok)
  have p: "\<exists>p. wk = workload_key p \<and> named_target p \<and> tr_Kind (ps_TargetRef (pr_Spec p)) \<noteq> ''Pod''"
    if "Registered wk ns cm \<in> set ?evs" for wk ns cm
    using that by (intro exI[of _ deployment_profile]) (simp add: deployment_profile_def named_target_def slash_free_def)
  obtain a' s' where r: "Start (\<lambda>s ns n snap. (None, snap # s)) rev rev ?evs (NewAccumulator 100 30) [] = Returns (a', s')"
    by (cases "start_loop (\<lambda>s ns n snap. (None :: go_error option, snap # s)) rev rev ?evs (NewAccumulator 100 30) []")
      (simp add: Start_def NewAccumulator_def)
  have "s' = []" by (rule hubble_never_fills_baseline[OF _ _ h _ p r]) simp_all
  then show ?thesis using r by simp
qed

end
