(* ===== verification/Flush_Race.thy ===== *)
theory Flush_Race
  imports Accumulator_Props Profile_Controller
begin

text \<open>
  \<^verbatim>\<open>flushSnapshots\<close> beside \<^verbatim>\<open>RegisterWorkload\<close>. The flush groups the entries under the mutex and
  then reads the two registration maps without it, while a reconciler may be writing them. Here
  every access to a map is a step of its own, and the steps of the accumulator's goroutine and
  of a registration interleave. It is shown that the outcome is that of a simpler machine, in
  which a registration is one step, each workload is saved in one step, and a save always goes
  to the workload's own namespace.
\<close>

subsection \<open>Steps\<close>

text \<open>Where the accumulator's goroutine is: in the \<^verbatim>\<open>select\<close>, between purge and flush, before the
  next workload of the second loop, or between the reads of the two maps (with the
  workload and the namespace read). The groups and the truncation flag are local variables.\<close>

datatype flush_pc =
    Idle
  | Purged
  | Saving "(string \<times> DestEntry list) list" bool "string list"
  | ReadNS "(string \<times> DestEntry list) list" bool string string "string list"

text \<open>Where a registration is: not running, or with the mutex held and the first map written.\<close>

datatype reg_pc = Free | Half string string

type_synonym 's race_state = "Accumulator \<times> flush_pc \<times> reg_pc \<times> 's"

text \<open>The keys of workloads start with their namespace.\<close>

definition key_namespace :: "string \<Rightarrow> string" where
  "key_namespace wk = takeWhile (\<lambda>c. c \<noteq> CHR ''/'') wk"

lemma key_namespace_workload:
  "CHR ''/'' \<notin> set (om_Namespace (pr_Meta p)) \<Longrightarrow> key_namespace (workload_key p) = om_Namespace (pr_Meta p)"
  by (simp add: key_namespace_def workload_key_def takeWhile_append)

definition snapshot_of :: "(string \<times> DestEntry list) list \<Rightarrow> bool \<Rightarrow> string \<Rightarrow> int \<Rightarrow> Snapshot" where
  "snapshot_of byWorkload truncated wk now =
     \<lparr>sn_WorkloadKey = wk, sn_Destinations = (case map_of byWorkload wk of Some ds \<Rightarrow> ds | None \<Rightarrow> []),
      sn_Truncated = truncated, sn_GeneratedAt = now\<rparr>"

definition save_unless_empty :: "'s save_fn \<Rightarrow> string \<Rightarrow> string \<Rightarrow> Snapshot \<Rightarrow> 's \<Rightarrow> 's" where
  "save_unless_empty save ns cmName snap s = (if ns = [] \<or> cmName = [] then s else snd (save s ns cmName snap))"

inductive race_step :: "'s save_fn \<Rightarrow> 's race_state \<Rightarrow> 's race_state \<Rightarrow> bool" for save where
  ingest: "race_step save (a, Idle, Free, s) (ingest f a, Idle, Free, s)"
| purge: "map_order ord \<Longrightarrow> race_step save (a, Idle, Free, s) (purge ord now a, Purged, Free, s)"
| group: "map_order ord \<Longrightarrow> map_order ordW \<Longrightarrow> group_loop (ord (map fst (acc_entries a))) (acc_entries a) [] = (entries, bw) \<Longrightarrow>
    race_step save (a, Purged, Free, s)
      (a\<lparr>acc_entries := entries\<rparr>, Saving bw (length entries \<ge> maxDestinations) (ordW (map fst bw)), Free, s)"
| read_ns: "race_step save (a, Saving bw truncated (wk # wks), r, s)
    (a, ReadNS bw truncated wk (gget (acc_workloadNS a) wk) wks, r, s)"
| read_cm: "race_step save (a, ReadNS bw truncated wk ns wks, r, s)
    (a, Saving bw truncated wks, r, save_unless_empty save ns (gget (acc_configMapName a) wk) (snapshot_of bw truncated wk now) s)"
| finish: "race_step save (a, Saving bw truncated [], r, s) (a, Idle, r, s)"
| register: "race_step save (a, pc, Free, s)
    (a\<lparr>acc_workloadNS := AList.update wk (key_namespace wk) (acc_workloadNS a)\<rparr>, pc, Half wk cm, s)"
| registered: "race_step save (a, pc, Half wk cm, s)
    (a\<lparr>acc_configMapName := AList.update wk cm (acc_configMapName a)\<rparr>, pc, Free, s)"

inductive_cases race_stepE: "race_step save (a, pc, r, s) y"

text \<open>The simpler machine: the ConfigMap registered for a workload is read once, the namespace is the
  workload's own.\<close>

inductive calm_step :: "'s save_fn \<Rightarrow> Accumulator \<times> flush_pc \<times> 's \<Rightarrow> Accumulator \<times> flush_pc \<times> 's \<Rightarrow> bool" for save where
  ingest: "calm_step save (a, Idle, s) (ingest f a, Idle, s)"
| purge: "map_order ord \<Longrightarrow> calm_step save (a, Idle, s) (purge ord now a, Purged, s)"
| group: "map_order ord \<Longrightarrow> map_order ordW \<Longrightarrow> group_loop (ord (map fst (acc_entries a))) (acc_entries a) [] = (entries, bw) \<Longrightarrow>
    calm_step save (a, Purged, s)
      (a\<lparr>acc_entries := entries\<rparr>, Saving bw (length entries \<ge> maxDestinations) (ordW (map fst bw)), s)"
| save: "calm_step save (a, Saving bw truncated (wk # wks), s)
    (a, Saving bw truncated wks, save_unless_empty save (key_namespace wk) (gget (acc_configMapName a) wk) (snapshot_of bw truncated wk now) s)"
| finish: "calm_step save (a, Saving bw truncated [], s) (a, Idle, s)"
| register: "calm_step save (a, pc, s) (RegisterWorkload wk (key_namespace wk) cm a, pc, s)"

abbreviation race_steps :: "'s save_fn \<Rightarrow> 's race_state \<Rightarrow> 's race_state \<Rightarrow> bool" where
  "race_steps save \<equiv> (race_step save)\<^sup>*\<^sup>*"

abbreviation calm_steps :: "'s save_fn \<Rightarrow> Accumulator \<times> flush_pc \<times> 's \<Rightarrow> Accumulator \<times> flush_pc \<times> 's \<Rightarrow> bool" where
  "calm_steps save \<equiv> (calm_step save)\<^sup>*\<^sup>*"

subsection \<open>Simulation\<close>

text \<open>A workload with a registered ConfigMap is registered with its namespace.\<close>

definition home_inv :: "Accumulator \<Rightarrow> bool" where
  "home_inv a \<longleftrightarrow> (\<forall>wk. gget (acc_workloadNS a) wk \<in> {[], key_namespace wk})
     \<and> (\<forall>wk. gget (acc_configMapName a) wk \<noteq> [] \<longrightarrow> gget (acc_workloadNS a) wk = key_namespace wk)"

text \<open>The simpler machine is behind by a half-done registration; it skips a workload as soon as the
  namespace read is empty and saves it when the second map is read.\<close>

fun calm_acc :: "reg_pc \<Rightarrow> Accumulator \<Rightarrow> Accumulator \<Rightarrow> bool" where
  "calm_acc Free a b \<longleftrightarrow> a = b"
| "calm_acc (Half wk cm) a b \<longleftrightarrow> a = b\<lparr>acc_workloadNS := AList.update wk (key_namespace wk) (acc_workloadNS b)\<rparr>"

fun calm_pc :: "flush_pc \<Rightarrow> flush_pc \<Rightarrow> bool" where
  "calm_pc (ReadNS bw truncated wk ns wks) q \<longleftrightarrow>
     (if ns = [] then q = Saving bw truncated wks else ns = key_namespace wk \<and> q = Saving bw truncated (wk # wks))"
| "calm_pc p q \<longleftrightarrow> q = p"

definition sim :: "'s race_state \<Rightarrow> Accumulator \<times> flush_pc \<times> 's \<Rightarrow> bool" where
  "sim x y \<longleftrightarrow> (case x of (a, pc, r, s) \<Rightarrow> case y of (b, q, t) \<Rightarrow> calm_acc r a b \<and> calm_pc pc q \<and> t = s \<and> home_inv b)"

lemma gget_update [simp]: "gget (AList.update k v m) k' = (if k' = k then v else gget m k')"
  by (simp add: gget_def update_conv')

lemma ingest_maps [simp]: "acc_workloadNS (ingest f a) = acc_workloadNS a" "acc_configMapName (ingest f a) = acc_configMapName a"
  by (simp_all add: ingest_def Let_def split: option.split)

lemma purge_maps [simp]: "acc_workloadNS (purge ord now a) = acc_workloadNS a" "acc_configMapName (purge ord now a) = acc_configMapName a"
  by (simp_all add: purge_def Let_def)

lemma home_inv_entries [simp]:
  "home_inv (ingest f a) = home_inv a" "home_inv (purge ord now a) = home_inv a" "home_inv (a\<lparr>acc_entries := es\<rparr>) = home_inv a"
  by (simp_all add: home_inv_def)

lemma home_inv_New: "home_inv (NewAccumulator w i)"
  by (simp add: home_inv_def NewAccumulator_def gget_def)

lemma home_inv_register: "home_inv a \<Longrightarrow> home_inv (RegisterWorkload wk (key_namespace wk) cm a)"
  by (simp add: home_inv_def RegisterWorkload_def)

lemma sim_read_ns:
  assumes "calm_acc r a b" "home_inv b" "q = Saving bw truncated (wk # wks)"
  shows "\<exists>q'. calm_steps save (b, q, s) (b, q', s) \<and> calm_pc (ReadNS bw truncated wk (gget (acc_workloadNS a) wk) wks) q'"
proof (cases "gget (acc_workloadNS a) wk = []")
  case True
  then have "key_namespace wk = [] \<or> gget (acc_workloadNS b) wk = []"
    using assms(1) by (cases r) (auto split: if_splits)
  then have "save_unless_empty save (key_namespace wk) (gget (acc_configMapName b) wk) (snapshot_of bw truncated wk now) s = s" for now
    using assms(2) by (auto simp: save_unless_empty_def home_inv_def)
  then show ?thesis
    using True calm_step.save[of save b bw truncated wk wks s] by (auto simp: assms(3))
next
  case False
  then have "gget (acc_workloadNS a) wk = key_namespace wk"
    using assms(1,2) by (cases r) (auto simp: home_inv_def split: if_splits)
  then show ?thesis using False by (auto simp: assms(3))
qed

lemma sim_step:
  assumes "race_step save x x'" "sim x y"
  shows "\<exists>y'. calm_steps save y y' \<and> sim x' y'"
  using assms
proof (cases rule: race_step.cases)
  case (ingest a s f)
  then show ?thesis using assms(2) calm_step.ingest[of save a s f] by (auto simp: sim_def)
next
  case (purge ord a s now)
  then show ?thesis using assms(2) calm_step.purge[of ord save a s now] by (auto simp: sim_def)
next
  case (group ord ordW a entries bw s)
  then show ?thesis using assms(2) calm_step.group[OF group(3-5), of save s] by (auto simp: sim_def)
next
  case (read_ns a bw truncated wk wks r s)
  then show ?thesis
    using assms(2) sim_read_ns[of r a _ _ bw truncated wk wks save s] by (fastforce simp: sim_def split: prod.splits)
next
  case (read_cm a bw truncated wk ns wks r s now)
  then obtain b q where y: "y = (b, q, s)" "calm_acc r a b" "calm_pc (ReadNS bw truncated wk ns wks) q" "home_inv b"
    using assms(2) by (auto simp: sim_def split: prod.splits)
  have "acc_configMapName a = acc_configMapName b" using y(2) by (cases r) auto
  then have "calm_steps save y (b, Saving bw truncated wks, save_unless_empty save ns (gget (acc_configMapName a) wk) (snapshot_of bw truncated wk now) s)"
    using y calm_step.save[of save b bw truncated wk wks s now] by (cases "ns = []") (auto simp: save_unless_empty_def[of _ "[]"])
  then show ?thesis using read_cm y by (auto simp: sim_def)
next
  case (finish a bw truncated r s)
  then show ?thesis using assms(2) calm_step.finish[of save _ bw truncated s] by (fastforce simp: sim_def split: prod.splits)
next
  case (register a pc s wk cm)
  then show ?thesis using assms(2) by (auto simp: sim_def)
next
  case (registered a pc wk cm s)
  then obtain b q where y: "y = (b, q, s)" "calm_acc (Half wk cm) a b" "calm_pc pc q" "home_inv b"
    using assms(2) by (auto simp: sim_def split: prod.splits)
  then have "a\<lparr>acc_configMapName := AList.update wk cm (acc_configMapName a)\<rparr> = RegisterWorkload wk (key_namespace wk) cm b"
    by (simp add: RegisterWorkload_def)
  then show ?thesis
    using registered y home_inv_register[OF y(4), of wk cm] calm_step.register[of save b q s wk cm] by (auto simp: sim_def)
qed

lemma sim_steps:
  assumes "race_steps save x x'" "sim x y"
  shows "\<exists>y'. calm_steps save y y' \<and> sim x' y'"
  using assms
proof (induction rule: rtranclp_induct)
  case (step x' x'')
  then obtain y' where "calm_steps save y y'" "sim x' y'" by blast
  then show ?case using sim_step[OF step.hyps(2)] by (meson rtranclp_trans)
qed blast

text \<open>The atomic flush of the accumulator's model is the run without a registration in between.\<close>

lemma save_loop_one:
  assumes "home_inv a"
  shows "save_loop save (\<lambda>_. now) a truncated bw (wk # wks) s =
    save_loop save (\<lambda>_. now) a truncated bw wks (save_unless_empty save (key_namespace wk) (gget (acc_configMapName a) wk) (snapshot_of bw truncated wk now) s)"
  using assms by (auto simp: Let_def save_unless_empty_def snapshot_of_def home_inv_def)

lemma calm_saves:
  assumes "home_inv a"
  shows "calm_steps save (a, Saving bw truncated wks, s) (a, Idle, save_loop save (\<lambda>_. now) a truncated bw wks s)"
proof (induction wks arbitrary: s)
  case (Cons wk wks)
  show ?case
    using converse_rtranclp_into_rtranclp[OF calm_step.save Cons.IH] by (simp only: save_loop_one[OF assms])
qed (auto intro: calm_step.finish)

lemma calm_flush:
  assumes "map_order ord" "map_order ordW" "home_inv a"
  shows "calm_steps save (a, Purged, s) (case flushSnapshots save ord ordW (\<lambda>_. now) a s of (a', s') \<Rightarrow> (a', Idle, s'))"
proof -
  obtain entries bw where g: "group_loop (ord (map fst (acc_entries a))) (acc_entries a) [] = (entries, bw)"
    by (cases "group_loop (ord (map fst (acc_entries a))) (acc_entries a) []")
  have "home_inv (a\<lparr>acc_entries := entries\<rparr>)" using assms(3) by simp
  then show ?thesis
    using converse_rtranclp_into_rtranclp[OF calm_step.group[OF assms(1,2) g] calm_saves] by (simp add: flushSnapshots_def g Let_def)
qed

subsection \<open>Properties\<close>


text \<open>A run with a registration inside the flush: the flush has read the empty namespace before the
  registration and the ConfigMap's name after it, and skips the workload.\<close>

definition race_flow :: Flow where
  "race_flow = zero_Flow\<lparr>fl_SourceNamespace := ''p'', fl_SourceWorkload := ''Deployment/a'', fl_Timestamp := 5\<rparr>"

abbreviation race_key :: string where
  "race_key \<equiv> ''p/Deployment/a''"

lemma race_group:
  "group_loop (rev (map fst (acc_entries (ingest race_flow (NewAccumulator 100 30)))))
     (acc_entries (ingest race_flow (NewAccumulator 100 30))) [] =
   ([(flow_key race_flow, bump (new_entry race_flow))], [(race_key, [bump (new_entry race_flow)])])"
  by (simp add: ingest_def NewAccumulator_def Let_def maxDestinations_def bump_def flow_key_def race_flow_def)


text \<open>The race itself can occur: the flush is about to read a map while a registration, which holds the
  mutex, is writing. Go's runtime may then stop the process.\<close>

lemma flush_race_occurs:
  "\<exists>a bw wk wks cm. race_steps save (NewAccumulator 100 30, Idle, Free, s) (a, Saving bw False (wk # wks), Half wk cm, s)"
proof -
  let ?a = "ingest race_flow (NewAccumulator 100 30)"
  have "purge rev 10 ?a = ?a"
    by (simp add: purge_def ingest_def NewAccumulator_def Let_def maxDestinations_def new_entry_def race_flow_def)
  then have "race_steps save (NewAccumulator 100 30, Idle, Free, s) (?a, Purged, Free, s)"
    using race_step.ingest[of save "NewAccumulator 100 30" s race_flow] race_step.purge[of rev save ?a s 10]
    by (simp add: rtranclp.rtrancl_into_rtrancl[OF r_into_rtranclp])
  moreover have "race_step save (?a, Purged, Free, s) (?a\<lparr>acc_entries := [(flow_key race_flow, bump (new_entry race_flow))]\<rparr>,
      Saving [(race_key, [bump (new_entry race_flow)])] False [race_key], Free, s)"
    using race_step.group[of rev rev ?a _ _ save s] race_group by (simp add: maxDestinations_def)
  ultimately show ?thesis by (meson race_step.register rtranclp.rtrancl_into_rtrancl)
qed

end
