(* ===== verification/Call_Traces.thy ===== *)
theory Call_Traces
  imports Proposal_Controller_Props
begin

text \<open>
  The calls of one reconcile pass, recorded in order. A client is wrapped so that the state of
  the outside world carries the list of the calls made, the latest first, each with its
  arguments and its answer. Nothing is assumed of the client, so the objects that it returns
  may be stale, and anything may happen in the cluster between two calls: what holds of the
  list of calls holds of a pass that runs beside other controllers and users.
\<close>

subsection \<open>Recording\<close>

datatype call =
    GotConfigMap objkey "go_error + ConfigMap"
  | CreatedConfigMap ConfigMap "go_error option"
  | PatchedConfigMap ConfigMap ConfigMap "go_error option"
  | GotProfile objkey "go_error + EgressProfile"
  | PatchedProfile EgressProfile EgressProfile "go_error option"
  | GotProposal objkey "go_error + EgressPolicyProposal"
  | CreatedProposal EgressPolicyProposal "go_error + EgressPolicyProposal"
  | PatchedProposal EgressPolicyProposal EgressPolicyProposal "go_error option"
  | GotCNP objkey "go_error + Unstructured"
  | CreatedCNP Unstructured "go_error option"
  | UpdatedCNP Unstructured "go_error option"
  | GotPod objkey "go_error + Pod"
  | Recorded Event
  | MadeDir string "go_error option"
  | WroteFile string string "go_error option"

type_synonym 's traced_state = "'s \<times> call list"

definition logged :: "('r \<Rightarrow> call) \<Rightarrow> 'r \<times> 's \<Rightarrow> call list \<Rightarrow> 'r \<times> 's traced_state" where
  "logged c p cs = (fst p, snd p, c (fst p) # cs)"

definition traced :: "'s kube_client \<Rightarrow> 's traced_state kube_client" where
  "traced kc =
    \<lparr>kc_GetConfigMap = (\<lambda>(s, cs) k. logged (GotConfigMap k) (kc_GetConfigMap kc s k) cs),
     kc_CreateConfigMap = (\<lambda>(s, cs) cm. logged (CreatedConfigMap cm) (kc_CreateConfigMap kc s cm) cs),
     kc_PatchConfigMap = (\<lambda>(s, cs) cm base. logged (PatchedConfigMap cm base) (kc_PatchConfigMap kc s cm base) cs),
     kc_GetProfile = (\<lambda>(s, cs) k. logged (GotProfile k) (kc_GetProfile kc s k) cs),
     kc_PatchProfileStatus = (\<lambda>(s, cs) p base. logged (PatchedProfile p base) (kc_PatchProfileStatus kc s p base) cs),
     kc_GetProposal = (\<lambda>(s, cs) k. logged (GotProposal k) (kc_GetProposal kc s k) cs),
     kc_CreateProposal = (\<lambda>(s, cs) xp. logged (CreatedProposal xp) (kc_CreateProposal kc s xp) cs),
     kc_PatchProposalStatus = (\<lambda>(s, cs) xp base. logged (PatchedProposal xp base) (kc_PatchProposalStatus kc s xp base) cs),
     kc_GetCNP = (\<lambda>(s, cs) k. logged (GotCNP k) (kc_GetCNP kc s k) cs),
     kc_CreateCNP = (\<lambda>(s, cs) cnp. logged (CreatedCNP cnp) (kc_CreateCNP kc s cnp) cs),
     kc_UpdateCNP = (\<lambda>(s, cs) cnp. logged (UpdatedCNP cnp) (kc_UpdateCNP kc s cnp) cs),
     kc_GetPod = (\<lambda>(s, cs) k. logged (GotPod k) (kc_GetPod kc s k) cs),
     kc_Eventf = (\<lambda>(s, cs) ev. (kc_Eventf kc s ev, Recorded ev # cs))\<rparr>"

definition traced_os :: "'s os_calls \<Rightarrow> 's traced_state os_calls" where
  "traced_os os =
    \<lparr>os_MkdirAll = (\<lambda>(s, cs) d. logged (MadeDir d) (os_MkdirAll os s d) cs),
     os_WriteFile = (\<lambda>(s, cs) f text. logged (WroteFile f text) (os_WriteFile os s f text) cs)\<rparr>"

lemma traced_simps [simp]:
  "kc_GetConfigMap (traced kc) (s, cs) k = logged (GotConfigMap k) (kc_GetConfigMap kc s k) cs"
  "kc_CreateConfigMap (traced kc) (s, cs) cm = logged (CreatedConfigMap cm) (kc_CreateConfigMap kc s cm) cs"
  "kc_PatchConfigMap (traced kc) (s, cs) cm cmb = logged (PatchedConfigMap cm cmb) (kc_PatchConfigMap kc s cm cmb) cs"
  "kc_GetProfile (traced kc) (s, cs) k = logged (GotProfile k) (kc_GetProfile kc s k) cs"
  "kc_PatchProfileStatus (traced kc) (s, cs) p pb = logged (PatchedProfile p pb) (kc_PatchProfileStatus kc s p pb) cs"
  "kc_GetProposal (traced kc) (s, cs) k = logged (GotProposal k) (kc_GetProposal kc s k) cs"
  "kc_CreateProposal (traced kc) (s, cs) xp = logged (CreatedProposal xp) (kc_CreateProposal kc s xp) cs"
  "kc_PatchProposalStatus (traced kc) (s, cs) xp xb = logged (PatchedProposal xp xb) (kc_PatchProposalStatus kc s xp xb) cs"
  "kc_GetCNP (traced kc) (s, cs) k = logged (GotCNP k) (kc_GetCNP kc s k) cs"
  "kc_CreateCNP (traced kc) (s, cs) cnp = logged (CreatedCNP cnp) (kc_CreateCNP kc s cnp) cs"
  "kc_UpdateCNP (traced kc) (s, cs) cnp = logged (UpdatedCNP cnp) (kc_UpdateCNP kc s cnp) cs"
  "kc_Eventf (traced kc) (s, cs) ev = (kc_Eventf kc s ev, Recorded ev # cs)"
  "os_MkdirAll (traced_os os) (s, cs) d = logged (MadeDir d) (os_MkdirAll os s d) cs"
  "os_WriteFile (traced_os os) (s, cs) f text = logged (WroteFile f text) (os_WriteFile os s f text) cs"
  by (simp_all add: traced_def traced_os_def)

lemma logged_pair [simp]: "logged c (r, s) cs = (r, s, c r # cs)"
  by (simp add: logged_def)

text \<open>The policy that a call writes.\<close>

fun written_cnp :: "call \<Rightarrow> Unstructured option" where
  "written_cnp (CreatedCNP cnp e) = Some cnp"
| "written_cnp (UpdatedCNP cnp e) = Some cnp"
| "written_cnp _ = None"

fun cnp_success :: "call \<Rightarrow> bool" where
  "cnp_success (CreatedCNP cnp e) \<longleftrightarrow> e = None"
| "cnp_success (UpdatedCNP cnp e) \<longleftrightarrow> e = None"
| "cnp_success _ \<longleftrightarrow> False"

fun file_call :: "call \<Rightarrow> bool" where
  "file_call (MadeDir d e) \<longleftrightarrow> True"
| "file_call (WroteFile f text e) \<longleftrightarrow> True"
| "file_call _ \<longleftrightarrow> False"


fun reported_proposal :: "call \<Rightarrow> EgressPolicyProposal option" where
  "reported_proposal (PatchedProposal xp base e) = Some xp"
| "reported_proposal _ = None"

lemma file_callD [dest]: "file_call c \<Longrightarrow> written_cnp c = None \<and> reported_proposal c = None"
  by (cases c) auto

lemma unique_split:
  assumes "xs @ w # ys = us @ c # vs" "list_all (\<lambda>x. \<not> P x) xs" "list_all (\<lambda>x. \<not> P x) ys" "P c"
  shows "us = xs \<and> c = w \<and> vs = ys"
  using assms
proof (induction xs arbitrary: us)
  case Nil
  then show ?case by (cases us) (auto simp: list_all_iff)
next
  case (Cons x xs)
  then show ?case by (cases us) auto
qed

subsection \<open>The calls of the parts of a pass\<close>

text \<open>The baseline in a ConfigMap, as the store reads it.\<close>

definition snapshot_in :: "ConfigMap \<Rightarrow> go_error + Snapshot" where
  "snapshot_in cm = (case data_get (cm_Data cm) keyBaseline of None \<Rightarrow> Inr zero_Snapshot | Some raw \<Rightarrow> UnmarshalSnapshot raw)"

definition with_data :: "string \<Rightarrow> string \<Rightarrow> ConfigMap \<Rightarrow> ConfigMap" where
  "with_data key val cm = cm\<lparr>cm_Data := Some (AList.update key val (case cm_Data cm of None \<Rightarrow> [] | Some m \<Rightarrow> m))\<rparr>"

lemma GetSnapshot_traced:
  assumes "kc_GetConfigMap kc s (ns, n) = (r, s1)"
  shows "GetSnapshot (traced kc) (s, cs) ns n = (fst (GetSnapshot kc s ns n), s1, GotConfigMap (ns, n) r # cs)"
    and "GetSnapshot kc s ns n =
      (case r of Inl err \<Rightarrow> Inl (Wrapped (''get configmap '' @ ns @ ''/'' @ n) err) | Inr cm \<Rightarrow> snapshot_in cm, s1)"
  using assms by (simp_all add: GetSnapshot_def snapshot_in_def split: sum.split option.split)

lemma patchData_traced:
  assumes "kc_GetConfigMap kc s (ns, n) = (Inr cm, s1)" "kc_PatchConfigMap kc s1 (with_data key val cm) cm = (e, s2)"
  shows "patchData (traced kc) (s, cs) ns n key val =
      (e, s2, PatchedConfigMap (with_data key val cm) cm e # GotConfigMap (ns, n) (Inr cm) # cs)"
    and "patchData kc s ns n key val = (e, s2)"
  using assms by (simp_all add: patchData_def with_data_def)

lemma patchData_traced_missing:
  assumes "kc_GetConfigMap kc s (ns, n) = (Inl err, s1)"
  shows "patchData (traced kc) (s, cs) ns n key val =
      (Some (Wrapped (''get configmap '' @ ns @ ''/'' @ n) err), s1, GotConfigMap (ns, n) (Inl err) # cs)"
    and "patchData kc s ns n key val = (Some (Wrapped (''get configmap '' @ ns @ ''/'' @ n) err), s1)"
  using assms by (simp_all add: patchData_def)

lemma export_step_traced:
  obtains files where "export_step (traced_os os) proposal profile yaml (s, cs) = (export_step os proposal profile yaml s, files @ cs)"
    "list_all file_call files"
proof -
  have "\<exists>files. snd (ExportPolicy (traced_os os) (s, cs) out n yaml) = (snd (ExportPolicy os s out n yaml), files @ cs)
      \<and> list_all file_call files" for out n
  proof (cases "os_MkdirAll os s out")
    case (Pair e s1)
    show ?thesis
    proof (cases e)
      case None
      obtain e' s2 where "os_WriteFile os s1 (path_Join out (n @ ''.yaml'')) yaml = (e', s2)" by fastforce
      then show ?thesis using Pair None
        by (simp add: ExportPolicy_def exI[of _ "[WroteFile (path_Join out (n @ ''.yaml'')) yaml e', MadeDir out None]"])
    next
      case (Some err)
      then show ?thesis using Pair by (simp add: ExportPolicy_def exI[of _ "[MadeDir out (Some err)]"])
    qed
  qed
  note export = this
  show thesis
  proof (cases "gc_Enabled (ps_GitOps (pr_Spec profile)) \<and> gc_OutputPath (ps_GitOps (pr_Spec profile)) \<noteq> []")
    case True
    then show thesis using export that by (simp add: export_step_def Let_def) blast
  next
    case False
    then have "export_step os proposal profile yaml s = s" "export_step (traced_os os) proposal profile yaml (s, cs) = (s, cs)"
      by (auto simp: export_step_def)
    then show thesis using that[of "[]"] by simp
  qed
qed

text \<open>Applying the policy: the read of the policy's key, one write that depends on it, the event
  when the write succeeded.\<close>

definition applied_cnp :: "EgressPolicyProposal \<Rightarrow> Unstructured \<Rightarrow> go_error + Unstructured \<Rightarrow> Unstructured" where
  "applied_cnp proposal cnp existing =
     (let cnp = SetOwnerReferences cnp [ownerRef ''EgressPolicyProposal'' (xp_Meta proposal)] in
      case existing of Inl err \<Rightarrow> cnp | Inr old \<Rightarrow> SetResourceVersion cnp (om_ResourceVersion (un_Meta old)))"

definition write_call :: "go_error + Unstructured \<Rightarrow> Unstructured \<Rightarrow> go_error option \<Rightarrow> call" where
  "write_call existing = (case existing of Inl err \<Rightarrow> CreatedCNP | Inr old \<Rightarrow> UpdatedCNP)"

lemma write_call_simps [simp]:
  "written_cnp (write_call existing cnp e) = Some cnp" "cnp_success (write_call existing cnp e) \<longleftrightarrow> e = None"
  "reported_proposal (write_call existing cnp e) = None"
  by (simp_all add: write_call_def split: sum.split)

lemma applyCNP_traced:
  assumes "kc_GetCNP kc s (meta_key (un_Meta cnp)) = (existing, s1)"
  obtains (unread) err where "existing = Inl err" "\<not> IsNotFound err"
      "applyCNP (traced kc) (s, cs) proposal profile cnp = (Some (Wrapped ''get CNP'' err), s1, GotCNP (meta_key (un_Meta cnp)) existing # cs)"
      "applyCNP kc s proposal profile cnp = (Some (Wrapped ''get CNP'' err), s1)"
  | (failed) err err' s2 where
      "applyCNP (traced kc) (s, cs) proposal profile cnp = (Some err', s2,
         write_call existing (applied_cnp proposal cnp existing) (Some err) # GotCNP (meta_key (un_Meta cnp)) existing # cs)"
      "applyCNP kc s proposal profile cnp = (Some err', s2)"
  | (written) ev s2 where
      "applyCNP (traced kc) (s, cs) proposal profile cnp = (None, s2,
         Recorded ev # write_call existing (applied_cnp proposal cnp existing) None # GotCNP (meta_key (un_Meta cnp)) existing # cs)"
      "applyCNP kc s proposal profile cnp = (None, s2)"
proof (cases existing)
  case (Inl err)
  obtain e s2 where "kc_CreateCNP kc s1 (applied_cnp proposal cnp existing) = (e, s2)" by fastforce
  then show thesis using assms Inl that(1)[OF Inl] that(2,3)
    by (cases e; cases "IsNotFound err") (simp_all add: applyCNP_def applied_cnp_def write_call_def Let_def)
next
  case (Inr old)
  obtain e s2 where "kc_UpdateCNP kc s1 (applied_cnp proposal cnp existing) = (e, s2)" by fastforce
  then show thesis using assms Inr that(2,3)
    by (cases e) (simp_all add: applyCNP_def applied_cnp_def write_call_def Let_def)
qed

abbreviation enforced :: "EgressPolicyProposal \<Rightarrow> EgressProfile \<Rightarrow> bool" where
  "enforced proposal profile \<equiv> ps_Mode (pr_Spec profile) = ModeEnforce \<and> ap_Approved (xs_Approval (xp_Spec proposal))"

lemma apply_step_traced:
  obtains (skipped) "\<not> enforced proposal profile"
      "apply_step (traced kc) proposal profile cnp (s, cs) = (ProposalPhasePendingApproval, s, cs)"
      "apply_step kc proposal profile cnp s = (ProposalPhasePendingApproval, s)"
  | (unread) err s1 where "enforced proposal profile"
      "apply_step (traced kc) proposal profile cnp (s, cs) = (ProposalPhaseFailed, s1, GotCNP (meta_key (un_Meta cnp)) (Inl err) # cs)"
      "apply_step kc proposal profile cnp s = (ProposalPhaseFailed, s1)"
  | (written) existing e phase evs s1 where "enforced proposal profile"
      "apply_step (traced kc) proposal profile cnp (s, cs) = (phase, s1, evs @
         write_call existing (applied_cnp proposal cnp existing) e # GotCNP (meta_key (un_Meta cnp)) existing # cs)"
      "apply_step kc proposal profile cnp s = (phase, s1)"
      "phase = (if e = None then ProposalPhaseApplied else ProposalPhaseFailed)"
      "list_all (\<lambda>c. \<exists>ev. c = Recorded ev) evs"
proof (cases "enforced proposal profile")
  case False
  then show thesis using skipped by (auto simp: apply_step_def)
next
  case True
  obtain existing s1 where get: "kc_GetCNP kc s (meta_key (un_Meta cnp)) = (existing, s1)" by fastforce
  show thesis
  proof (cases rule: applyCNP_traced[OF get, of cs proposal profile])
    case (1 err)
    then show thesis using True unread[of s1 err] by (simp add: apply_step_def)
  next
    case (2 err err' s2)
    then show thesis using True written[of _ s2 "[]" existing "Some err"] by (simp add: apply_step_def)
  next
    case (3 ev s2)
    then show thesis using True written[of _ s2 "[Recorded ev]" existing None] by (simp add: apply_step_def)
  qed
qed

subsection \<open>The calls of a pass\<close>

text \<open>The first calls of a pass that has read all it needs and stored the YAML; the latest first.\<close>

definition prepared :: "objkey \<Rightarrow> EgressPolicyProposal \<Rightarrow> EgressProfile \<Rightarrow> ConfigMap \<Rightarrow> ConfigMap \<Rightarrow> string \<Rightarrow> call list" where
  "prepared req proposal profile cm cm' yaml =
     (let ns = om_Namespace (xp_Meta proposal); k = (ns, ConfigMapName (om_Name (pr_Meta profile))) in
      [PatchedConfigMap (with_data keyPolicy yaml cm') cm' None, GotConfigMap k (Inr cm'), GotConfigMap k (Inr cm),
       GotProfile (ns, xs_ProfileRef_Name (xp_Spec proposal)) (Inr profile), GotProposal req (Inr proposal)])"

text \<open>The end of a pass, from the export on.\<close>

definition finish_pass :: "int \<Rightarrow> 's kube_client \<Rightarrow> 's os_calls \<Rightarrow> EgressPolicyProposal \<Rightarrow> EgressProfile \<Rightarrow> GenerationResult \<Rightarrow> 's \<Rightarrow>
    (reconcile_result \<times> go_error option) \<times> 's" where
  "finish_pass now kc os proposal profile res s =
     (let s = export_step os proposal profile (gr_YAML res) s;
          (phase, s) = apply_step kc proposal profile (gr_CNP res) s;
          proposal' = proposal\<lparr>xp_Status := proposal_status now res phase (ConfigMapName (om_Name (pr_Meta profile))) (xp_Status proposal)\<rparr>
      in case kc_PatchProposalStatus kc s proposal' proposal of
           (Some err, s) \<Rightarrow> ((requeue_after 10, Some err), s)
         | (None, s) \<Rightarrow> ((requeue_after 30, None), s))"

abbreviation quiet :: "call list \<Rightarrow> bool" where
  "quiet cs \<equiv> list_all (\<lambda>c. written_cnp c = None \<and> reported_proposal c = None) cs"

definition store_pass :: "int \<Rightarrow> 's kube_client \<Rightarrow> 's os_calls \<Rightarrow> EgressPolicyProposal \<Rightarrow> EgressProfile \<Rightarrow> GenerationResult \<Rightarrow> 's \<Rightarrow>
    (reconcile_result \<times> go_error option) \<times> 's" where
  "store_pass now kc os proposal profile res s =
     (case SavePolicyYAML kc s (om_Namespace (xp_Meta proposal)) (ConfigMapName (om_Name (pr_Meta profile))) (gr_YAML res) of
        (Some err, s) \<Rightarrow> ((requeue_after 10, Some err), s)
      | (None, s) \<Rightarrow> finish_pass now kc os proposal profile res s)"

lemma Proposal_Reconcile_store:
  "Proposal_Reconcile yamlMarshal ordF ordP now kc os req s =
     (case kc_GetProposal kc s req of
        (Inl err, s) \<Rightarrow> if IsNotFound err then ((requeue_after 0, None), s) else ((requeue_after 0, Some err), s)
      | (Inr proposal, s) \<Rightarrow>
      (case kc_GetProfile kc s (om_Namespace (xp_Meta proposal), xs_ProfileRef_Name (xp_Spec proposal)) of
        (Inl err, s) \<Rightarrow> ((requeue_after 15, Some err), s)
      | (Inr profile, s) \<Rightarrow>
      (case GetSnapshot kc s (om_Namespace (xp_Meta proposal)) (ConfigMapName (om_Name (pr_Meta profile))) of
        (Inl err, s) \<Rightarrow> ((requeue_after 15, Some err), s)
      | (Inr snap, s) \<Rightarrow> store_pass now kc os proposal profile (Generate yamlMarshal ordF ordP (om_Name (pr_Meta profile))
          (om_Namespace (xp_Meta proposal)) (ps_Policy (pr_Spec profile)) snap) s)))"
  unfolding Proposal_Reconcile_def store_pass_def finish_pass_def Let_def by (rule refl)

lemma store_pass_traced:
  assumes "store_pass now (traced kc) (traced_os os) proposal profile res (s, cs) = (r, s', log)" "quiet cs"
    and "k = (om_Namespace (xp_Meta proposal), ConfigMapName (om_Name (pr_Meta profile)))"
  obtains (early) "store_pass now kc os proposal profile res s = (r, s')" "quiet log"
  | (ready) cm s1 where "store_pass now kc os proposal profile res s = finish_pass now kc os proposal profile res s1"
      "finish_pass now (traced kc) (traced_os os) proposal profile res
         (s1, PatchedConfigMap (with_data keyPolicy (gr_YAML res) cm) cm None # GotConfigMap k (Inr cm) # cs) = (r, s', log)"
proof -
  obtain r1 s1 where get: "kc_GetConfigMap kc s k = (r1, s1)" by fastforce
  show thesis
  proof (cases r1)
    case (Inl err)
    then show thesis using assms early patchData_traced_missing[OF get[unfolded assms(3) Inl]]
      by (auto simp: store_pass_def SavePolicyYAML_def)
  next
    case (Inr cm)
    obtain e s2 where "kc_PatchConfigMap kc s1 (with_data keyPolicy (gr_YAML res) cm) cm = (e, s2)" by fastforce
    note patchData_traced[OF get[unfolded assms(3) Inr] this]
    then show thesis using assms early ready by (cases e) (auto simp: store_pass_def SavePolicyYAML_def)
  qed
qed

lemma Proposal_Reconcile_prepared:
  assumes run: "Proposal_Reconcile yamlMarshal ordF ordP now (traced kc) (traced_os os) req (s, []) = (r, s', log)"
  obtains (early) "Proposal_Reconcile yamlMarshal ordF ordP now kc os req s = (r, s')" "quiet log"
  | (ready) proposal profile cm cm' snap res s1 where "snapshot_in cm = Inr snap"
      "res = Generate yamlMarshal ordF ordP (om_Name (pr_Meta profile)) (om_Namespace (xp_Meta proposal)) (ps_Policy (pr_Spec profile)) snap"
      "Proposal_Reconcile yamlMarshal ordF ordP now kc os req s = finish_pass now kc os proposal profile res s1"
      "finish_pass now (traced kc) (traced_os os) proposal profile res (s1, prepared req proposal profile cm cm' (gr_YAML res)) = (r, s', log)"
proof -
  note store = Proposal_Reconcile_store[of yamlMarshal ordF ordP now]
  note run = run[unfolded store]
  obtain r1 s1 where g1: "kc_GetProposal kc s req = (r1, s1)" by fastforce
  show thesis
  proof (cases r1)
    case (Inl err)
    then show thesis using run g1 early by (auto simp: store split: if_splits)
  next
    case p: (Inr proposal)
    let ?ns = "om_Namespace (xp_Meta proposal)"
    obtain r2 s2 where g2: "kc_GetProfile kc s1 (?ns, xs_ProfileRef_Name (xp_Spec proposal)) = (r2, s2)" by fastforce
    show thesis
    proof (cases r2)
      case (Inl err)
      then show thesis using run g1 p g2 early by (auto simp: store)
    next
      case q: (Inr profile)
      let ?n = "ConfigMapName (om_Name (pr_Meta profile))"
      obtain r3 s3 where g3: "kc_GetConfigMap kc s2 (?ns, ?n) = (r3, s3)" by fastforce
      note sn = GetSnapshot_traced[OF g3] and g = g1 p g2 q
      show thesis
      proof (cases "fst (GetSnapshot kc s2 ?ns ?n)")
        case (Inl err)
        then show thesis using run g sn early by (auto simp: store)
      next
        case (Inr snap)
        then obtain cm where cm: "r3 = Inr cm" "snapshot_in cm = Inr snap" using sn(2) by (auto split: sum.splits)
        then have tr: "store_pass now (traced kc) (traced_os os) proposal profile (Generate yamlMarshal ordF ordP (om_Name (pr_Meta profile))
            ?ns (ps_Policy (pr_Spec profile)) snap) (s3, [GotConfigMap (?ns, ?n) (Inr cm),
              GotProfile (?ns, xs_ProfileRef_Name (xp_Spec proposal)) (Inr profile), GotProposal req (Inr proposal)]) = (r, s', log)"
          using run g sn by simp
        have pass: "Proposal_Reconcile yamlMarshal ordF ordP now kc os req s = store_pass now kc os proposal profile (Generate yamlMarshal ordF
            ordP (om_Name (pr_Meta profile)) ?ns (ps_Policy (pr_Spec profile)) snap) s3"
          using g sn(2) cm by (simp add: store)
        show thesis
        proof (cases rule: store_pass_traced[OF tr _ refl, simplified])
          case (2 cm' s4)
          then show thesis using ready[OF cm(2) refl] pass by (simp add: prepared_def Let_def)
        qed (use early pass in simp_all)
      qed
    qed
  qed
qed

lemma Proposal_Reconcile_traced:
  assumes "Proposal_Reconcile yamlMarshal ordF ordP now (traced kc) (traced_os os) req (s, []) = (r, s', log)"
  obtains (early) "Proposal_Reconcile yamlMarshal ordF ordP now kc os req s = (r, s')" "quiet log"
  | (full) proposal profile cm cm' snap res s1 files phase s2 log2 e where
      "Proposal_Reconcile yamlMarshal ordF ordP now kc os req s = (r, s')" "snapshot_in cm = Inr snap"
      "res = Generate yamlMarshal ordF ordP (om_Name (pr_Meta profile)) (om_Namespace (xp_Meta proposal)) (ps_Policy (pr_Spec profile)) snap"
      "list_all file_call files"
      "apply_step (traced kc) proposal profile (gr_CNP res) (s1, files @ prepared req proposal profile cm cm' (gr_YAML res)) = (phase, s2, log2)"
      "log = PatchedProposal (proposal\<lparr>xp_Status := proposal_status now res phase (ConfigMapName (om_Name (pr_Meta profile))) (xp_Status proposal)\<rparr>)
         proposal e # log2"
proof (cases rule: Proposal_Reconcile_prepared[OF assms])
  case 1
  then show thesis by (rule early)
next
  case (2 proposal profile cm cm' snap res s1)
  let ?cs = "prepared req proposal profile cm cm' (gr_YAML res)"
  obtain files where ex: "export_step (traced_os os) proposal profile (gr_YAML res) (s1, ?cs) =
      (export_step os proposal profile (gr_YAML res) s1, files @ ?cs)" "list_all file_call files" by (rule export_step_traced)
  let ?s = "export_step os proposal profile (gr_YAML res) s1"
  obtain phase s2 log2 where ap: "apply_step (traced kc) proposal profile (gr_CNP res) (?s, files @ ?cs) = (phase, s2, log2)"
    by (metis prod.exhaust)
  have ap': "apply_step kc proposal profile (gr_CNP res) ?s = (phase, s2)"
    using ap by (cases rule: apply_step_traced[of profile proposal kc "gr_CNP res" ?s "files @ ?cs"]) auto
  let ?xp = "proposal\<lparr>xp_Status := proposal_status now res phase (ConfigMapName (om_Name (pr_Meta profile))) (xp_Status proposal)\<rparr>"
  obtain e s3 where "kc_PatchProposalStatus kc s2 ?xp proposal = (e, s3)" by fastforce
  then have "finish_pass now kc os proposal profile res s1 = (r, s')" "log = PatchedProposal ?xp proposal e # log2"
    using 2(4) ex ap ap' by (auto simp: finish_pass_def Let_def split: option.splits)
  then show thesis using full[OF _ 2(1,2) ex(2) ap] 2(3) by simp
qed

text \<open>The parts of the log that write no policy.\<close>

lemma no_writes [simp]:
  "list_all (\<lambda>c. written_cnp c = None) (prepared req proposal profile cm cm' yaml)"
  "list_all file_call files \<Longrightarrow> list_all (\<lambda>c. written_cnp c = None) files"
  "list_all (\<lambda>c. \<exists>ev. c = Recorded ev) evs \<Longrightarrow> list_all (\<lambda>c. written_cnp c = None) evs"
  by (auto simp: prepared_def Let_def list_all_iff)

lemma no_reports [simp]:
  "list_all (\<lambda>c. reported_proposal c = None) (prepared req proposal profile cm cm' yaml)"
  "list_all file_call files \<Longrightarrow> list_all (\<lambda>c. reported_proposal c = None) files"
  "list_all (\<lambda>c. \<exists>ev. c = Recorded ev) evs \<Longrightarrow> list_all (\<lambda>c. reported_proposal c = None) evs"
  by (auto simp: prepared_def Let_def list_all_iff)

lemma success_writes: "cnp_success c \<Longrightarrow> written_cnp c \<noteq> None"
  by (cases c) auto

lemma no_success: "list_all (\<lambda>c. written_cnp c = None) cs \<Longrightarrow> \<not> list_ex cnp_success cs"
  using success_writes by (fastforce simp: list_all_iff list_ex_iff)

lemma apply_step_report:
  assumes "apply_step (traced kc) proposal profile cnp (s, cs) = (phase, s', log)"
    and "list_all (\<lambda>c. reported_proposal c = None) cs" "list_all (\<lambda>c. written_cnp c = None) cs"
  shows "list_all (\<lambda>c. reported_proposal c = None) log \<and> set cs \<subseteq> set log \<and> phase =
    (if \<not> enforced proposal profile then ProposalPhasePendingApproval
     else if list_ex cnp_success log then ProposalPhaseApplied else ProposalPhaseFailed)"
proof (cases rule: apply_step_traced[of profile proposal kc cnp s cs])
  case (written existing e phase' evs s1)
  have "\<not> list_ex cnp_success evs" using no_success[OF no_writes(3)[OF written(5)]] .
  then show ?thesis using assms written no_success[OF assms(3)] by auto
qed (use assms no_success[OF assms(3)] in auto)

subsection \<open>The calls of a pass of the profile reconciler\<close>

text \<open>The ConfigMap that the store creates.\<close>

definition new_configmap :: "EgressProfile \<Rightarrow> ConfigMap" where
  "new_configmap profile =
    \<lparr>cm_Meta = \<lparr>om_Name = ConfigMapName (om_Name (pr_Meta profile)), om_Namespace = om_Namespace (pr_Meta profile), om_UID = [],
       om_ResourceVersion = [], om_Labels = managedLabels (om_Name (pr_Meta profile)),
       om_OwnerReferences = [ownerRef ''EgressProfile'' (pr_Meta profile)]\<rparr>, cm_Data = Some []\<rparr>"

text \<open>The calls that a pass may make once it has read the profile, before it reports.\<close>

fun profile_call :: "EgressProfile \<Rightarrow> call \<Rightarrow> bool" where
  "profile_call profile (GotConfigMap k r) \<longleftrightarrow> k = (om_Namespace (pr_Meta profile), ConfigMapName (om_Name (pr_Meta profile)))"
| "profile_call profile (CreatedConfigMap cm e) \<longleftrightarrow> cm = new_configmap profile"
| "profile_call profile (GotProposal k r) \<longleftrightarrow>
     ps_Mode (pr_Spec profile) \<in> {ModeSuggest, ModeEnforce} \<and> k = (om_Namespace (pr_Meta profile), om_Name (pr_Meta profile) @ ''-proposal'')"
| "profile_call profile (CreatedProposal xp r) \<longleftrightarrow> ps_Mode (pr_Spec profile) \<in> {ModeSuggest, ModeEnforce} \<and> xp = new_proposal profile"
| "profile_call profile (Recorded ev) \<longleftrightarrow> True"
| "profile_call profile _ \<longleftrightarrow> False"

text \<open>The proposals that the answers show.\<close>

fun seen_proposal :: "call \<Rightarrow> EgressPolicyProposal option" where
  "seen_proposal (GotProposal k (Inr xp)) = Some xp"
| "seen_proposal (CreatedProposal new (Inr xp)) = Some xp"
| "seen_proposal _ = None"

lemma EnsureConfigMap_traced:
  obtains calls where "EnsureConfigMap (traced kc) (s, cs) profile = (fst (EnsureConfigMap kc s profile), snd (EnsureConfigMap kc s profile), calls @ cs)"
    "list_all (profile_call profile) calls" "list_all (\<lambda>c. seen_proposal c = None) calls"
proof -
  let ?k = "(om_Namespace (pr_Meta profile), ConfigMapName (om_Name (pr_Meta profile)))"
  obtain r s1 where g: "kc_GetConfigMap kc s ?k = (r, s1)" by fastforce
  obtain e s2 where c: "kc_CreateConfigMap kc s1 (new_configmap profile) = (e, s2)" by fastforce
  show thesis
  proof (cases "\<exists>err. r = Inl err \<and> IsNotFound err")
    case True
    then show thesis using g c that[of "[CreatedConfigMap (new_configmap profile) e, GotConfigMap ?k r]"]
      by (auto simp: EnsureConfigMap_def Let_def new_configmap_def)
  next
    case False
    then show thesis using g that[of "[GotConfigMap ?k r]"] by (auto simp: EnsureConfigMap_def Let_def split: sum.splits)
  qed
qed

lemma ensureProposal_traced:
  assumes "ps_Mode (pr_Spec profile) \<in> {ModeSuggest, ModeEnforce}"
  obtains calls where "ensureProposal (traced kc) (s, cs) profile = (fst (ensureProposal kc s profile), snd (ensureProposal kc s profile), calls @ cs)"
    "list_all (profile_call profile) calls"
    "List.map_filter seen_proposal calls = (case fst (ensureProposal kc s profile) of Inl err \<Rightarrow> [] | Inr xp \<Rightarrow> [xp])"
proof -
  let ?k = "(om_Namespace (pr_Meta profile), om_Name (pr_Meta profile) @ ''-proposal'')"
  obtain r s1 where g: "kc_GetProposal kc s ?k = (r, s1)" by fastforce
  obtain r' s2 where c: "kc_CreateProposal kc s1 (new_proposal profile) = (r', s2)" by fastforce
  let ?ev = "\<lparr>ev_Object = meta_key (pr_Meta profile), ev_Type = ''Normal'', ev_Reason = ''ProposalCreated'',
    ev_Message = ''Created EgressPolicyProposal '' @ om_Name (pr_Meta profile) @ ''-proposal''\<rparr>"
  show thesis
  proof (cases "\<exists>err. r = Inl err \<and> IsNotFound err")
    case True
    then show thesis using g c assms that[of "(case r' of Inl err \<Rightarrow> [] | Inr xp \<Rightarrow> [Recorded ?ev]) @ [CreatedProposal (new_proposal profile) r', GotProposal ?k r]"]
      by (cases r') (auto simp: ensureProposal_def Let_def map_filter_simps)
  next
    case False
    then show thesis using g assms that[of "[GotProposal ?k r]"] by (auto simp: ensureProposal_def Let_def map_filter_simps split: sum.splits)
  qed
qed

definition choose_phase :: "'s kube_client \<Rightarrow> EgressProfile \<Rightarrow> 's \<Rightarrow> (go_error + EgressPhase \<times> string) \<times> 's" where
  "choose_phase kc profile s =
     (if ps_Mode (pr_Spec profile) = ModeSuggest \<or> ps_Mode (pr_Spec profile) = ModeEnforce then
        case ensureProposal kc s profile of
          (Inl err, s) \<Rightarrow> (Inl err, s)
        | (Inr proposal, s) \<Rightarrow>
            (Inr (profile_phase (ps_Mode (pr_Spec profile)) (xt_Phase (xp_Status proposal)), om_Name (xp_Meta proposal)), s)
      else (Inr (PhaseObserving, pt_ProposalRef (pr_Status profile)), s))"

definition report_pass :: "int \<Rightarrow> 's kube_client \<Rightarrow> EgressProfile \<Rightarrow> Accumulator option \<Rightarrow> 's \<Rightarrow>
    (reconcile_result \<times> go_error option) \<times> Accumulator option \<times> 's" where
  "report_pass now kc profile acc s =
     (let ns = om_Namespace (pr_Meta profile);
          cmName = ConfigMapName (om_Name (pr_Meta profile));
          acc = map_option (RegisterWorkload (workload_key profile) ns cmName) acc;
          (r, s) = GetSnapshot kc s ns cmName;
          snap = (case r of Inl err \<Rightarrow> zero_Snapshot | Inr snap \<Rightarrow> snap);
          (outcome, s) = choose_phase kc profile s
      in case outcome of
           Inl err \<Rightarrow> ((requeue_after 15, Some err), acc, s)
         | Inr (phase, proposalRef) \<Rightarrow>
             (let profile' = profile\<lparr>pr_Status := profile_status now snap phase cmName proposalRef (pr_Status profile)\<rparr> in
              case kc_PatchProfileStatus kc s profile' profile of
                (Some err, s) \<Rightarrow> ((requeue_after 10, Some err), acc, s)
              | (None, s) \<Rightarrow> ((requeue_after 30, None), acc, s)))"

lemma Profile_Reconcile_report:
  "Profile_Reconcile now kc req acc s =
     (case kc_GetProfile kc s req of
        (Inl err, s) \<Rightarrow>
          if IsNotFound err then ((requeue_after 0, None), acc, s) else ((requeue_after 0, Some err), acc, s)
      | (Inr profile, s) \<Rightarrow>
      (case EnsureConfigMap kc s profile of
        (Some err, s) \<Rightarrow> ((requeue_after 10, Some err), acc, s)
      | (None, s) \<Rightarrow> report_pass now kc profile acc s))"
  unfolding Profile_Reconcile_def report_pass_def choose_phase_def Let_def by (rule refl)

lemma choose_phase_traced:
  obtains calls where "choose_phase (traced kc) profile (s, cs) = (fst (choose_phase kc profile s), snd (choose_phase kc profile s), calls @ cs)"
    "list_all (profile_call profile) calls"
    "case fst (choose_phase kc profile s) of Inl err \<Rightarrow> True
     | Inr (phase, ref) \<Rightarrow> (phase = PhaseEnforced \<longleftrightarrow> (\<exists>xp \<in> set (List.map_filter seen_proposal calls). xt_Phase (xp_Status xp) = ProposalPhaseApplied))"
proof (cases "ps_Mode (pr_Spec profile) \<in> {ModeSuggest, ModeEnforce}")
  case True
  then obtain calls where c: "ensureProposal (traced kc) (s, cs) profile = (fst (ensureProposal kc s profile), snd (ensureProposal kc s profile), calls @ cs)"
    "list_all (profile_call profile) calls"
    "List.map_filter seen_proposal calls = (case fst (ensureProposal kc s profile) of Inl err \<Rightarrow> [] | Inr xp \<Rightarrow> [xp])"
    by (rule ensureProposal_traced)
  obtain r s1 where e: "ensureProposal kc s profile = (r, s1)" by fastforce
  show thesis using True c e that[of calls]
    by (cases r) (auto simp: choose_phase_def profile_phase_def phase_defs)
next
  case False
  then show thesis using that[of "[]"] by (simp add: choose_phase_def map_filter_simps phase_defs)
qed

fun reported_profile :: "call \<Rightarrow> EgressProfile option" where
  "reported_profile (PatchedProfile p base e) = Some p"
| "reported_profile _ = None"

lemma profile_call_reports [simp]: "profile_call profile c \<Longrightarrow> reported_profile c = None"
  by (cases c) auto

text \<open>A status of a profile that follows from the calls before it.\<close>

definition reports :: "EgressProfile \<Rightarrow> EgressProfile \<Rightarrow> call list \<Rightarrow> bool" where
  "reports profile p calls \<longleftrightarrow> pr_Spec p = pr_Spec profile \<and> pr_Meta p = pr_Meta profile
     \<and> (pt_Phase (pr_Status p) = PhaseEnforced \<longleftrightarrow>
         (\<exists>xp \<in> set (List.map_filter seen_proposal calls). xt_Phase (xp_Status xp) = ProposalPhaseApplied))"

lemma seen_append:
  "List.map_filter seen_proposal (xs @ ys) = List.map_filter seen_proposal xs @ List.map_filter seen_proposal ys"
  by (simp add: List.map_filter_def)

lemma seen_none: "list_all (\<lambda>c. seen_proposal c = None) cs \<Longrightarrow> List.map_filter seen_proposal cs = []"
  by (simp add: List.map_filter_def list_all_iff)

lemma report_pass_traced:
  assumes "report_pass now (traced kc) profile acc (s, cs) = (r, acc', s', log)"
  obtains (early) calls where "log = calls @ cs" "list_all (profile_call profile) calls" "report_pass now kc profile acc s = (r, acc', s')"
  | (full) calls p e where "log = PatchedProfile p profile e # calls @ cs" "list_all (profile_call profile) calls"
      "report_pass now kc profile acc s = (r, acc', s')" "reports profile p calls"
proof -
  let ?k = "(om_Namespace (pr_Meta profile), ConfigMapName (om_Name (pr_Meta profile)))"
  obtain r1 s1 where g: "kc_GetConfigMap kc s ?k = (r1, s1)" by fastforce
  note sn = GetSnapshot_traced[OF g]
  obtain calls where c: "choose_phase (traced kc) profile (s1, GotConfigMap ?k r1 # cs) =
      (fst (choose_phase kc profile s1), snd (choose_phase kc profile s1), calls @ GotConfigMap ?k r1 # cs)"
    "list_all (profile_call profile) calls"
    "case fst (choose_phase kc profile s1) of Inl err \<Rightarrow> True
     | Inr (phase, ref) \<Rightarrow> (phase = PhaseEnforced \<longleftrightarrow> (\<exists>xp \<in> set (List.map_filter seen_proposal calls). xt_Phase (xp_Status xp) = ProposalPhaseApplied))"
    by (rule choose_phase_traced)
  obtain out s2 where ch: "choose_phase kc profile s1 = (out, s2)" by fastforce
  show thesis
  proof (cases out)
    case (Inl err)
    then show thesis using assms c(1,2) ch sn early[of "calls @ [GotConfigMap ?k r1]"] by (auto simp: report_pass_def Let_def)
  next
    case (Inr pr)
    obtain phase ref where pr: "pr = (phase, ref)" by fastforce
    define p where "p = profile\<lparr>pr_Status := profile_status now (case fst (GetSnapshot kc s (fst ?k) (snd ?k)) of Inl err \<Rightarrow> zero_Snapshot | Inr snap \<Rightarrow> snap)
      phase (snd ?k) ref (pr_Status profile)\<rparr>"
    obtain e s3 where "kc_PatchProfileStatus kc s2 p profile = (e, s3)" by fastforce
    moreover have "reports profile p (calls @ [GotConfigMap ?k r1])"
      using c(3) ch Inr pr by (simp add: reports_def p_def seen_append seen_none profile_status_def split: prod.split)
    ultimately show thesis using assms c(1,2) ch Inr pr sn full[of p e "calls @ [GotConfigMap ?k r1]"]
      by (cases e) (auto simp: report_pass_def Let_def p_def)
  qed
qed

lemma Profile_Reconcile_traced:
  assumes "Profile_Reconcile now (traced kc) req acc (s, []) = (r, acc', s', log)"
  obtains (missing) err where "log = [GotProfile req (Inl err)]" "Profile_Reconcile now kc req acc s = (r, acc', s')"
  | (early) profile calls where "log = calls @ [GotProfile req (Inr profile)]" "list_all (profile_call profile) calls"
      "Profile_Reconcile now kc req acc s = (r, acc', s')"
  | (full) profile calls p e where "log = PatchedProfile p profile e # calls @ [GotProfile req (Inr profile)]"
      "list_all (profile_call profile) calls" "Profile_Reconcile now kc req acc s = (r, acc', s')" "reports profile p calls"
proof -
  note ch = Profile_Reconcile_report[of now]
  note run = assms[unfolded ch]
  obtain r1 s1 where g1: "kc_GetProfile kc s req = (r1, s1)" by fastforce
  show thesis
  proof (cases r1)
    case (Inl err)
    then show thesis using run g1 missing by (auto simp: ch split: if_splits)
  next
    case p: (Inr profile)
    let ?g = "[GotProfile req (Inr profile)]"
    obtain c1 where e: "EnsureConfigMap (traced kc) (s1, ?g) profile =
        (fst (EnsureConfigMap kc s1 profile), snd (EnsureConfigMap kc s1 profile), c1 @ ?g)"
      "list_all (profile_call profile) c1" "list_all (\<lambda>c. seen_proposal c = None) c1" by (rule EnsureConfigMap_traced)
    obtain r2 s2 where e': "EnsureConfigMap kc s1 profile = (r2, s2)" by fastforce
    show thesis
    proof (cases r2)
      case (Some err)
      then show thesis using run g1 p e e' early by (auto simp: ch)
    next
      case None
      then have rest: "report_pass now (traced kc) profile acc (s2, c1 @ ?g) = (r, acc', s', log)"
        and pass: "Profile_Reconcile now kc req acc s = report_pass now kc profile acc s2"
        using run g1 p e e' by (simp_all add: ch)
      from rest show thesis
      proof (cases rule: report_pass_traced)
        case (early calls)
        then show thesis using that(2)[of "calls @ c1" profile] e(2) pass by simp
      next
        case (full calls q x)
        then show thesis using that(3)[of q profile x "calls @ c1"] e(2,3) pass by (simp add: reports_def seen_append seen_none)
      qed
    qed
  qed
qed

subsection \<open>Properties\<close>

text \<open>C8: the gate, call by call. Whatever the client answers, a pass of the proposal reconciler
  writes at most one network policy, and before it writes one it has made exactly these calls:
  it has read an approved proposal, a profile in mode Enforce, the baseline and the
  ConfigMap again, has stored the YAML without an error, has perhaps written the export file, and has
  looked for the policy. The policy written is the one generated from what was read, owned
  by the proposal, and over the version found if there was one. Recording the calls changes
  nothing of the pass.\<close>

theorem proposal_pass_calls:
  assumes "Proposal_Reconcile yamlMarshal ordF ordP now (traced kc) (traced_os os) req (s, []) = (r, s', log)"
    and "log = later @ c # earlier" "written_cnp c = Some cnp"
  shows "Proposal_Reconcile yamlMarshal ordF ordP now kc os req s = (r, s')
    \<and> (\<exists>proposal profile cm cm' snap res files existing. ap_Approved (xs_Approval (xp_Spec proposal))
      \<and> ps_Mode (pr_Spec profile) = ModeEnforce \<and> snapshot_in cm = Inr snap
      \<and> res = Generate yamlMarshal ordF ordP (om_Name (pr_Meta profile)) (om_Namespace (xp_Meta proposal)) (ps_Policy (pr_Spec profile)) snap
      \<and> earlier = GotCNP (meta_key (un_Meta (gr_CNP res))) existing # files @ prepared req proposal profile cm cm' (gr_YAML res)
      \<and> list_all file_call files \<and> cnp = applied_cnp proposal (gr_CNP res) existing)
    \<and> list_all (\<lambda>c. written_cnp c = None) later"
  using assms(1)
proof (cases rule: Proposal_Reconcile_traced)
  case early
  then show ?thesis using assms(2,3) by (auto simp: list_all_iff)
next
  case (full proposal profile cm cm' snap res s1 files phase s2 log2 e)
  let ?cs = "files @ prepared req proposal profile cm cm' (gr_YAML res)"
  show ?thesis
  proof (cases rule: apply_step_traced[of profile proposal kc "gr_CNP res" s1 ?cs])
    case (written existing e' phase' evs s1')
    let ?key = "meta_key (un_Meta (gr_CNP res))"
    let ?xp = "proposal\<lparr>xp_Status := proposal_status now res phase (ConfigMapName (om_Name (pr_Meta profile))) (xp_Status proposal)\<rparr>"
    have "(PatchedProposal ?xp proposal e # evs) @ write_call existing (applied_cnp proposal (gr_CNP res) existing) e' #
        GotCNP ?key existing # ?cs = later @ c # earlier"
      using full(5,6) written(2) assms(2) by simp
    from unique_split[OF this, of "\<lambda>c. written_cnp c \<noteq> None"]
    have "later = PatchedProposal ?xp proposal e # evs" "cnp = applied_cnp proposal (gr_CNP res) existing"
      "earlier = GotCNP ?key existing # ?cs"
      using full(4) written(5) assms(3) by auto
    moreover from this(1) have "list_all (\<lambda>c. written_cnp c = None) later" using written(5) by simp
    ultimately show ?thesis using full(1-4) written(1) by blast
  next
    case skipped
    then have "list_all (\<lambda>c. written_cnp c = None) log" using full(4-6) by simp
    then show ?thesis using assms(2,3) by simp
  next
    case unread
    then have "list_all (\<lambda>c. written_cnp c = None) log" using full(4-6) by simp
    then show ?thesis using assms(2,3) by simp
  qed
qed

text \<open>A client that answers every read with the same objects and every write with success.\<close>

definition steady_client :: "unit kube_client" where
  "steady_client =
    \<lparr>kc_GetConfigMap = (\<lambda>s k. (Inr demo_cm, s)), kc_CreateConfigMap = (\<lambda>s cm. (None, s)),
     kc_PatchConfigMap = (\<lambda>s cm base. (None, s)), kc_GetProfile = (\<lambda>s k. (Inr (demo_profile ModeEnforce), s)),
     kc_PatchProfileStatus = (\<lambda>s p base. (None, s)), kc_GetProposal = (\<lambda>s k. (Inr (demo_proposal True), s)),
     kc_CreateProposal = (\<lambda>s xp. (Inr xp, s)), kc_PatchProposalStatus = (\<lambda>s xp base. (None, s)),
     kc_GetCNP = (\<lambda>s k. (Inl NotFound, s)), kc_CreateCNP = (\<lambda>s cnp. (None, s)), kc_UpdateCNP = (\<lambda>s cnp. (None, s)),
     kc_GetPod = (\<lambda>s k. (Inl NotFound, s)), kc_Eventf = (\<lambda>s ev. s)\<rparr>"

definition steady_os :: "unit os_calls" where
  "steady_os = \<lparr>os_MkdirAll = (\<lambda>s d. (None, s)), os_WriteFile = (\<lambda>s f text. (None, s))\<rparr>"

text \<open>The pass of an approved proposal under this client.\<close>

abbreviation steady_result :: GenerationResult where
  "steady_result \<equiv> Generate (\<lambda>_. []) rev rev ''payment'' ''shop'' demo_policy zero_Snapshot"

abbreviation steady_cnp :: Unstructured where
  "steady_cnp \<equiv> applied_cnp (demo_proposal True) (gr_CNP steady_result) (Inl NotFound)"

lemma steady_pass:
  obtains later earlier where
    "Proposal_Reconcile (\<lambda>_. []) rev rev 5 (traced steady_client) (traced_os steady_os) (''shop'', ''payment-proposal'') ((), []) =
       ((requeue_after 30, None), (), later @ CreatedCNP steady_cnp None # earlier)"
    "later = [PatchedProposal ((demo_proposal True)\<lparr>xp_Status := proposal_status 5 steady_result ProposalPhaseApplied (ConfigMapName ''payment'')
       zero_ProposalStatus\<rparr>) (demo_proposal True) None, Recorded (default_deny_event (demo_proposal True) (demo_profile ModeEnforce)
       (SetOwnerReferences (gr_CNP steady_result) [ownerRef ''EgressPolicyProposal'' (demo_meta ''payment-proposal'')]))]"
  by (simp add: Proposal_Reconcile_def steady_client_def Let_def GetSnapshot_def SavePolicyYAML_def patchData_def
      export_step_def apply_step_def applyCNP_def applied_cnp_def demo_cm_def demo_proposal_def demo_profile_def demo_meta_def
      data_get_def keyBaseline_def keyPolicy_def)

theorem proposal_pass_calls_witness:
  "\<exists>log later earlier. snd (snd (Proposal_Reconcile (\<lambda>_. []) rev rev 5 (traced steady_client) (traced_os steady_os)
       (''shop'', ''payment-proposal'') ((), []))) = log
     \<and> log = later @ CreatedCNP steady_cnp None # earlier \<and> list_all (\<lambda>c. written_cnp c = None) later
     \<and> (\<exists>proposal. last earlier = GotProposal (''shop'', ''payment-proposal'') (Inr proposal) \<and> ap_Approved (xs_Approval (xp_Spec proposal)))"
proof -
  obtain later earlier where run:
    "Proposal_Reconcile (\<lambda>_. []) rev rev 5 (traced steady_client) (traced_os steady_os) (''shop'', ''payment-proposal'') ((), []) =
       ((requeue_after 30, None), (), later @ CreatedCNP steady_cnp None # earlier)" by (rule steady_pass)
  from proposal_pass_calls[OF run refl] obtain proposal profile cm cm' yaml files x
    where "earlier = x # files @ prepared (''shop'', ''payment-proposal'') proposal profile cm cm' yaml"
      "ap_Approved (xs_Approval (xp_Spec proposal))" "list_all (\<lambda>c. written_cnp c = None) later" by auto
  moreover from this(1) have "last earlier = GotProposal (''shop'', ''payment-proposal'') (Inr proposal)"
    by (simp add: prepared_def Let_def)
  moreover have "snd (snd (Proposal_Reconcile (\<lambda>_. []) rev rev 5 (traced steady_client) (traced_os steady_os)
       (''shop'', ''payment-proposal'') ((), []))) = later @ CreatedCNP steady_cnp None # earlier" by (simp add: run)
  ultimately show ?thesis by blast
qed

text \<open>C9: what the proposal's status says is true. Whatever the client answers, a pass patches the
  status of the proposal at most once, as its last call, starting from the copy it read and with the
  specification and the metadata of that copy; the phase is PendingApproval unless the copies read say
  Enforce and approved, otherwise it is Applied if a write of a policy has succeeded in this very pass
  and Failed if none has.\<close>

theorem proposal_status_truthful:
  assumes "Proposal_Reconcile yamlMarshal ordF ordP now (traced kc) (traced_os os) req (s, []) = (r, s', log)"
    and "log = later @ PatchedProposal xp base e # earlier"
  shows "later = [] \<and> GotProposal req (Inr base) \<in> set earlier \<and> xp_Spec xp = xp_Spec base \<and> xp_Meta xp = xp_Meta base
    \<and> list_all (\<lambda>c. reported_proposal c = None) earlier
    \<and> (\<exists>profile. GotProfile (om_Namespace (xp_Meta base), xs_ProfileRef_Name (xp_Spec base)) (Inr profile) \<in> set earlier
      \<and> xt_Phase (xp_Status xp) =
          (if \<not> (ps_Mode (pr_Spec profile) = ModeEnforce \<and> ap_Approved (xs_Approval (xp_Spec base))) then ProposalPhasePendingApproval
           else if list_ex cnp_success earlier then ProposalPhaseApplied else ProposalPhaseFailed))"
  using assms(1)
proof (cases rule: Proposal_Reconcile_traced)
  case early
  then show ?thesis using assms(2) by auto
next
  case (full proposal profile cm cm' snap res s1 files phase s2 log2 e')
  let ?cs = "files @ prepared req proposal profile cm cm' (gr_YAML res)"
  let ?xp = "proposal\<lparr>xp_Status := proposal_status now res phase (ConfigMapName (om_Name (pr_Meta profile))) (xp_Status proposal)\<rparr>"
  let ?go = "ps_Mode (pr_Spec profile) = ModeEnforce \<and> ap_Approved (xs_Approval (xp_Spec proposal))"
  have "list_all (\<lambda>c. reported_proposal c = None) log2 \<and> set ?cs \<subseteq> set log2 \<and> phase =
      (if \<not> ?go then ProposalPhasePendingApproval else if list_ex cnp_success log2 then ProposalPhaseApplied else ProposalPhaseFailed)"
    using apply_step_report[OF full(5)] full(4) by simp
  moreover from this have "later = [] \<and> PatchedProposal xp base e = PatchedProposal ?xp proposal e' \<and> earlier = log2"
    using unique_split[of "[]" "PatchedProposal ?xp proposal e'" log2 later "PatchedProposal xp base e" earlier "\<lambda>c. reported_proposal c \<noteq> None"]
      full(6) assms(2) by simp
  ultimately show ?thesis by (auto simp: prepared_def Let_def proposal_status_def)
qed

theorem proposal_status_truthful_witness:
  "\<exists>xp e earlier. snd (snd (Proposal_Reconcile (\<lambda>_. []) rev rev 5 (traced steady_client) (traced_os steady_os)
       (''shop'', ''payment-proposal'') ((), []))) = PatchedProposal xp (demo_proposal True) e # earlier
     \<and> xp_Spec xp = xp_Spec (demo_proposal True) \<and> xt_Phase (xp_Status xp) = ProposalPhaseApplied \<and> list_ex cnp_success earlier"
proof -
  obtain xp earlier where run: "Proposal_Reconcile (\<lambda>_. []) rev rev 5 (traced steady_client) (traced_os steady_os)
      (''shop'', ''payment-proposal'') ((), []) = ((requeue_after 30, None), (), [] @ PatchedProposal xp (demo_proposal True) None # earlier)"
    "xt_Phase (xp_Status xp) = ProposalPhaseApplied"
    by (rule steady_pass) (simp add: proposal_status_def)
  have "list_ex cnp_success earlier"
    using proposal_status_truthful[OF run(1) refl] run(2) by (auto simp: phase_defs split: if_splits)
  then show ?thesis using proposal_status_truthful[OF run(1) refl] run by auto
qed

text \<open>C10: a pass of the profile reconciler, call by call. Whatever the client answers, it first reads the
  profile asked for and stops if there is none; then it calls only what concerns that profile: it
  reads or creates the profile's ConfigMap (empty and owned by it), in the modes Suggest and
  Enforce reads or creates the profile's proposal (not approved), and records events; it patches
  at most the status of that profile, as its last call, with the specification that it read, and
  reports the phase Enforced exactly when a proposal that it was shown is Applied. It never
  writes a policy, a proposal's status or an existing ConfigMap.\<close>

theorem profile_pass_calls:
  assumes "Profile_Reconcile now (traced kc) req acc (s, []) = (r, acc', s', log)"
  shows "Profile_Reconcile now kc req acc s = (r, acc', s')
    \<and> ((\<exists>err. log = [GotProfile req (Inl err)])
      \<or> (\<exists>profile calls report. log = report @ calls @ [GotProfile req (Inr profile)] \<and> list_all (profile_call profile) calls
          \<and> (report = [] \<or> (\<exists>p e. report = [PatchedProfile p profile e] \<and> reports profile p calls))))"
  using assms
proof (cases rule: Profile_Reconcile_traced)
  case (missing err)
  then show ?thesis by blast
next
  case (early profile calls)
  then show ?thesis by (metis append_Nil)
next
  case (full profile calls p e)
  then have "log = [PatchedProfile p profile e] @ calls @ [GotProfile req (Inr profile)]" by simp
  then show ?thesis using full by blast
qed

theorem profile_pass_calls_witness:
  "\<exists>p e profile calls. snd (snd (snd (Profile_Reconcile 5 (traced steady_client) (''shop'', ''payment'') None ((), [])))) =
       PatchedProfile p profile e # calls @ [GotProfile (''shop'', ''payment'') (Inr profile)]
     \<and> list_all (profile_call profile) calls \<and> reports profile p calls"
proof -
  obtain r p base e rest where run: "Profile_Reconcile 5 (traced steady_client) (''shop'', ''payment'') None ((), []) =
      (r, None, (), PatchedProfile p base e # rest)"
    by (simp add: Profile_Reconcile_def EnsureConfigMap_def ensureProposal_def steady_client_def Let_def GetSnapshot_def demo_cm_def
        data_get_def keyBaseline_def keyPolicy_def demo_profile_def)
  have ne: "PatchedProfile p base e # rest \<noteq> [GotProfile (''shop'', ''payment'') (Inl err)]" for err by simp
  obtain profile calls report where log: "PatchedProfile p base e # rest = report @ calls @ [GotProfile (''shop'', ''payment'') (Inr profile)]"
    "list_all (profile_call profile) calls"
    "report = [] \<or> (\<exists>p e. report = [PatchedProfile p profile e] \<and> reports profile p calls)"
    using profile_pass_calls[OF run] ne by blast
  have "report \<noteq> []" using log(1,2) by (cases calls) auto
  then show ?thesis using log run by auto
qed

end
