(* ===== verification/Deep_Copy.thy ===== *)
theory Deep_Copy
  imports Proposal_Controller
begin

text \<open>
  \<^verbatim>\<open>api/v1alpha1/zz_generated.deepcopy.go\<close>: the generated deep copies, on objects with explicit
  sharing. The reconcilers take a deep copy of an object as the base of a merge patch and then
  change the object in place (\<^verbatim>\<open>setCondition\<close> writes into the array of conditions). Everywhere
  else the model passes objects as values; here a pointer to a time and the array behind a
  slice are cells of a heap, and it is shown that the values are what the code computes: the
  base keeps the old object, whatever is written through the object.

  A struct that only one variable points to is its value. The metadata, a condition and a time
  are copied by functions of \<^verbatim>\<open>apimachinery\<close>, which are arguments.
\<close>

subsection \<open>Objects with sharing\<close>

text \<open>A slice: the address of its array and its length; the array may be longer. A nil slice and a
  nil pointer are \<open>None\<close>.\<close>

record slice =
  sl_arr :: nat
  sl_len :: nat

record hApprovalSpec =
  ha_Approved :: bool
  ha_ApprovedBy :: string
  ha_ApprovedAt :: "nat option"

record hProposalSpec =
  hs_ProfileRef :: string
  hs_GeneratedPolicy :: GeneratedPolicyRef
  hs_Approval :: hApprovalSpec

record hProposalStatus =
  hx_Phase :: ProposalPhase
  hx_ConfidenceScore :: int
  hx_RiskLevel :: risk_level
  hx_PolicyConfigMapRef :: string
  hx_ExcludedDestinations :: "slice option"
  hx_Conditions :: "slice option"
  hx_Message :: string

record hProposal =
  hx_Meta :: ObjectMeta
  hx_Spec :: hProposalSpec
  hx_Status :: hProposalStatus

record hProfileStatus =
  ht_Phase :: EgressPhase
  ht_Conditions :: "slice option"
  ht_ObservedDestinationsCount :: nat
  ht_Truncated :: bool
  ht_LastObservationTime :: "nat option"
  ht_BaselineConfigMapRef :: string
  ht_ProposalRef :: string
  ht_RiskSummary :: RiskSummary
  ht_Message :: string

record hProfile =
  hp_Meta :: ObjectMeta
  hp_Spec :: EgressProfileSpec
  hp_Status :: hProfileStatus

record ListMeta =
  lm_ResourceVersion :: string
  lm_Continue :: string

record hProfileList =
  hl_Meta :: ListMeta
  hl_Items :: "slice option"

record hProposalList =
  hm_Meta :: ListMeta
  hm_Items :: "slice option"

text \<open>The heap: one region per kind of cell; addresses below \<open>h_next\<close> are in use.\<close>

record heap =
  h_next :: nat
  h_times :: "nat \<Rightarrow> int"
  h_conds :: "nat \<Rightarrow> Condition list"
  h_excl :: "nat \<Rightarrow> ExcludedDestination list"
  h_profiles :: "nat \<Rightarrow> hProfile list"
  h_proposals :: "nat \<Rightarrow> hProposal list"

definition new_time :: "int \<Rightarrow> heap \<Rightarrow> nat option \<times> heap" where
  "new_time t h = (Some (h_next h), h\<lparr>h_next := h_next h + 1, h_times := (h_times h)(h_next h := t)\<rparr>)"

definition new_conds :: "Condition list \<Rightarrow> nat \<Rightarrow> heap \<Rightarrow> slice option \<times> heap" where
  "new_conds arr n h = (Some \<lparr>sl_arr = h_next h, sl_len = n\<rparr>,
     h\<lparr>h_next := h_next h + 1, h_conds := (h_conds h)(h_next h := arr)\<rparr>)"

definition new_excl :: "ExcludedDestination list \<Rightarrow> heap \<Rightarrow> slice option \<times> heap" where
  "new_excl arr h = (Some \<lparr>sl_arr = h_next h, sl_len = length arr\<rparr>,
     h\<lparr>h_next := h_next h + 1, h_excl := (h_excl h)(h_next h := arr)\<rparr>)"

text \<open>The elements of a slice.\<close>

definition elems :: "(nat \<Rightarrow> 'a list) \<Rightarrow> slice option \<Rightarrow> 'a list" where
  "elems arrays sl = (case sl of None \<Rightarrow> [] | Some s \<Rightarrow> take (sl_len s) (arrays (sl_arr s)))"

text \<open>What \<^verbatim>\<open>apimachinery\<close> does to the parts it copies.\<close>

record apimachinery =
  am_ObjectMeta :: "ObjectMeta \<Rightarrow> ObjectMeta"
  am_ListMeta :: "ListMeta \<Rightarrow> ListMeta"
  am_Condition :: "Condition \<Rightarrow> Condition"
  am_Time :: "int \<Rightarrow> int"

subsection \<open>zz_generated.deepcopy.go\<close>

text \<open>\<^verbatim>\<open>DeepCopy\<close> of a nil pointer is nil; otherwise it copies into a new object. \<^verbatim>\<open>DeepCopyObject\<close>
  returns the same as an interface value.\<close>

definition DeepCopy_of :: "('a \<Rightarrow> heap \<Rightarrow> 'a \<times> heap) \<Rightarrow> 'a option \<Rightarrow> heap \<Rightarrow> 'a option \<times> heap" where
  "DeepCopy_of into src h = (case src of None \<Rightarrow> (None, h) | Some x \<Rightarrow> (let (out, h) = into x h in (Some out, h)))"

definition copy_time :: "apimachinery \<Rightarrow> nat option \<Rightarrow> heap \<Rightarrow> nat option \<times> heap" where
  "copy_time am p h = (case p of None \<Rightarrow> (None, h) | Some a \<Rightarrow> new_time (am_Time am (h_times h a)) h)"

definition copy_conds :: "apimachinery \<Rightarrow> slice option \<Rightarrow> heap \<Rightarrow> slice option \<times> heap" where
  "copy_conds am sl h =
     (case sl of None \<Rightarrow> (None, h)
      | Some s \<Rightarrow> (let vs = map (am_Condition am) (elems (h_conds h) sl) in new_conds vs (length vs) h))"

definition copy_excl :: "slice option \<Rightarrow> heap \<Rightarrow> slice option \<times> heap" where
  "copy_excl sl h = (case sl of None \<Rightarrow> (None, h) | Some s \<Rightarrow> new_excl (elems (h_excl h) sl) h)"

definition DeepCopyInto_ApprovalSpec :: "apimachinery \<Rightarrow> hApprovalSpec \<Rightarrow> heap \<Rightarrow> hApprovalSpec \<times> heap" where
  "DeepCopyInto_ApprovalSpec am x h = (let out = x; (t, h) = copy_time am (ha_ApprovedAt x) h in (out\<lparr>ha_ApprovedAt := t\<rparr>, h))"

definition DeepCopy_ApprovalSpec :: "apimachinery \<Rightarrow> hApprovalSpec option \<Rightarrow> heap \<Rightarrow> hApprovalSpec option \<times> heap" where
  "DeepCopy_ApprovalSpec am = DeepCopy_of (DeepCopyInto_ApprovalSpec am)"

definition DeepCopyInto_ExcludedDestination :: "ExcludedDestination \<Rightarrow> heap \<Rightarrow> ExcludedDestination \<times> heap" where
  "DeepCopyInto_ExcludedDestination x h = (x, h)"

definition DeepCopy_ExcludedDestination :: "ExcludedDestination option \<Rightarrow> heap \<Rightarrow> ExcludedDestination option \<times> heap" where
  "DeepCopy_ExcludedDestination = DeepCopy_of DeepCopyInto_ExcludedDestination"

definition DeepCopyInto_GeneratedPolicyRef :: "GeneratedPolicyRef \<Rightarrow> heap \<Rightarrow> GeneratedPolicyRef \<times> heap" where
  "DeepCopyInto_GeneratedPolicyRef x h = (x, h)"

definition DeepCopy_GeneratedPolicyRef :: "GeneratedPolicyRef option \<Rightarrow> heap \<Rightarrow> GeneratedPolicyRef option \<times> heap" where
  "DeepCopy_GeneratedPolicyRef = DeepCopy_of DeepCopyInto_GeneratedPolicyRef"

definition DeepCopyInto_GitOpsConfig :: "GitOpsConfig \<Rightarrow> heap \<Rightarrow> GitOpsConfig \<times> heap" where
  "DeepCopyInto_GitOpsConfig x h = (x, h)"

definition DeepCopy_GitOpsConfig :: "GitOpsConfig option \<Rightarrow> heap \<Rightarrow> GitOpsConfig option \<times> heap" where
  "DeepCopy_GitOpsConfig = DeepCopy_of DeepCopyInto_GitOpsConfig"

definition DeepCopyInto_PolicyConfig :: "PolicyConfig \<Rightarrow> heap \<Rightarrow> PolicyConfig \<times> heap" where
  "DeepCopyInto_PolicyConfig x h = (x, h)"

definition DeepCopy_PolicyConfig :: "PolicyConfig option \<Rightarrow> heap \<Rightarrow> PolicyConfig option \<times> heap" where
  "DeepCopy_PolicyConfig = DeepCopy_of DeepCopyInto_PolicyConfig"

text \<open>\<^verbatim>\<open>ProfileRef\<close> has one field, the name.\<close>

definition DeepCopyInto_ProfileRef :: "string \<Rightarrow> heap \<Rightarrow> string \<times> heap" where
  "DeepCopyInto_ProfileRef x h = (x, h)"

definition DeepCopy_ProfileRef :: "string option \<Rightarrow> heap \<Rightarrow> string option \<times> heap" where
  "DeepCopy_ProfileRef = DeepCopy_of DeepCopyInto_ProfileRef"

definition DeepCopyInto_RiskSummary :: "RiskSummary \<Rightarrow> heap \<Rightarrow> RiskSummary \<times> heap" where
  "DeepCopyInto_RiskSummary x h = (x, h)"

definition DeepCopy_RiskSummary :: "RiskSummary option \<Rightarrow> heap \<Rightarrow> RiskSummary option \<times> heap" where
  "DeepCopy_RiskSummary = DeepCopy_of DeepCopyInto_RiskSummary"

definition DeepCopyInto_TargetRef :: "TargetRef \<Rightarrow> heap \<Rightarrow> TargetRef \<times> heap" where
  "DeepCopyInto_TargetRef x h = (x, h)"

definition DeepCopy_TargetRef :: "TargetRef option \<Rightarrow> heap \<Rightarrow> TargetRef option \<times> heap" where
  "DeepCopy_TargetRef = DeepCopy_of DeepCopyInto_TargetRef"

definition DeepCopyInto_EgressPolicyProposalSpec :: "apimachinery \<Rightarrow> hProposalSpec \<Rightarrow> heap \<Rightarrow> hProposalSpec \<times> heap" where
  "DeepCopyInto_EgressPolicyProposalSpec am x h =
     (let out = x\<lparr>hs_ProfileRef := hs_ProfileRef x, hs_GeneratedPolicy := hs_GeneratedPolicy x\<rparr>;
          (ap, h) = DeepCopyInto_ApprovalSpec am (hs_Approval x) h
      in (out\<lparr>hs_Approval := ap\<rparr>, h))"

definition DeepCopy_EgressPolicyProposalSpec :: "apimachinery \<Rightarrow> hProposalSpec option \<Rightarrow> heap \<Rightarrow> hProposalSpec option \<times> heap" where
  "DeepCopy_EgressPolicyProposalSpec am = DeepCopy_of (DeepCopyInto_EgressPolicyProposalSpec am)"

definition DeepCopyInto_EgressPolicyProposalStatus :: "apimachinery \<Rightarrow> hProposalStatus \<Rightarrow> heap \<Rightarrow> hProposalStatus \<times> heap" where
  "DeepCopyInto_EgressPolicyProposalStatus am x h =
     (let out = x; (ex, h) = copy_excl (hx_ExcludedDestinations x) h; (cs, h) = copy_conds am (hx_Conditions x) h
      in (out\<lparr>hx_ExcludedDestinations := ex, hx_Conditions := cs\<rparr>, h))"

definition DeepCopy_EgressPolicyProposalStatus :: "apimachinery \<Rightarrow> hProposalStatus option \<Rightarrow> heap \<Rightarrow> hProposalStatus option \<times> heap" where
  "DeepCopy_EgressPolicyProposalStatus am = DeepCopy_of (DeepCopyInto_EgressPolicyProposalStatus am)"

definition DeepCopyInto_EgressPolicyProposal :: "apimachinery \<Rightarrow> hProposal \<Rightarrow> heap \<Rightarrow> hProposal \<times> heap" where
  "DeepCopyInto_EgressPolicyProposal am x h =
     (let out = x\<lparr>hx_Meta := am_ObjectMeta am (hx_Meta x)\<rparr>;
          (sp, h) = DeepCopyInto_EgressPolicyProposalSpec am (hx_Spec x) h;
          (st, h) = DeepCopyInto_EgressPolicyProposalStatus am (hx_Status x) h
      in (out\<lparr>hx_Spec := sp, hx_Status := st\<rparr>, h))"

definition DeepCopy_EgressPolicyProposal :: "apimachinery \<Rightarrow> hProposal option \<Rightarrow> heap \<Rightarrow> hProposal option \<times> heap" where
  "DeepCopy_EgressPolicyProposal am = DeepCopy_of (DeepCopyInto_EgressPolicyProposal am)"

definition DeepCopyObject_EgressPolicyProposal :: "apimachinery \<Rightarrow> hProposal option \<Rightarrow> heap \<Rightarrow> hProposal option \<times> heap" where
  "DeepCopyObject_EgressPolicyProposal am x h =
     (case DeepCopy_EgressPolicyProposal am x h of (Some c, h) \<Rightarrow> (Some c, h) | (None, h) \<Rightarrow> (None, h))"

definition DeepCopyInto_EgressProfileSpec :: "EgressProfileSpec \<Rightarrow> heap \<Rightarrow> EgressProfileSpec \<times> heap" where
  "DeepCopyInto_EgressProfileSpec x h = (x\<lparr>ps_TargetRef := ps_TargetRef x, ps_Policy := ps_Policy x, ps_GitOps := ps_GitOps x\<rparr>, h)"

definition DeepCopy_EgressProfileSpec :: "EgressProfileSpec option \<Rightarrow> heap \<Rightarrow> EgressProfileSpec option \<times> heap" where
  "DeepCopy_EgressProfileSpec = DeepCopy_of DeepCopyInto_EgressProfileSpec"

definition DeepCopyInto_EgressProfileStatus :: "apimachinery \<Rightarrow> hProfileStatus \<Rightarrow> heap \<Rightarrow> hProfileStatus \<times> heap" where
  "DeepCopyInto_EgressProfileStatus am x h =
     (let out = x; (cs, h) = copy_conds am (ht_Conditions x) h; (t, h) = copy_time am (ht_LastObservationTime x) h
      in (out\<lparr>ht_Conditions := cs, ht_LastObservationTime := t, ht_RiskSummary := ht_RiskSummary x\<rparr>, h))"

definition DeepCopy_EgressProfileStatus :: "apimachinery \<Rightarrow> hProfileStatus option \<Rightarrow> heap \<Rightarrow> hProfileStatus option \<times> heap" where
  "DeepCopy_EgressProfileStatus am = DeepCopy_of (DeepCopyInto_EgressProfileStatus am)"

definition DeepCopyInto_EgressProfile :: "apimachinery \<Rightarrow> hProfile \<Rightarrow> heap \<Rightarrow> hProfile \<times> heap" where
  "DeepCopyInto_EgressProfile am x h =
     (let out = x\<lparr>hp_Meta := am_ObjectMeta am (hp_Meta x), hp_Spec := hp_Spec x\<rparr>;
          (st, h) = DeepCopyInto_EgressProfileStatus am (hp_Status x) h
      in (out\<lparr>hp_Status := st\<rparr>, h))"

definition DeepCopy_EgressProfile :: "apimachinery \<Rightarrow> hProfile option \<Rightarrow> heap \<Rightarrow> hProfile option \<times> heap" where
  "DeepCopy_EgressProfile am = DeepCopy_of (DeepCopyInto_EgressProfile am)"

definition DeepCopyObject_EgressProfile :: "apimachinery \<Rightarrow> hProfile option \<Rightarrow> heap \<Rightarrow> hProfile option \<times> heap" where
  "DeepCopyObject_EgressProfile am x h =
     (case DeepCopy_EgressProfile am x h of (Some c, h) \<Rightarrow> (Some c, h) | (None, h) \<Rightarrow> (None, h))"

text \<open>The lists: the new array is filled with the copies of the items.\<close>

fun copy_items :: "('a \<Rightarrow> heap \<Rightarrow> 'a \<times> heap) \<Rightarrow> 'a list \<Rightarrow> heap \<Rightarrow> 'a list \<times> heap" where
  "copy_items into [] h = ([], h)"
| "copy_items into (x # xs) h = (let (y, h) = into x h; (ys, h) = copy_items into xs h in (y # ys, h))"

definition DeepCopyInto_EgressProfileList :: "apimachinery \<Rightarrow> hProfileList \<Rightarrow> heap \<Rightarrow> hProfileList \<times> heap" where
  "DeepCopyInto_EgressProfileList am x h =
     (let out = x\<lparr>hl_Meta := am_ListMeta am (hl_Meta x)\<rparr> in
      case hl_Items x of
        None \<Rightarrow> (out, h)
      | Some s \<Rightarrow>
          (let (ys, h) = copy_items (DeepCopyInto_EgressProfile am) (elems (h_profiles h) (Some s)) h in
           (out\<lparr>hl_Items := Some \<lparr>sl_arr = h_next h, sl_len = length ys\<rparr>\<rparr>,
            h\<lparr>h_next := h_next h + 1, h_profiles := (h_profiles h)(h_next h := ys)\<rparr>)))"

definition DeepCopy_EgressProfileList :: "apimachinery \<Rightarrow> hProfileList option \<Rightarrow> heap \<Rightarrow> hProfileList option \<times> heap" where
  "DeepCopy_EgressProfileList am = DeepCopy_of (DeepCopyInto_EgressProfileList am)"

definition DeepCopyObject_EgressProfileList :: "apimachinery \<Rightarrow> hProfileList option \<Rightarrow> heap \<Rightarrow> hProfileList option \<times> heap" where
  "DeepCopyObject_EgressProfileList am x h =
     (case DeepCopy_EgressProfileList am x h of (Some c, h) \<Rightarrow> (Some c, h) | (None, h) \<Rightarrow> (None, h))"

definition DeepCopyInto_EgressPolicyProposalList :: "apimachinery \<Rightarrow> hProposalList \<Rightarrow> heap \<Rightarrow> hProposalList \<times> heap" where
  "DeepCopyInto_EgressPolicyProposalList am x h =
     (let out = x\<lparr>hm_Meta := am_ListMeta am (hm_Meta x)\<rparr> in
      case hm_Items x of
        None \<Rightarrow> (out, h)
      | Some s \<Rightarrow>
          (let (ys, h) = copy_items (DeepCopyInto_EgressPolicyProposal am) (elems (h_proposals h) (Some s)) h in
           (out\<lparr>hm_Items := Some \<lparr>sl_arr = h_next h, sl_len = length ys\<rparr>\<rparr>,
            h\<lparr>h_next := h_next h + 1, h_proposals := (h_proposals h)(h_next h := ys)\<rparr>)))"

definition DeepCopy_EgressPolicyProposalList :: "apimachinery \<Rightarrow> hProposalList option \<Rightarrow> heap \<Rightarrow> hProposalList option \<times> heap" where
  "DeepCopy_EgressPolicyProposalList am = DeepCopy_of (DeepCopyInto_EgressPolicyProposalList am)"

definition DeepCopyObject_EgressPolicyProposalList :: "apimachinery \<Rightarrow> hProposalList option \<Rightarrow> heap \<Rightarrow> hProposalList option \<times> heap" where
  "DeepCopyObject_EgressPolicyProposalList am x h =
     (case DeepCopy_EgressPolicyProposalList am x h of (Some c, h) \<Rightarrow> (Some c, h) | (None, h) \<Rightarrow> (None, h))"

subsection \<open>The reconcilers' use of a copy\<close>

text \<open>\<^verbatim>\<open>setCondition\<close> on the slice: it overwrites the first condition of the type in its array, or
  appends, in place when the array has room and in a new array otherwise (with some spare
  room \<open>extra\<close>).\<close>

fun find_type :: "string \<Rightarrow> Condition list \<Rightarrow> nat option" where
  "find_type ty [] = None"
| "find_type ty (c # cs) = (if cd_Type c = ty then Some 0 else map_option Suc (find_type ty cs))"

definition setCondition_in :: "Condition list \<Rightarrow> slice option \<Rightarrow> Condition \<Rightarrow> heap \<Rightarrow> slice option \<times> heap" where
  "setCondition_in extra sl cond h =
     (case sl of
        None \<Rightarrow> new_conds ([cond] @ extra) 1 h
      | Some s \<Rightarrow>
          (let arr = h_conds h (sl_arr s); n = sl_len s in
           case find_type (cd_Type cond) (take n arr) of
             Some i \<Rightarrow> (sl, h\<lparr>h_conds := (h_conds h)(sl_arr s := arr[i := cond])\<rparr>)
           | None \<Rightarrow>
               if n < length arr then
                 (Some (s\<lparr>sl_len := n + 1\<rparr>), h\<lparr>h_conds := (h_conds h)(sl_arr s := arr[n := cond])\<rparr>)
               else new_conds (take n arr @ [cond] @ extra) (n + 1) h))"

text \<open>The end of a pass of the profile reconciler, up to the patch: the object and the base of the
  patch.\<close>

definition profile_update_in :: "apimachinery \<Rightarrow> Condition list \<Rightarrow> int \<Rightarrow> Snapshot \<Rightarrow> EgressPhase \<Rightarrow> string \<Rightarrow> string \<Rightarrow>
    hProfile \<Rightarrow> heap \<Rightarrow> (hProfile \<times> hProfile option) \<times> heap" where
  "profile_update_in am extra now snap phase cmName proposalRef profile h =
     (let (low, medium, high) = countRisk snap;
          (base, h) = DeepCopy_EgressProfile am (Some profile) h;
          (t, h) = new_time now h;
          st = hp_Status profile;
          st = st\<lparr>ht_Phase := phase, ht_ObservedDestinationsCount := length (sn_Destinations snap),
            ht_Truncated := sn_Truncated snap, ht_LastObservationTime := t, ht_BaselineConfigMapRef := cmName,
            ht_ProposalRef := proposalRef, ht_RiskSummary := \<lparr>rs_Low = low, rs_Medium = medium, rs_High = high\<rparr>,
            ht_Message := (if high > 0 then dec high @ '' destination(s) High exclue(s) de la proposition.'' else ht_Message st)\<rparr>;
          (cs, h) = setCondition_in extra (ht_Conditions st)
            \<lparr>cd_Type = ''Ready'', cd_Status = ''True'', cd_Reason = ''Reconciled'', cd_Message = phase, cd_LastTransitionTime = now\<rparr> h
      in ((profile\<lparr>hp_Status := st\<lparr>ht_Conditions := cs\<rparr>\<rparr>, base), h))"

text \<open>The same for the proposal reconciler; the excluded destinations are the generator's slice.\<close>

definition proposal_update_in :: "apimachinery \<Rightarrow> Condition list \<Rightarrow> int \<Rightarrow> GenerationResult \<Rightarrow> ProposalPhase \<Rightarrow> string \<Rightarrow>
    hProposal \<Rightarrow> heap \<Rightarrow> (hProposal \<times> hProposal option) \<times> heap" where
  "proposal_update_in am extra now res phase cmName proposal h =
     (let (ex, h) = (if gr_ExcludedDestinations res = [] then (None, h) else new_excl (gr_ExcludedDestinations res) h);
          (base, h) = DeepCopy_EgressPolicyProposal am (Some proposal) h;
          st = (hx_Status proposal)\<lparr>hx_Phase := phase, hx_ConfidenceScore := gr_ConfidenceScore res, hx_RiskLevel := gr_RiskLevel res,
            hx_PolicyConfigMapRef := cmName, hx_ExcludedDestinations := ex, hx_Message := status_message res\<rparr>;
          (cs, h) = setCondition_in extra (hx_Conditions st)
            \<lparr>cd_Type = ''Ready'', cd_Status = ''True'', cd_Reason = phase, cd_Message = status_message res, cd_LastTransitionTime = now\<rparr> h
      in ((proposal\<lparr>hx_Status := st\<lparr>hx_Conditions := cs\<rparr>\<rparr>, base), h))"

end
