(* ===== verification/Deep_Copy_Props.thy ===== *)
theory Deep_Copy_Props
  imports Deep_Copy
begin

text \<open>
  The deep copies are faithful and share nothing with the original; the in-place changes the
  two reconcilers make after taking a deep copy compute the status of the value model and
  leave the copy as it was.
\<close>

subsection \<open>Values of objects\<close>

definition abs_approval :: "heap \<Rightarrow> hApprovalSpec \<Rightarrow> ApprovalSpec" where
  "abs_approval h x = \<lparr>ap_Approved = ha_Approved x, ap_ApprovedBy = ha_ApprovedBy x,
     ap_ApprovedAt = map_option (h_times h) (ha_ApprovedAt x)\<rparr>"

definition abs_proposal_spec :: "heap \<Rightarrow> hProposalSpec \<Rightarrow> EgressPolicyProposalSpec" where
  "abs_proposal_spec h x = \<lparr>xs_ProfileRef_Name = hs_ProfileRef x, xs_GeneratedPolicy = hs_GeneratedPolicy x,
     xs_Approval = abs_approval h (hs_Approval x)\<rparr>"

definition abs_proposal_status :: "heap \<Rightarrow> hProposalStatus \<Rightarrow> EgressPolicyProposalStatus" where
  "abs_proposal_status h x = \<lparr>xt_Phase = hx_Phase x, xt_ConfidenceScore = hx_ConfidenceScore x, xt_RiskLevel = hx_RiskLevel x,
     xt_PolicyConfigMapRef = hx_PolicyConfigMapRef x, xt_ExcludedDestinations = elems (h_excl h) (hx_ExcludedDestinations x),
     xt_Conditions = elems (h_conds h) (hx_Conditions x), xt_Message = hx_Message x\<rparr>"

definition abs_proposal :: "heap \<Rightarrow> hProposal \<Rightarrow> EgressPolicyProposal" where
  "abs_proposal h x = \<lparr>xp_Meta = hx_Meta x, xp_Spec = abs_proposal_spec h (hx_Spec x), xp_Status = abs_proposal_status h (hx_Status x)\<rparr>"

definition abs_profile_status :: "heap \<Rightarrow> hProfileStatus \<Rightarrow> EgressProfileStatus" where
  "abs_profile_status h x = \<lparr>pt_Phase = ht_Phase x, pt_Conditions = elems (h_conds h) (ht_Conditions x),
     pt_ObservedDestinationsCount = ht_ObservedDestinationsCount x, pt_Truncated = ht_Truncated x,
     pt_LastObservationTime = map_option (h_times h) (ht_LastObservationTime x),
     pt_BaselineConfigMapRef = ht_BaselineConfigMapRef x, pt_ProposalRef = ht_ProposalRef x,
     pt_RiskSummary = ht_RiskSummary x, pt_Message = ht_Message x\<rparr>"

definition abs_profile :: "heap \<Rightarrow> hProfile \<Rightarrow> EgressProfile" where
  "abs_profile h x = \<lparr>pr_Meta = hp_Meta x, pr_Spec = hp_Spec x, pr_Status = abs_profile_status h (hp_Status x)\<rparr>"

lemmas abs_defs = abs_approval_def abs_proposal_spec_def abs_proposal_status_def abs_proposal_def abs_profile_status_def abs_profile_def

text \<open>The cells an object reaches.\<close>

definition slice_cell :: "slice option \<Rightarrow> nat set" where
  "slice_cell sl = sl_arr ` set_option sl"

definition proposal_cells :: "hProposal \<Rightarrow> nat set" where
  "proposal_cells x = set_option (ha_ApprovedAt (hs_Approval (hx_Spec x))) \<union>
     slice_cell (hx_ExcludedDestinations (hx_Status x)) \<union> slice_cell (hx_Conditions (hx_Status x))"

definition profile_cells :: "hProfile \<Rightarrow> nat set" where
  "profile_cells x = slice_cell (ht_Conditions (hp_Status x)) \<union> set_option (ht_LastObservationTime (hp_Status x))"

lemmas cells_defs = slice_cell_def proposal_cells_def profile_cells_def

text \<open>Two heaps that agree on some cells give an object that reaches only those the same value.\<close>

definition agree :: "nat set \<Rightarrow> heap \<Rightarrow> heap \<Rightarrow> bool" where
  "agree A h h' \<longleftrightarrow> (\<forall>a\<in>A. h_times h' a = h_times h a \<and> h_conds h' a = h_conds h a \<and> h_excl h' a = h_excl h a)"

definition grown :: "heap \<Rightarrow> heap \<Rightarrow> bool" where
  "grown h h' \<longleftrightarrow> h_next h \<le> h_next h' \<and> agree {..<h_next h} h h'"

lemma grown_refl [simp]: "grown h h"
  by (simp add: grown_def agree_def)

lemma grown_trans: "grown h h' \<Longrightarrow> grown h' h'' \<Longrightarrow> grown h h''"
  by (fastforce simp: grown_def agree_def)

lemma elems_agree: "agree A h h' \<Longrightarrow> slice_cell sl \<subseteq> A \<Longrightarrow> elems (h_conds h') sl = elems (h_conds h) sl \<and> elems (h_excl h') sl = elems (h_excl h) sl"
  by (cases sl) (auto simp: agree_def elems_def slice_cell_def)

lemma time_agree: "agree A h h' \<Longrightarrow> set_option p \<subseteq> A \<Longrightarrow> map_option (h_times h') p = map_option (h_times h) p"
  by (cases p) (auto simp: agree_def)

lemma abs_profile_agree:
  assumes "agree (profile_cells x) h h'"
  shows "abs_profile h' x = abs_profile h x"
  using elems_agree[OF assms, of "ht_Conditions (hp_Status x)"] time_agree[OF assms, of "ht_LastObservationTime (hp_Status x)"]
  by (simp add: abs_profile_def abs_profile_status_def profile_cells_def)

lemma abs_proposal_agree:
  assumes "agree (proposal_cells x) h h'"
  shows "abs_proposal h' x = abs_proposal h x"
  using elems_agree[OF assms, of "hx_Conditions (hx_Status x)"] elems_agree[OF assms, of "hx_ExcludedDestinations (hx_Status x)"]
    time_agree[OF assms, of "ha_ApprovedAt (hs_Approval (hx_Spec x))"]
  by (simp add: abs_defs proposal_cells_def subset_iff)

lemma grown_elems:
  "grown h h' \<Longrightarrow> slice_cell sl \<subseteq> {..<h_next h} \<Longrightarrow> elems (h_conds h') sl = elems (h_conds h) sl \<and> elems (h_excl h') sl = elems (h_excl h) sl"
  unfolding grown_def by (blast dest: elems_agree)

lemma grown_time: "grown h h' \<Longrightarrow> set_option p \<subseteq> {..<h_next h} \<Longrightarrow> map_option (h_times h') p = map_option (h_times h) p"
  unfolding grown_def by (blast dest: time_agree)

lemma cells_mono: "grown h h' \<Longrightarrow> A \<subseteq> {..<h_next h} \<Longrightarrow> A \<subseteq> {..<h_next h'}"
  by (fastforce simp: grown_def)

lemma new_cells: "A \<subseteq> {m..<n} \<Longrightarrow> A \<subseteq> {..<(n::nat)}"
  by auto

lemma agree_mono: "agree B h h' \<Longrightarrow> A \<subseteq> B \<Longrightarrow> agree A h h'"
  by (auto simp: agree_def)

subsection \<open>Copies are equal and fresh\<close>

locale copiers =
  fixes am :: apimachinery
  assumes copies: "am_ObjectMeta am m = m" "am_ListMeta am l = l" "am_Condition am c = c" "am_Time am t = t"
begin

lemma copy_conditions [simp]: "map (am_Condition am) cs = cs"
  by (simp add: copies map_idI)

lemma copy_time_spec:
  assumes "copy_time am p h = (p', h')"
  shows "grown h h'" "map_option (h_times h') p' = map_option (h_times h) p" "set_option p' \<subseteq> {h_next h..<h_next h'}"
  using assms by (auto simp: copy_time_def new_time_def copies grown_def agree_def split: option.splits)

lemma copy_conds_spec:
  assumes "copy_conds am sl h = (sl', h')"
  shows "grown h h'" "elems (h_conds h') sl' = elems (h_conds h) sl" "slice_cell sl' \<subseteq> {h_next h..<h_next h'}"
  using assms by (auto simp: copy_conds_def new_conds_def copies grown_def agree_def elems_def slice_cell_def Let_def min_def split: option.splits)

lemma copy_excl_spec:
  assumes "copy_excl sl h = (sl', h')"
  shows "grown h h'" "elems (h_excl h') sl' = elems (h_excl h) sl" "slice_cell sl' \<subseteq> {h_next h..<h_next h'}"
  using assms by (auto simp: copy_excl_def new_excl_def grown_def agree_def elems_def slice_cell_def min_def split: option.splits)

end

text \<open>A kind of object with its copying, its value and its cells: the copy has the same value and
  only new cells, and no cell in use is changed. Copies of lists follow.\<close>

locale deep_copier =
  fixes into :: "'a \<Rightarrow> heap \<Rightarrow> 'a \<times> heap" and val :: "heap \<Rightarrow> 'a \<Rightarrow> 'b" and cells :: "'a \<Rightarrow> nat set"
  assumes val_agree: "agree (cells x) h h' \<Longrightarrow> val h' x = val h x"
    and into_spec: "into x h = (y, h') \<Longrightarrow> cells x \<subseteq> {..<h_next h} \<Longrightarrow>
      grown h h' \<and> val h' y = val h x \<and> cells y \<subseteq> {h_next h..<h_next h'}"
begin

lemma val_grown: "grown h h' \<Longrightarrow> cells x \<subseteq> {..<h_next h} \<Longrightarrow> val h' x = val h x"
  by (rule val_agree) (auto simp: grown_def intro: agree_mono)

lemma DeepCopy_spec:
  assumes "DeepCopy_of into (Some x) h = (y, h')" "cells x \<subseteq> {..<h_next h}"
  obtains z where "y = Some z" "grown h h'" "val h' z = val h x" "cells z \<subseteq> {h_next h..<h_next h'}" "val h' x = val h x"
proof -
  obtain z where z: "into x h = (z, h')" "y = Some z"
    using assms(1) by (auto simp: DeepCopy_of_def split: prod.splits)
  show thesis using into_spec[OF z(1) assms(2)] val_grown[of h h' x] assms(2) z(2) by (intro that[of z]) auto
qed

lemma copy_items_spec:
  assumes "copy_items into xs h = (ys, h')" "\<And>x. x \<in> set xs \<Longrightarrow> cells x \<subseteq> {..<h_next h}"
  shows "grown h h' \<and> map (val h') ys = map (val h) xs \<and> (\<forall>y\<in>set ys. cells y \<subseteq> {h_next h..<h_next h'})"
  using assms
proof (induction xs arbitrary: h ys)
  case (Cons x xs)
  obtain y h1 ys' where 1: "into x h = (y, h1)" "copy_items into xs h1 = (ys', h')" "ys = y # ys'"
    using Cons.prems(1) by (auto simp: Let_def split: prod.splits)
  have y: "grown h h1" "val h1 y = val h x" "cells y \<subseteq> {h_next h..<h_next h1}"
    using into_spec[OF 1(1)] Cons.prems(2)[of x] by auto
  then have le: "h_next h \<le> h_next h1" by (simp add: grown_def)
  have "cells z \<subseteq> {..<h_next h1}" if "z \<in> set xs" for z using Cons.prems(2)[of z] that le by fastforce
  then have ys: "grown h1 h'" "map (val h') ys' = map (val h1) xs" "\<forall>y\<in>set ys'. cells y \<subseteq> {h_next h1..<h_next h'}"
    using Cons.IH[OF 1(2)] by blast+
  have "map (val h1) xs = map (val h) xs" using val_grown[OF y(1)] Cons.prems(2) by simp
  moreover have "val h' y = val h1 y" by (rule val_grown[OF ys(1)]) (use y(3) in auto)
  moreover have "h_next h1 \<le> h_next h'" using ys(1) by (simp add: grown_def)
  ultimately show ?case using y ys le grown_trans[OF y(1) ys(1)] by (fastforce simp: 1(3))
qed simp

end

sublocale copiers \<subseteq> profile: deep_copier "DeepCopyInto_EgressProfile am" abs_profile profile_cells
proof
  fix x h y h'
  assume into: "DeepCopyInto_EgressProfile am x h = (y, h')" and in_use: "profile_cells x \<subseteq> {..<h_next h}"
  then obtain cs h1 t where 1: "copy_conds am (ht_Conditions (hp_Status x)) h = (cs, h1)"
    "copy_time am (ht_LastObservationTime (hp_Status x)) h1 = (t, h')"
    "y = x\<lparr>hp_Status := (hp_Status x)\<lparr>ht_Conditions := cs, ht_LastObservationTime := t\<rparr>\<rparr>"
    by (auto simp: DeepCopyInto_EgressProfile_def DeepCopyInto_EgressProfileStatus_def Let_def copies split: prod.splits)
  note c = copy_conds_spec[OF 1(1)] and t = copy_time_spec[OF 1(2)]
  have "grown h h'" by (rule grown_trans[OF c(1) t(1)])
  moreover have "elems (h_conds h') cs = elems (h_conds h) (ht_Conditions (hp_Status x))"
    using grown_elems[OF t(1) new_cells[OF c(3)]] c(2) by simp
  moreover have "map_option (h_times h') t = map_option (h_times h) (ht_LastObservationTime (hp_Status x))"
    using grown_time[OF c(1), of "ht_LastObservationTime (hp_Status x)"] t(2) in_use by (simp add: profile_cells_def)
  ultimately show "grown h h' \<and> abs_profile h' y = abs_profile h x \<and> profile_cells y \<subseteq> {h_next h..<h_next h'}"
    using c t by (fastforce simp: 1(3) abs_profile_def abs_profile_status_def profile_cells_def grown_def)
qed (rule abs_profile_agree)

sublocale copiers \<subseteq> proposal: deep_copier "DeepCopyInto_EgressPolicyProposal am" abs_proposal proposal_cells
proof
  fix x h y h'
  assume into: "DeepCopyInto_EgressPolicyProposal am x h = (y, h')" and in_use: "proposal_cells x \<subseteq> {..<h_next h}"
  let ?sp = "hx_Spec x" and ?st = "hx_Status x"
  obtain t h1 ex h2 cs where 1: "copy_time am (ha_ApprovedAt (hs_Approval ?sp)) h = (t, h1)"
    "copy_excl (hx_ExcludedDestinations ?st) h1 = (ex, h2)" "copy_conds am (hx_Conditions ?st) h2 = (cs, h')"
    "y = x\<lparr>hx_Spec := ?sp\<lparr>hs_Approval := (hs_Approval ?sp)\<lparr>ha_ApprovedAt := t\<rparr>\<rparr>,
           hx_Status := ?st\<lparr>hx_ExcludedDestinations := ex, hx_Conditions := cs\<rparr>\<rparr>"
    using into by (auto simp: DeepCopyInto_EgressPolicyProposal_def DeepCopyInto_EgressPolicyProposalSpec_def DeepCopyInto_ApprovalSpec_def
      DeepCopyInto_EgressPolicyProposalStatus_def Let_def copies split: prod.splits)
  note t = copy_time_spec[OF 1(1)] and e = copy_excl_spec[OF 1(2)] and c = copy_conds_spec[OF 1(3)]
  note g = grown_trans[OF e(1) c(1)] grown_trans[OF t(1) e(1)]
  have use: "slice_cell (hx_ExcludedDestinations ?st) \<subseteq> {..<h_next h}" "slice_cell (hx_Conditions ?st) \<subseteq> {..<h_next h}"
    using in_use by (auto simp: proposal_cells_def)
  have "map_option (h_times h') t = map_option (h_times h) (ha_ApprovedAt (hs_Approval ?sp))"
    using grown_time[OF g(1) new_cells[OF t(3)]] t(2) by simp
  moreover have "elems (h_excl h') ex = elems (h_excl h) (hx_ExcludedDestinations ?st)"
    using grown_elems[OF c(1) new_cells[OF e(3)]] grown_elems[OF t(1) use(1)] e(2) by simp
  moreover have "elems (h_conds h') cs = elems (h_conds h) (hx_Conditions ?st)"
    using grown_elems[OF g(2) use(2)] c(2) by simp
  moreover have "h_next h \<le> h_next h1" "h_next h1 \<le> h_next h2" "h_next h2 \<le> h_next h'"
    using t(1) e(1) c(1) by (simp_all add: grown_def)
  ultimately show "grown h h' \<and> abs_proposal h' y = abs_proposal h x \<and> proposal_cells y \<subseteq> {h_next h..<h_next h'}"
    using grown_trans[OF t(1) g(1)] t(3) e(3) c(3) by (auto simp: 1(4) abs_defs proposal_cells_def)
qed (rule abs_proposal_agree)

definition plain_copies :: apimachinery where
  "plain_copies = \<lparr>am_ObjectMeta = (\<lambda>m. m), am_ListMeta = (\<lambda>l. l), am_Condition = (\<lambda>c. c), am_Time = (\<lambda>t. t)\<rparr>"

interpretation std: copiers plain_copies
  by unfold_locales (simp_all add: plain_copies_def)

context copiers
begin

lemma profile_list_spec:
  assumes "DeepCopyInto_EgressProfileList am x h = (y, h')" "\<And>p. p \<in> set (elems (h_profiles h) (hl_Items x)) \<Longrightarrow> profile_cells p \<subseteq> {..<h_next h}"
  shows "hl_Meta y = hl_Meta x \<and> map (abs_profile h') (elems (h_profiles h') (hl_Items y)) = map (abs_profile h) (elems (h_profiles h) (hl_Items x))
    \<and> slice_cell (hl_Items y) \<subseteq> {h_next h..<h_next h'} \<and> (\<forall>p\<in>set (elems (h_profiles h') (hl_Items y)). profile_cells p \<subseteq> {h_next h..<h_next h'})"
proof (cases "hl_Items x")
  case None
  then show ?thesis using assms(1) by (auto simp: DeepCopyInto_EgressProfileList_def copies elems_def slice_cell_def)
next
  case (Some s)
  obtain ys h1 where c: "copy_items (DeepCopyInto_EgressProfile am) (elems (h_profiles h) (hl_Items x)) h = (ys, h1)"
    by (cases "copy_items (DeepCopyInto_EgressProfile am) (elems (h_profiles h) (hl_Items x)) h")
  have y: "y = x\<lparr>hl_Items := Some \<lparr>sl_arr = h_next h1, sl_len = length ys\<rparr>\<rparr>"
    "h' = h1\<lparr>h_next := h_next h1 + 1, h_profiles := (h_profiles h1)(h_next h1 := ys)\<rparr>"
    using assms(1) c Some by (auto simp: DeepCopyInto_EgressProfileList_def copies Let_def)
  have "abs_profile h' = abs_profile h1" by (rule ext) (simp add: y abs_profile_def abs_profile_status_def elems_def)
  moreover have "grown h h1" "map (abs_profile h1) ys = map (abs_profile h) (elems (h_profiles h) (hl_Items x))" "\<forall>p\<in>set ys. profile_cells p \<subseteq> {h_next h..<h_next h1}"
    using profile.copy_items_spec[OF c] assms(2) by blast+
  ultimately show ?thesis
    by (fastforce simp: y elems_def[of _ "Some \<lparr>sl_arr = h_next h1, sl_len = length ys\<rparr>"] slice_cell_def grown_def)
qed

lemma proposal_list_spec:
  assumes "DeepCopyInto_EgressPolicyProposalList am x h = (y, h')"
    and "\<And>p. p \<in> set (elems (h_proposals h) (hm_Items x)) \<Longrightarrow> proposal_cells p \<subseteq> {..<h_next h}"
  shows "hm_Meta y = hm_Meta x \<and> map (abs_proposal h') (elems (h_proposals h') (hm_Items y)) = map (abs_proposal h) (elems (h_proposals h) (hm_Items x))
    \<and> slice_cell (hm_Items y) \<subseteq> {h_next h..<h_next h'} \<and> (\<forall>p\<in>set (elems (h_proposals h') (hm_Items y)). proposal_cells p \<subseteq> {h_next h..<h_next h'})"
proof (cases "hm_Items x")
  case None
  then show ?thesis using assms(1) by (auto simp: DeepCopyInto_EgressPolicyProposalList_def copies elems_def slice_cell_def)
next
  case (Some s)
  obtain ys h1 where c: "copy_items (DeepCopyInto_EgressPolicyProposal am) (elems (h_proposals h) (hm_Items x)) h = (ys, h1)"
    by (cases "copy_items (DeepCopyInto_EgressPolicyProposal am) (elems (h_proposals h) (hm_Items x)) h")
  have y: "y = x\<lparr>hm_Items := Some \<lparr>sl_arr = h_next h1, sl_len = length ys\<rparr>\<rparr>"
    "h' = h1\<lparr>h_next := h_next h1 + 1, h_proposals := (h_proposals h1)(h_next h1 := ys)\<rparr>"
    using assms(1) c Some by (auto simp: DeepCopyInto_EgressPolicyProposalList_def copies Let_def)
  have "abs_proposal h' = abs_proposal h1" by (rule ext) (simp add: y abs_defs elems_def)
  moreover have "grown h h1" "map (abs_proposal h1) ys = map (abs_proposal h) (elems (h_proposals h) (hm_Items x))" "\<forall>p\<in>set ys. proposal_cells p \<subseteq> {h_next h..<h_next h1}"
    using proposal.copy_items_spec[OF c] assms(2) by blast+
  ultimately show ?thesis
    by (fastforce simp: y elems_def[of _ "Some \<lparr>sl_arr = h_next h1, sl_len = length ys\<rparr>"] slice_cell_def grown_def)
qed

end

subsection \<open>Setting a condition in place\<close>

lemma setCondition_find:
  "setCondition cs cond = (case find_type (cd_Type cond) cs of Some i \<Rightarrow> cs[i := cond] | None \<Rightarrow> cs @ [cond])"
  by (induction cs) (auto split: option.split)

lemma find_type_less: "find_type ty cs = Some i \<Longrightarrow> i < length cs"
  by (induction cs arbitrary: i) (auto split: if_splits)

definition slice_ok :: "heap \<Rightarrow> slice option \<Rightarrow> bool" where
  "slice_ok h sl \<longleftrightarrow> (\<forall>s\<in>set_option sl. sl_len s \<le> length (h_conds h (sl_arr s)) \<and> sl_arr s < h_next h)"

lemma setCondition_in_spec:
  assumes "setCondition_in extra sl cond h = (sl', h')" "slice_ok h sl"
  shows "elems (h_conds h') sl' = setCondition (elems (h_conds h) sl) cond"
    "a \<notin> slice_cell sl \<Longrightarrow> a < h_next h \<Longrightarrow> h_conds h' a = h_conds h a"
    "h_times h' = h_times h" "h_excl h' = h_excl h"
proof -
  have "elems (h_conds h') sl' = setCondition (elems (h_conds h) sl) cond
    \<and> (a \<notin> slice_cell sl \<longrightarrow> a < h_next h \<longrightarrow> h_conds h' a = h_conds h a) \<and> h_times h' = h_times h \<and> h_excl h' = h_excl h"
  proof (cases sl)
    case None
    then show ?thesis using assms(1) by (auto simp: setCondition_in_def new_conds_def elems_def)
  next
    case (Some s)
    define arr where "arr = h_conds h (sl_arr s)"
    have le: "sl_len s \<le> length arr" using assms(2) by (simp add: slice_ok_def Some arr_def)
    show ?thesis
    proof (cases "find_type (cd_Type cond) (take (sl_len s) arr)")
      case None
      show ?thesis
      proof (cases "sl_len s < length arr")
        case True
        then have "take (Suc (sl_len s)) (arr[sl_len s := cond]) = take (sl_len s) arr @ [cond]"
          by (simp add: take_Suc_conv_app_nth)
        then show ?thesis
          using assms(1) None True by (auto simp: setCondition_in_def Some Let_def setCondition_find elems_def slice_cell_def simp flip: arr_def)
      next
        case False
        then show ?thesis
          using assms(1) None le by (auto simp: setCondition_in_def Some Let_def setCondition_find elems_def slice_cell_def new_conds_def simp flip: arr_def)
      qed
    next
      case (Some i)
      have "sl = Some s" by fact
      then show ?thesis
        using assms(1) Some by (auto simp: setCondition_in_def Let_def setCondition_find elems_def slice_cell_def take_update_swap simp flip: arr_def)
    qed
  qed
  then show "elems (h_conds h') sl' = setCondition (elems (h_conds h) sl) cond"
    "a \<notin> slice_cell sl \<Longrightarrow> a < h_next h \<Longrightarrow> h_conds h' a = h_conds h a"
    "h_times h' = h_times h" "h_excl h' = h_excl h" by blast+
qed

subsection \<open>Properties\<close>

text \<open>An object whose cells are in use and whose slice of conditions fits its array.\<close>

definition profile_in :: "heap \<Rightarrow> hProfile \<Rightarrow> bool" where
  "profile_in h x \<longleftrightarrow> profile_cells x \<subseteq> {..<h_next h} \<and> slice_ok h (ht_Conditions (hp_Status x))"

definition proposal_in :: "heap \<Rightarrow> hProposal \<Rightarrow> bool" where
  "proposal_in h x \<longleftrightarrow> proposal_cells x \<subseteq> {..<h_next h} \<and> slice_ok h (hx_Conditions (hx_Status x))"

lemma slice_ok_grown: "grown h h' \<Longrightarrow> slice_ok h sl \<Longrightarrow> slice_ok h' sl"
  by (cases sl) (auto simp: slice_ok_def grown_def agree_def)

lemma setCondition_in_agree:
  assumes "setCondition_in extra sl cond h = (sl', h')" "slice_ok h sl" "A \<subseteq> {..<h_next h}" "A \<inter> slice_cell sl = {}"
  shows "agree A h h'"
  using setCondition_in_spec[OF assms(1,2)] assms(3,4) by (fastforce simp: agree_def)

context copiers
begin

lemma profile_update_in_spec:
  assumes "profile_in h x" "profile_update_in am extra now snap phase cmName ref x h = ((x', base), h')"
  shows "(\<exists>b. base = Some b \<and> abs_profile h' b = abs_profile h x)
    \<and> abs_profile h' x' = (abs_profile h x)\<lparr>pr_Status := profile_status now snap phase cmName ref (pr_Status (abs_profile h x))\<rparr>"
proof -
  obtain low medium high where risk: "countRisk snap = (low, medium, high)" by (cases "countRisk snap")
  obtain base' h1 where c: "DeepCopy_EgressProfile am (Some x) h = (base', h1)" by (cases "DeepCopy_EgressProfile am (Some x) h")
  obtain b where b: "base' = Some b" "grown h h1" "abs_profile h1 b = abs_profile h x" "profile_cells b \<subseteq> {h_next h..<h_next h1}"
    using profile.DeepCopy_spec[OF c[unfolded DeepCopy_EgressProfile_def]] assms(1) unfolding profile_in_def by metis
  define h2 where "h2 = h1\<lparr>h_next := Suc (h_next h1), h_times := (h_times h1)(h_next h1 := now)\<rparr>"
  have g: "grown h1 h2" by (auto simp: h2_def grown_def agree_def)
  let ?cs = "ht_Conditions (hp_Status x)"
  let ?c = "\<lparr>cd_Type = ''Ready'', cd_Status = ''True'', cd_Reason = ''Reconciled'', cd_Message = phase, cd_LastTransitionTime = now\<rparr>"
  obtain cs where cs: "setCondition_in extra ?cs ?c h2 = (cs, h')"
    and x': "base = Some b" "x' = x\<lparr>hp_Status := (hp_Status x)\<lparr>ht_Phase := phase, ht_ObservedDestinationsCount := length (sn_Destinations snap),
        ht_Truncated := sn_Truncated snap, ht_LastObservationTime := Some (h_next h1), ht_BaselineConfigMapRef := cmName,
        ht_ProposalRef := ref, ht_RiskSummary := \<lparr>rs_Low = low, rs_Medium = medium, rs_High = high\<rparr>,
        ht_Message := (if high > 0 then dec high @ '' destination(s) High exclue(s) de la proposition.'' else ht_Message (hp_Status x)),
        ht_Conditions := cs\<rparr>\<rparr>"
    using assms(2) by (auto simp: profile_update_in_def c b(1) risk new_time_def Let_def simp flip: h2_def split: prod.splits)
  have ok: "slice_ok h2 ?cs" using assms(1) slice_ok_grown[OF grown_trans[OF b(2) g]] by (simp add: profile_in_def)
  note sc = setCondition_in_spec[OF cs ok]
  have "slice_cell ?cs \<subseteq> {..<h_next h}" using assms(1) by (auto simp: profile_in_def profile_cells_def)
  then have "profile_cells b \<inter> slice_cell ?cs = {}" "elems (h_conds h2) ?cs = elems (h_conds h) ?cs"
    using b(4) grown_elems[OF grown_trans[OF b(2) g]] by fastforce+
  moreover have "profile_cells b \<subseteq> {..<h_next h2}" by (rule cells_mono[OF g new_cells[OF b(4)]])
  ultimately have "abs_profile h' b = abs_profile h2 b" "elems (h_conds h') cs = setCondition (elems (h_conds h) ?cs) ?c"
    using abs_profile_agree[OF setCondition_in_agree[OF cs ok]] sc(1) by auto
  moreover have "abs_profile h2 b = abs_profile h1 b" by (rule profile.val_grown[OF g new_cells[OF b(4)]])
  moreover have "h_times h' (h_next h1) = now" by (simp add: sc(3) h2_def)
  ultimately show ?thesis
    using b(3) x' by (simp add: abs_profile_def profile_status_def abs_profile_status_def risk)
qed

lemma proposal_update_in_spec:
  assumes "proposal_in h x" "proposal_update_in am extra now res phase cmName x h = ((x', base), h')"
  shows "(\<exists>b. base = Some b \<and> abs_proposal h' b = abs_proposal h x)
    \<and> abs_proposal h' x' = (abs_proposal h x)\<lparr>xp_Status := proposal_status now res phase cmName (xp_Status (abs_proposal h x))\<rparr>"
proof -
  obtain ex h0 where ex: "(if gr_ExcludedDestinations res = [] then (None, h) else new_excl (gr_ExcludedDestinations res) h) = (ex, h0)"
    by (cases "if gr_ExcludedDestinations res = [] then (None, h) else new_excl (gr_ExcludedDestinations res) h")
  have g0: "grown h h0" and e0: "elems (h_excl h0) ex = gr_ExcludedDestinations res" "slice_cell ex \<subseteq> {..<h_next h0}"
    using ex by (auto simp: new_excl_def grown_def agree_def elems_def slice_cell_def split: if_splits)
  have in0: "proposal_cells x \<subseteq> {..<h_next h0}" by (rule cells_mono[OF g0]) (use assms(1) in \<open>simp add: proposal_in_def\<close>)
  obtain base' h1 where c: "DeepCopy_EgressPolicyProposal am (Some x) h0 = (base', h1)" by (cases "DeepCopy_EgressPolicyProposal am (Some x) h0")
  obtain b where b: "base' = Some b" "grown h0 h1" "abs_proposal h1 b = abs_proposal h0 x" "proposal_cells b \<subseteq> {h_next h0..<h_next h1}"
    using proposal.DeepCopy_spec[OF c[unfolded DeepCopy_EgressPolicyProposal_def] in0] by metis
  let ?cs = "hx_Conditions (hx_Status x)"
  let ?c = "\<lparr>cd_Type = ''Ready'', cd_Status = ''True'', cd_Reason = phase, cd_Message = status_message res, cd_LastTransitionTime = now\<rparr>"
  obtain cs where cs: "setCondition_in extra ?cs ?c h1 = (cs, h')"
    and x': "base = Some b" "x' = x\<lparr>hx_Status := (hx_Status x)\<lparr>hx_Phase := phase, hx_ConfidenceScore := gr_ConfidenceScore res,
        hx_RiskLevel := gr_RiskLevel res, hx_PolicyConfigMapRef := cmName, hx_ExcludedDestinations := ex,
        hx_Message := status_message res, hx_Conditions := cs\<rparr>\<rparr>"
    using assms(2) by (auto simp: proposal_update_in_def ex c b(1) Let_def split: prod.splits)
  have g: "grown h h1" by (rule grown_trans[OF g0 b(2)])
  have ok: "slice_ok h1 ?cs" using assms(1) slice_ok_grown[OF g] by (simp add: proposal_in_def)
  note sc = setCondition_in_spec[OF cs ok]
  have use: "slice_cell ?cs \<subseteq> {..<h_next h0}" "set_option (ha_ApprovedAt (hs_Approval (hx_Spec x))) \<subseteq> {..<h_next h}"
    using in0 assms(1) by (auto simp: proposal_cells_def proposal_in_def)
  then have "proposal_cells b \<inter> slice_cell ?cs = {}" using b(4) by fastforce
  then have "abs_proposal h' b = abs_proposal h1 b"
    by (rule abs_proposal_agree[OF setCondition_in_agree[OF cs ok new_cells[OF b(4)]]])
  moreover have "abs_proposal h0 x = abs_proposal h x"
    by (rule proposal.val_grown[OF g0]) (use assms(1) in \<open>simp add: proposal_in_def\<close>)
  moreover have "elems (h_conds h') cs = setCondition (elems (h_conds h) ?cs) ?c"
    using sc(1) grown_elems[OF g] assms(1) by (auto simp: proposal_in_def proposal_cells_def)
  moreover have "elems (h_excl h') ex = gr_ExcludedDestinations res"
    using grown_elems[OF b(2) e0(2)] e0(1) by (simp add: sc(4))
  moreover have "map_option (h_times h') (ha_ApprovedAt (hs_Approval (hx_Spec x))) = map_option (h_times h) (ha_ApprovedAt (hs_Approval (hx_Spec x)))"
    using grown_time[OF g use(2)] by (simp add: sc(3))
  ultimately show ?thesis
    using b(3) x' by (simp add: abs_defs proposal_status_def)
qed

end

text \<open>Without the deep copy the base would change with the object: an existing condition of the type
  is overwritten in the array that a copy of the struct shares.\<close>

lemma shared_conditions_change:
  assumes "find_type (cd_Type cond) (elems (h_conds h) (Some s)) = Some i" "setCondition_in extra (Some s) cond h = (sl', h')"
  shows "sl' = Some s \<and> elems (h_conds h') (Some s) = (elems (h_conds h) (Some s))[i := cond]"
  using assms by (auto simp: setCondition_in_def elems_def Let_def take_update_swap)

text \<open>C40: the base of a merge patch. Both reconcilers take a deep copy of the object they read,
  then change the object, setting its Ready condition in place in an array the original
  struct shares. With deep copies of the metadata, conditions and times that are equal to the
  original, the copy that becomes the base still has the value of the object as it was read,
  and the object has that value with exactly the status the value model computes, whether the
  conditions are overwritten, appended in place or moved to a larger array.\<close>

theorem patch_base_isolated:
  assumes "copiers am" "profile_in h x" "proposal_in k y"
    and "profile_update_in am extra now snap phase cm ref x h = ((x', xbase), h')"
    and "proposal_update_in am extra now res pphase cm y k = ((y', ybase), k')"
  shows "map_option (abs_profile h') xbase = Some (abs_profile h x)
    \<and> abs_profile h' x' = (abs_profile h x)\<lparr>pr_Status := profile_status now snap phase cm ref (pr_Status (abs_profile h x))\<rparr>
    \<and> map_option (abs_proposal k') ybase = Some (abs_proposal k y)
    \<and> abs_proposal k' y' = (abs_proposal k y)\<lparr>xp_Status := proposal_status now res pphase cm (xp_Status (abs_proposal k y))\<rparr>"
  using copiers.profile_update_in_spec[OF assms(1,2,4)] copiers.proposal_update_in_spec[OF assms(1,3,5)] by auto

definition demo_heap :: heap where
  "demo_heap = \<lparr>h_next = 2, h_times = (\<lambda>_. 0),
     h_conds = (\<lambda>_. [\<lparr>cd_Type = ''Ready'', cd_Status = ''True'', cd_Reason = ''Reconciled'', cd_Message = [], cd_LastTransitionTime = 0\<rparr>]),
     h_excl = (\<lambda>_. []), h_profiles = (\<lambda>_. []), h_proposals = (\<lambda>_. [])\<rparr>"

definition demo_hProfile :: hProfile where
  "demo_hProfile = \<lparr>hp_Meta = demo_meta ''payment'',
     hp_Spec = \<lparr>ps_TargetRef = \<lparr>tr_APIVersion = ''apps/v1'', tr_Kind = ''Deployment'', tr_Name = ''payment''\<rparr>, ps_Mode = ModeEnforce,
       ps_BaselineWindow = ''24h'', ps_Policy = \<lparr>pc_AllowDNS = True, pc_AllowKubeSystem = True, pc_GeneratedPolicyName = []\<rparr>,
       ps_GitOps = \<lparr>gc_Enabled = False, gc_OutputPath = []\<rparr>\<rparr>,
     hp_Status = \<lparr>ht_Phase = [], ht_Conditions = Some \<lparr>sl_arr = 0, sl_len = 1\<rparr>, ht_ObservedDestinationsCount = 0, ht_Truncated = False,
       ht_LastObservationTime = Some 1, ht_BaselineConfigMapRef = [], ht_ProposalRef = [],
       ht_RiskSummary = \<lparr>rs_Low = 0, rs_Medium = 0, rs_High = 0\<rparr>, ht_Message = []\<rparr>\<rparr>"

definition demo_hProposal :: hProposal where
  "demo_hProposal = \<lparr>hx_Meta = demo_meta ''payment-proposal'',
     hx_Spec = \<lparr>hs_ProfileRef = ''payment'', hs_GeneratedPolicy = \<lparr>gp_Type = ''CiliumNetworkPolicy'', gp_Name = ''p''\<rparr>,
       hs_Approval = \<lparr>ha_Approved = True, ha_ApprovedBy = ''ops'', ha_ApprovedAt = Some 1\<rparr>\<rparr>,
     hx_Status = \<lparr>hx_Phase = [], hx_ConfidenceScore = 0, hx_RiskLevel = [], hx_PolicyConfigMapRef = [], hx_ExcludedDestinations = None,
       hx_Conditions = Some \<lparr>sl_arr = 0, sl_len = 1\<rparr>, hx_Message = []\<rparr>\<rparr>"

theorem patch_base_isolated_witness:
  "\<exists>x' b h'. profile_update_in plain_copies [] 5 zero_Snapshot PhaseProposed ''cm'' ''p'' demo_hProfile demo_heap = ((x', Some b), h')
    \<and> pt_Conditions (pr_Status (abs_profile h' b)) = pt_Conditions (pr_Status (abs_profile demo_heap demo_hProfile))
    \<and> pt_Conditions (pr_Status (abs_profile h' x')) \<noteq> pt_Conditions (pr_Status (abs_profile demo_heap demo_hProfile))"
proof -
  let ?res = "Generate (\<lambda>_. []) rev rev ''payment'' ''shop'' \<lparr>pc_AllowDNS = True, pc_AllowKubeSystem = True, pc_GeneratedPolicyName = []\<rparr> zero_Snapshot"
  obtain x' xb h' where u: "profile_update_in plain_copies [] 5 zero_Snapshot PhaseProposed ''cm'' ''p'' demo_hProfile demo_heap = ((x', xb), h')"
    by (metis prod.exhaust)
  obtain y' yb k' where v: "proposal_update_in plain_copies [] 5 ?res ProposalPhaseApplied ''cm'' demo_hProposal demo_heap = ((y', yb), k')"
    by (metis prod.exhaust)
  have "profile_in demo_heap demo_hProfile" "proposal_in demo_heap demo_hProposal"
    by (auto simp: profile_in_def proposal_in_def demo_heap_def demo_hProfile_def demo_hProposal_def profile_cells_def proposal_cells_def
      slice_cell_def slice_ok_def)
  note p = patch_base_isolated[OF std.copiers_axioms this u v]
  then obtain b where "xb = Some b" "abs_profile h' b = abs_profile demo_heap demo_hProfile" by auto
  moreover have "pt_Conditions (pr_Status (abs_profile h' x')) \<noteq> pt_Conditions (pr_Status (abs_profile demo_heap demo_hProfile))"
    using p by (simp add: abs_profile_def abs_profile_status_def profile_status_def demo_hProfile_def demo_heap_def elems_def Let_def split: prod.split)
  ultimately show ?thesis using u by auto
qed

end
