(* ===== verification/Spec2Isabelle.thy ===== *)
theory Spec2Isabelle
  imports Operator_Main Operator_System Enforcement Status_Types Flow_Attribution Flush_Race Call_Traces Deep_Copy_Props
begin

text \<open>
  A verification library of the egress-guardian operator (Go, under \<^verbatim>\<open>src/\<close>), a Kubernetes
  operator that observes the outgoing connections of workloads, proposes a Cilium network
  policy that allows exactly those, and applies it once a human has approved it.

  \<^bold>\<open>The program.\<close> A flow source (Hubble Relay over gRPC, or a mock) streams flows into the
  accumulator, which aggregates them per destination, forgets what is older than 24 hours and
  periodically saves one snapshot per registered workload as JSON text in a ConfigMap. The
  profile controller creates that ConfigMap, registers the workload, creates an
  \<^verbatim>\<open>EgressPolicyProposal\<close> in the modes Suggest and Enforce and reports. The proposal controller
  reads the snapshot, scores the destinations, generates the policy, stores and exports its
  YAML, applies it in mode Enforce when the proposal is approved, and reports. \<^verbatim>\<open>cmd/main.go\<close>
  wires the parts.

  \<^bold>\<open>Conventions.\<close> A Go struct is a record with one field per field of the struct (a prefix
  tells the type), a Go string a list of bytes as characters, \<^verbatim>\<open>uint32\<close> and \<^verbatim>\<open>uint64\<close> are words,
  \<^verbatim>\<open>int\<close> an integer with the conversion written out where it can overflow, a time its instant in
  nanoseconds, a map an association list with the order of \<^verbatim>\<open>range\<close> as an argument (any
  permutation, \<open>map_order\<close>). An error is a value of \<open>go_error\<close>, a nil error is \<open>None\<close>; the
  byte readers live in \<open>comp\<close>, where a panic and a loop that never ends are outcomes of
  their own. Stateful code takes and returns the state of the outside world. The clock, its
  location, map orders, the YAML printer, the API client, system calls, gRPC and
  \<^verbatim>\<open>controller-runtime\<close> calls, and the environment are arguments; what is relied on is
  stated in locales, all of which are interpreted on the definitions here or on the concrete
  server of \<open>Mem_Cluster\<close>.

  \<^bold>\<open>Theories and sources.\<close>
  \<^item> \<open>Prelude\<close>: outcomes, errors, integers, strings, maps; the collections of simp rules.
  \<^item> \<open>Flow_Types\<close> (\<^verbatim>\<open>observer/flow.go\<close>), \<open>Hubble_Proto\<close> (the protobuf readers of
    \<^verbatim>\<open>observer/hubble_grpc.go\<close>), \<open>Hubble_Wire\<close> (reference encoder; the readers on encoded messages
    and on arbitrary bytes), \<open>Flow_Sources\<close> (\<^verbatim>\<open>flowsource.go\<close> with its contract \<open>flow_source\<close>, the
    stream loop of \<^verbatim>\<open>hubble_grpc.go\<close>, \<^verbatim>\<open>mock.go\<close>, \<^verbatim>\<open>workload.go\<close>), \<open>Flow_Attribution\<close> (which flows
    reach which baseline).
  \<^item> \<open>Accumulator\<close>, \<open>Accumulator_Props\<close> (\<^verbatim>\<open>observer/accumulator.go\<close>; contract \<open>snapshot_store\<close>),
    \<open>Flush_Race\<close> (the map accesses of the flush and of registrations interleaved).
  \<^item> \<open>Go_Time\<close>, \<open>Go_Json\<close>, \<open>Snapshot_Codec\<close>: the calendar and RFC 3339 texts of \<^verbatim>\<open>time\<close>, the
    scanner, printer and decoder of \<^verbatim>\<open>encoding/json\<close>, and \<^verbatim>\<open>MarshalSnapshot\<close> and
    \<^verbatim>\<open>UnmarshalSnapshot\<close> on texts.
  \<^item> \<open>Baseline\<close>, \<open>Baseline_Props\<close> (\<^verbatim>\<open>internal/baseline\<close>); \<open>Net_IP\<close> (\<^verbatim>\<open>net.ParseIP\<close> and address
    classes), \<open>Wildcard\<close> (\<^verbatim>\<open>cilium/wildcard.go\<close> and the controller's prefix test), \<open>IP_Classes\<close> (the
    three tests for public addresses compared).
  \<^item> \<open>Api_Types\<close> (\<^verbatim>\<open>api/v1alpha1\<close>), \<open>Deep_Copy\<close>, \<open>Deep_Copy_Props\<close>
    (\<^verbatim>\<open>zz_generated.deepcopy.go\<close>, with pointers and slices as cells of a heap; contracts \<open>copiers\<close>
    and \<open>deep_copier\<close>).
  \<^item> \<open>Policy_Generator\<close>, \<open>Policy_Generator_Props\<close> (\<^verbatim>\<open>cilium/types.go\<close>, \<^verbatim>\<open>policy_generator.go\<close>).
  \<^item> \<open>Kube_Client\<close>: the API client and its contracts, from what a call can touch
    (\<open>api_client\<close>) over the effect of writes (\<open>merge_client\<close>) and current reads
    (\<open>fresh_client\<close>) to a server that answers (\<open>reliable_client\<close>); \<open>Mem_Cluster\<close>: a server
    with faults that meets them. \<open>Config_Store\<close> (\<^verbatim>\<open>store/configmap_store.go\<close>), \<open>Gitops_Export\<close>
    (\<^verbatim>\<open>gitops/exporter.go\<close>).
  \<^item> \<open>Profile_Controller\<close>, \<open>Proposal_Controller\<close> and their \<open>_Props\<close>
    (\<^verbatim>\<open>internal/controller\<close>; contracts \<open>merge_env\<close>, \<open>fresh_env\<close>, \<open>reliable_env\<close>);
    \<open>Call_Traces\<close> (the calls of a pass, recorded under any client).
  \<^item> \<open>Go_Duration\<close> (\<^verbatim>\<open>time.ParseDuration\<close>), \<open>Operator_Main\<close> (\<^verbatim>\<open>cmd/main.go\<close>, the
    \<^verbatim>\<open>SetupWithManager\<close> methods).
  \<^item> \<open>Operator_System\<close>: all parts interleaved with user edits, as a step relation;
    \<open>Enforcement\<close>: the passes in turn up to the enforced policy; \<open>Status_Types\<close>: the
    declared types of the statuses.

  \<^bold>\<open>What is shown.\<close>
  \<^item> Policy: the generated rules allow exactly the names that the scoring admits, each on its
    port and protocol, whatever the order of the maps; what is excluded, which wildcards
    pass, the shape of the policy, the overall risk.
  \<^item> Enforcement: a policy changes only for an approved proposal of a profile in mode
    Enforce, in one pass whatever calls fail or reads are stale, and in every interleaving of
    the whole system; the profile controller touches no policy, approval or ConfigMap;
    with a server that answers, approval leads to the enforced policy. Call by call and
    under any client: what a pass has read and stored before it writes a policy, that the
    statuses say Applied and Enforced only for a reason, and which calls the profile
    controller makes.
  \<^item> Accumulator and store: at most 500 destinations under distinct keys; what ingesting,
    purging and flushing compute; snapshots survive the JSON text and the ConfigMap;
    concurrent patches of different keys lose nothing; a registration during a flush never
    sends a snapshot to a foreign namespace.
  \<^item> Hubble: the decoder inverts the encoding and the stream loop sends exactly the
    accepted flows; it returns on all messages with small lengths, and panics or never ends
    on some with huge ones.
  \<^item> Scoring: bounds, exact risk levels, the sort as a stable sort, drift as set difference.
  \<^item> Objects: statuses stay in their declared types; the deep copy that is the base of a
    patch is not touched by the changes made in place afterwards.
  \<^item> Process: the start-up order and exits; the snapshot interval from the environment.

  Where the code departs from its documentation or intent, the theorem states what the code
  does; so in the properties on wildcards, exclusions, address tests, the risk summary,
  stale baselines, export paths, the Hubble workload names and the snapshot interval.

  \<^bold>\<open>Bounds.\<close> The extraction loops of the protobuf reader are \<^theory_text>\<open>partial_function (option)\<close>, with \<open>None\<close>
  for the runs that never end. The JSON parser recurses on fuel, twice the length of the text
  and one more, which \<open>jvalue_fuel\<close> shows to be enough. All other recursions are
  structural or have a termination proof.

  \<^bold>\<open>Abstractions.\<close> The accumulator's operations are atomic, as its mutex makes them, but for
  the second loop of \<^verbatim>\<open>flushSnapshots\<close>, which runs without it: \<open>Flush_Race\<close> models it
  access by access, on maps whose single accesses are atomic, which Go does not promise. Reconcile
  passes are atomic steps of the system; stale reads are covered by the theorems on a single
  pass, and interference between the calls of a pass by those on its calls. A nil
  entry in a decoded snapshot is reported as a decoding error instead of the later panic.
  Controllers pass objects by value, which \<open>Deep_Copy_Props\<close> justifies for the patches.

  \<^bold>\<open>Not modelled.\<close> Logging; the parsing of the command line (what \<^verbatim>\<open>flag.Parse\<close> makes of the
  defaults is an argument, as it also knows the flags of other packages); the registration of
  Go types in a scheme beyond its success or failure; the inside of gRPC, the API server, the
  YAML printer and \<^verbatim>\<open>controller-runtime\<close>; tests, manifests and deployment files.
\<close>

end
